(* ===== verification/Prelude.thy ===== *)
theory Prelude
  imports Complex_Main "HOL-Library.Word" "HOL-Library.AList" "HOL-Library.Monad_Syntax"
begin

text \<open>
  Shared vocabulary of the development: the JavaScript values and coercions the
  sources rely on, written out as HOL functions, and the generic lemmas on lists
  and numbers that the component theories share.

  \<^item> JavaScript numbers are modelled as \<open>real\<close>; floating-point rounding is not
    modelled (see the header of \<open>Spec2Isabelle\<close>).
  \<^item> \<open>x || d\<close> on an optional numeric property of a sound definition is
    \<open>js_or\<close>: the default replaces an absent value and also \<open>0\<close>, which is falsy.
  \<^item> Reading \<open>arr[i]\<close> of a boolean array past its end yields \<open>undefined\<close>,
    which every reader in the sources only tests for truthiness: \<open>js_get_bool\<close>
    returns \<open>False\<close> there. Writing past the end grows the array with holes,
    which read as \<open>undefined\<close> as well: \<open>js_set_bool\<close>.
  \<^item> \<open>ToInt16\<close>, \<open>ToUint16\<close>, \<open>ToUint32\<close> (the conversions of \<open>DataView\<close>
    setters and WebIDL integer arguments) truncate towards zero and wrap:
    \<open>js_trunc\<close> followed by \<open>word_of_int\<close> at the width.
  \<^item> A thrown exception is a value of \<open>js_error\<close>. JavaScript keeps every mutation
    made before the throw, so an operation that may throw returns
    \<open>(js_error \<times> 's) + 's\<close>: \<open>Inl (e, s')\<close> is the exception together with the
    partly updated state.
\<close>

unbundle bit_operations_syntax

named_theorems js_simps "evaluation rules of the JavaScript coercions of the model"

type_synonym byte = "8 word"

datatype js_error = TypeError | RangeError | NotSupportedError

type_synonym 's js_result = "(js_error \<times> 's) + 's"

definition js_state :: "'s js_result \<Rightarrow> 's" where
  "js_state r = (case r of Inl (_, s) \<Rightarrow> s | Inr s \<Rightarrow> s)"

lemma js_state_simps [simp]:
  "js_state (Inr s) = s"
  "js_state (Inl (e, s)) = s"
  by (simp_all add: js_state_def)

lemma map_sum_eq_Inr_iff [simp]: "map_sum f g x = Inr y \<longleftrightarrow> (\<exists>z. x = Inr z \<and> y = g z)"
  by (cases x) auto

lemma map_sum_eq_Inl_iff [simp]: "map_sum f g x = Inl e \<longleftrightarrow> (\<exists>z. x = Inl z \<and> e = f z)"
  by (cases x) auto

subsection \<open>Optional numeric properties and \<open>||\<close>\<close>

definition js_or :: "real option \<Rightarrow> real \<Rightarrow> real" where
  "js_or x d = (case x of None \<Rightarrow> d | Some v \<Rightarrow> if v = 0 then d else v)"

lemma js_or_simps [simp, js_simps]:
  "js_or None d = d"
  "js_or (Some v) d = (if v = 0 then d else v)"
  by (simp_all add: js_or_def)

lemma js_or_pos:
  assumes "\<forall>v. x = Some v \<longrightarrow> 0 \<le> v" and "0 < d"
  shows "0 < js_or x d"
  using assms by (cases x) auto

subsection \<open>Boolean arrays read and written by index\<close>

definition js_get_bool :: "bool list \<Rightarrow> nat \<Rightarrow> bool" where
  "js_get_bool xs i = (i < length xs \<and> xs ! i)"

definition js_set_bool :: "bool list \<Rightarrow> nat \<Rightarrow> bool \<Rightarrow> bool list" where
  "js_set_bool xs i v =
     (if i < length xs then xs[i := v] else xs @ replicate (i - length xs) False @ [v])"

lemma js_get_bool_in_range [simp]: "i < length xs \<Longrightarrow> js_get_bool xs i = xs ! i"
  by (simp add: js_get_bool_def)

lemma js_set_bool_in_range [simp]: "i < length xs \<Longrightarrow> js_set_bool xs i v = xs[i := v]"
  by (simp add: js_set_bool_def)

lemma js_get_set_bool_same [simp]: "js_get_bool (js_set_bool xs i v) i = v"
  by (auto simp add: js_get_bool_def js_set_bool_def nth_append)

lemma js_get_set_bool_other:
  "j \<noteq> i \<Longrightarrow> js_get_bool (js_set_bool xs i v) j = js_get_bool xs j"
  by (auto simp add: js_get_bool_def js_set_bool_def nth_append nth_Cons')

subsection \<open>Truncation and integer coercions\<close>

definition js_trunc :: "real \<Rightarrow> int" where
  "js_trunc x = (if 0 \<le> x then \<lfloor>x\<rfloor> else \<lceil>x\<rceil>)"

lemma js_trunc_of_int [simp, js_simps]: "js_trunc (of_int k) = k"
  by (simp add: js_trunc_def)

lemma js_trunc_of_nat [simp, js_simps]: "js_trunc (of_nat n) = int n"
  by (simp add: js_trunc_def)

lemma js_trunc_error: "\<bar>x - of_int (js_trunc x)\<bar> < 1"
proof (cases "0 \<le> x")
  case True
  then have "js_trunc x = \<lfloor>x\<rfloor>" by (simp add: js_trunc_def)
  then show ?thesis by linarith
next
  case False
  then show ?thesis using ceiling_correct [of x] by (simp add: js_trunc_def)
qed
lemma js_trunc_abs_le: "\<bar>of_int (js_trunc x)\<bar> \<le> \<bar>x\<bar>"
proof (cases "0 \<le> x")
  case True
  then have "js_trunc x = \<lfloor>x\<rfloor>" and "0 \<le> \<lfloor>x\<rfloor>" by (simp_all add: js_trunc_def)
  with True show ?thesis by linarith
next
  case False
  then have "\<lceil>x\<rceil> \<le> 0" by simp
  then show ?thesis using False ceiling_correct [of x] by (simp add: js_trunc_def)
qed
lemma js_trunc_bound:
  assumes "\<bar>x\<bar> < of_int b"
  shows "\<bar>js_trunc x\<bar> < b"
proof -
  have "\<bar>real_of_int (js_trunc x)\<bar> < of_int b"
    using js_trunc_abs_le [of x] assms by linarith
  then show ?thesis by linarith
qed

definition to_int16 :: "real \<Rightarrow> 16 word" where
  "to_int16 x = word_of_int (js_trunc x)"

definition to_uint16 :: "nat \<Rightarrow> 16 word" where
  "to_uint16 n = word_of_nat n"

definition to_uint32 :: "nat \<Rightarrow> 32 word" where
  "to_uint32 n = word_of_nat n"

lemma sint_to_int16:
  assumes "\<bar>x\<bar> < 32768"
  shows "sint (to_int16 x) = js_trunc x"
proof -
  have "\<bar>js_trunc x\<bar> < 32768"
    using assms by (intro js_trunc_bound) simp
  then have "- (2 ^ 15) \<le> js_trunc x" and "js_trunc x < 2 ^ 15"
    by simp_all
  then show ?thesis
    by (simp add: to_int16_def sint_sbintrunc' signed_take_bit_int_eq_self)
qed

lemma unat_to_uint32 [simp]: "n < 2 ^ 32 \<Longrightarrow> unat (to_uint32 n) = n"
  by (simp add: to_uint32_def unat_of_nat)

lemma unat_to_uint16 [simp]: "n < 2 ^ 16 \<Longrightarrow> unat (to_uint16 n) = n"
  by (simp add: to_uint16_def unat_of_nat)

subsection \<open>\<open>Math.max(lo, Math.min(hi, x))\<close>\<close>

definition js_clamp :: "real \<Rightarrow> real \<Rightarrow> real \<Rightarrow> real" where
  "js_clamp lo hi x = max lo (min hi x)"

lemma js_clamp_bounds: "lo \<le> hi \<Longrightarrow> lo \<le> js_clamp lo hi x \<and> js_clamp lo hi x \<le> hi"
  by (simp add: js_clamp_def)

lemma js_clamp_id [simp]: "lo \<le> x \<Longrightarrow> x \<le> hi \<Longrightarrow> js_clamp lo hi x = x"
  by (simp add: js_clamp_def)

subsection \<open>Lists\<close>

lemma nth_take_append_replicate:
  "i < n \<Longrightarrow> (take n xs @ replicate (n - length xs) v) ! i = (if i < length xs then xs ! i else v)"
  by (auto simp add: nth_append)

lemma length_take_append_replicate [simp]:
  "length (take n xs @ replicate (n - length xs) v) = n"
  by simp

end
