(* ===== verification/JsString.thy ===== *)
theory JsString
  imports Prelude
begin

text \<open>
  The JavaScript string operations the user interface relies on: a number
  written into a \<open>data-*\<close> attribute or a text node (\<open>Number.prototype.toString\<close>
  of a non-negative integer), \<open>parseInt\<close> on such an attribute, and the display
  name of a sound (\<open>sound.replace(/-/g, ' ').toUpperCase()\<close>,
  \<open>src/src/ui/SequencerRenderer.js\<close> line 14). Characters are the 8-bit
  characters of HOL's \<open>char\<close>; \<open>toUpperCase\<close> is modelled on ASCII, the only
  characters the sound names use.
\<close>

text \<open>The decimal digits of a natural number, most significant first.\<close>

fun string_of_nat :: "nat \<Rightarrow> string" where
  "string_of_nat n =
     (if n < 10 then [char_of (48 + n)] else string_of_nat (n div 10) @ [char_of (48 + n mod 10)])"

text \<open>An integer written as text: a minus sign, then the digits of its magnitude.\<close>

definition string_of_int :: "int \<Rightarrow> string" where
  "string_of_int i = (if i < 0 then ''-'' @ string_of_nat (nat (- i)) else string_of_nat (nat i))"

text \<open>\<open>StrWhiteSpaceChar\<close> restricted to 8-bit characters.\<close>

definition js_whitespace :: "char \<Rightarrow> bool" where
  "js_whitespace c \<longleftrightarrow> of_char c \<in> {9, 10, 11, 12, 13, 32, 160 :: nat}"

text \<open>The value of a digit in radix \<open>r\<close>: \<open>0-9\<close>, then \<open>a-z\<close> and \<open>A-Z\<close> from 10.\<close>

definition digit_value :: "nat \<Rightarrow> char \<Rightarrow> nat option" where
  "digit_value r c =
     (let n = of_char c :: nat;
          d = (if 48 \<le> n \<and> n \<le> 57 then Some (n - 48)
               else if 97 \<le> n \<and> n \<le> 122 then Some (n - 87)
               else if 65 \<le> n \<and> n \<le> 90 then Some (n - 55) else None)
      in case d of Some v \<Rightarrow> if v < r then Some v else None | None \<Rightarrow> None)"

definition digits_value :: "nat \<Rightarrow> string \<Rightarrow> nat" where
  "digits_value r s = foldl (\<lambda>acc c. acc * r + the (digit_value r c)) 0 s"

text \<open>
  \<open>parseInt(string)\<close> without a radix (ECMAScript 19.2.5): leading white space
  is skipped, then an optional sign, then a \<open>0x\<close>/\<open>0X\<close> prefix switches to radix
  16; the longest prefix of digits is read, and its absence gives \<open>NaN\<close>
  (\<open>None\<close>). \<open>-0\<close> is read as 0.
\<close>

definition parse_int :: "string \<Rightarrow> int option" where
  "parse_int s =
     (let s1 = dropWhile js_whitespace s;
          (sign, s2) = (case s1 of c # r \<Rightarrow> if c = CHR ''-'' then (-1 :: int, r)
                                             else if c = CHR ''+'' then (1, r) else (1, s1)
                                 | [] \<Rightarrow> (1, s1));
          (radix, s3) = (case s2 of c0 # x # r \<Rightarrow> if c0 = CHR ''0'' \<and> (x = CHR ''x'' \<or> x = CHR ''X'')
                                                  then (16, r) else (10, s2)
                                    | _ \<Rightarrow> (10, s2));
          z = takeWhile (\<lambda>c. digit_value radix c \<noteq> None) s3
      in if z = [] then None else Some (sign * int (digits_value radix z)))"

text \<open>\<open>String.prototype.toUpperCase\<close> on ASCII.\<close>

definition to_upper :: "char \<Rightarrow> char" where
  "to_upper c = (let n = of_char c :: nat in if 97 \<le> n \<and> n \<le> 122 then char_of (n - 32) else c)"

text \<open>\<open>sound.replace(/-/g, ' ').toUpperCase()\<close>.\<close>

definition display_name :: "string \<Rightarrow> string" where
  "display_name s = map to_upper (map (\<lambda>c. if c = CHR ''-'' then CHR '' '' else c) s)"

subsection \<open>Lemmas\<close>

text \<open>The recursion of \<open>string_of_nat\<close> is unfolded one branch at a time.\<close>

declare string_of_nat.simps [simp del]

lemma string_of_nat_small [simp]: "n < 10 \<Longrightarrow> string_of_nat n = [char_of (48 + n)]"
  by (simp add: string_of_nat.simps)

lemma string_of_nat_large [simp]:
  "\<not> n < 10 \<Longrightarrow> string_of_nat n = string_of_nat (n div 10) @ [char_of (48 + n mod 10)]"
  by (subst string_of_nat.simps) simp

lemma string_of_nat_digit: "c \<in> set (string_of_nat n) \<Longrightarrow> \<exists>d::nat. d < 10 \<and> c = char_of (48 + d)"
proof (induction n rule: string_of_nat.induct)
  case (1 n)
  show ?case
  proof (cases "n < 10")
    case True
    with "1.prems" show ?thesis by auto
  next
    case False
    with "1.prems" have "c \<in> set (string_of_nat (n div 10)) \<or> c = char_of (48 + n mod 10)" by auto
    then show ?thesis
    proof
      assume "c \<in> set (string_of_nat (n div 10))"
      with "1.IH" False show ?thesis by blast
    next
      assume "c = char_of (48 + n mod 10)"
      then show ?thesis by (intro exI [of _ "n mod 10"]) simp
    qed
  qed
qed

lemma string_of_nat_not_empty [simp]: "string_of_nat n \<noteq> []"
  by (cases "n < 10") simp_all

lemma digit_value_decimal [simp]: "d < 10 \<Longrightarrow> digit_value r (char_of (48 + d)) = (if d < r then Some d else None)"
  by (simp add: digit_value_def Let_def of_char_of)

lemma digits_value_snoc: "digits_value r (s @ [c]) = digits_value r s * r + the (digit_value r c)"
  by (simp add: digits_value_def)

lemma digits_value_string_of_nat: "digits_value 10 (string_of_nat n) = n"
proof (induction n rule: string_of_nat.induct)
  case (1 n)
  show ?case
  proof (cases "n < 10")
    case True
    then show ?thesis by (simp add: digits_value_def)
  next
    case False
    with 1 show ?thesis by (simp add: digits_value_snoc)
  qed
qed

lemma string_of_nat_all_digits: "\<forall>c \<in> set (string_of_nat n). digit_value 10 c \<noteq> None"
  using string_of_nat_digit by fastforce


lemma digit_char:
  assumes "d < (10 :: nat)"
  shows "\<not> js_whitespace (char_of (48 + d)) \<and> char_of (48 + d) \<noteq> CHR ''-'' \<and>
         char_of (48 + d) \<noteq> CHR ''+'' \<and> char_of (48 + d) \<noteq> CHR ''x'' \<and> char_of (48 + d) \<noteq> CHR ''X''"
proof -
  have o: "of_char (char_of (48 + d)) = (48 + d :: nat)" using assms by (simp add: of_char_of)
  have ne: "char_of (48 + d) \<noteq> c" if "of_char c \<noteq> (48 + d :: nat)" for c
    using o that by auto
  show ?thesis
    using assms o ne [of "CHR ''-''"] ne [of "CHR ''+''"] ne [of "CHR ''x''"] ne [of "CHR ''X''"]
    by (simp add: js_whitespace_def)
qed

theorem parse_int_string_of_nat: "parse_int (string_of_nat n) = Some (int n)"
proof -
  obtain c r where s: "string_of_nat n = c # r" by (cases "string_of_nat n") auto
  have all: "\<forall>x \<in> set (c # r). \<exists>d::nat. d < 10 \<and> x = char_of (48 + d)"
    using string_of_nat_digit [of _ n] unfolding s by blast
  then obtain d :: nat where d: "d < 10" "c = char_of (48 + d)" by auto
  have ws: "dropWhile js_whitespace (string_of_nat n) = string_of_nat n"
    using s d digit_char [of d] by simp
  have nx: "\<not> (c = CHR ''0'' \<and> (x = CHR ''x'' \<or> x = CHR ''X''))" if "r = x # r'" for x r'
  proof -
    from all that obtain d' :: nat where "d' < 10" "x = char_of (48 + d')" by auto
    then show ?thesis using digit_char [of d'] by simp
  qed
  have tw: "takeWhile (\<lambda>c. digit_value 10 c \<noteq> None) (string_of_nat n) = string_of_nat n"
    using string_of_nat_all_digits [of n] by (simp add: takeWhile_eq_all_conv)
  have dn: "digits_value 10 (c # r) = n" using digits_value_string_of_nat [of n] by (simp only: s)
  show ?thesis
    using ws tw nx dn digit_char [OF d(1)] unfolding s
    by (cases r) (auto simp add: parse_int_def Let_def d(2))
qed

end
