(* ===== verification/WebAudio.thy ===== *)
theory WebAudio
  imports Prelude
begin

text \<open>
  The part of the Web Audio API the sources configure, as data: the enumerations
  of filter and oscillator types, a \<open>BiquadFilterNode\<close> as a record of its
  parameters, and the parameter defaults of the platform. Audio processing
  itself (filtering, convolution, panning laws) is not modelled; the components
  record which nodes they create, how they configure them and how they connect
  them, and the theorems are about that configuration.
\<close>

datatype filter_type =
  Lowpass | Highpass | Bandpass | Lowshelf | Highshelf | Peaking | Notch | Allpass

datatype osc_type = Sine | Square | Sawtooth | Triangle

text \<open>A \<open>BiquadFilterNode\<close>: \<open>type\<close>, \<open>frequency.value\<close>, \<open>Q.value\<close>, \<open>gain.value\<close>.\<close>

record biquad =
  bq_type :: filter_type
  bq_frequency :: real
  bq_q :: real
  bq_gain :: real

text \<open>\<open>createBiquadFilter()\<close>: the defaults of the Web Audio specification.\<close>

definition create_biquad :: biquad where
  "create_biquad = \<lparr>bq_type = Lowpass, bq_frequency = 350, bq_q = 1, bq_gain = 0\<rparr>"

text \<open>
  The shelving EQ both the track chain and the master chain build:
  \<open>f.type = 'lowshelf'; f.frequency.value = 250\<close> and
  \<open>f.type = 'highshelf'; f.frequency.value = 4000\<close>
  (\<open>Track.js\<close> lines 24--27, \<open>audio-engine.js\<close> lines 44--47 and 287--290, 343--346).
\<close>

definition eq_low_shelf :: biquad where
  "eq_low_shelf = create_biquad\<lparr>bq_type := Lowshelf, bq_frequency := 250\<rparr>"

definition eq_high_shelf :: biquad where
  "eq_high_shelf = create_biquad\<lparr>bq_type := Highshelf, bq_frequency := 4000\<rparr>"

lemma eq_shelf_simps [simp]:
  "bq_type eq_low_shelf = Lowshelf" "bq_frequency eq_low_shelf = 250"
  "bq_type eq_high_shelf = Highshelf" "bq_frequency eq_high_shelf = 4000"
  "bq_gain eq_low_shelf = 0" "bq_gain eq_high_shelf = 0"
  by (simp_all add: eq_low_shelf_def eq_high_shelf_def create_biquad_def)

text \<open>
  A \<open>StereoPannerNode\<close> stores whatever is written to \<open>pan.value\<close> but renders
  with the value clamped to its nominal range \<open>[-1, 1]\<close>.
\<close>

definition effective_pan :: "real \<Rightarrow> real" where
  "effective_pan p = js_clamp (-1) 1 p"

lemma effective_pan_range: "-1 \<le> effective_pan p \<and> effective_pan p \<le> 1"
  by (simp add: effective_pan_def js_clamp_bounds)

subsection \<open>Contexts, nodes and parameter automation\<close>

text \<open>
  The live \<open>AudioContext\<close> and the \<open>OfflineAudioContext\<close> of an export are
  distinct graphs. A track's processing chain exists once per live track and,
  during an export, once per scheduled hit (\<open>OfflineStep globalStep trackIndex\<close>).
\<close>

datatype ctx = LiveCtx | OfflineCtx

datatype chain = LiveTrack nat | OfflineStep nat nat

datatype node =
    TrackEqLow chain | TrackEqHigh chain | TrackPanner chain | TrackGain chain
  | TrackReverbSend chain
  | MasterInput ctx | MasterEqLow ctx | MasterEqHigh ctx | MasterGain ctx
  | ReverbConvolver ctx | ReverbGain ctx | Destination ctx

type_synonym edge = "node \<times> node"

text \<open>The state of an audio context the sources read: \<open>sampleRate\<close>, \<open>currentTime\<close>.\<close>

record audio_ctx =
  sample_rate :: nat
  current_time :: real

text \<open>
  \<open>setValueAtTime(v, t)\<close>, \<open>linearRampToValueAtTime(v, t)\<close>,
  \<open>exponentialRampToValueAtTime(v, t)\<close> on an \<open>AudioParam\<close>.
\<close>

datatype param_event =
    SetValueAtTime real real
  | LinearRampToValueAtTime real real
  | ExponentialRampToValueAtTime real real

fun event_time :: "param_event \<Rightarrow> real" where
  "event_time (SetValueAtTime v t) = t"
| "event_time (LinearRampToValueAtTime v t) = t"
| "event_time (ExponentialRampToValueAtTime v t) = t"

fun event_value :: "param_event \<Rightarrow> real" where
  "event_value (SetValueAtTime v t) = v"
| "event_value (LinearRampToValueAtTime v t) = v"
| "event_value (ExponentialRampToValueAtTime v t) = v"

text \<open>
  The automation methods throw \<open>RangeError\<close> for a negative time, and
  \<open>exponentialRampToValueAtTime\<close> also for the target value \<open>0\<close>.
\<close>

fun event_ok :: "param_event \<Rightarrow> bool" where
  "event_ok (SetValueAtTime v t) \<longleftrightarrow> 0 \<le> t"
| "event_ok (LinearRampToValueAtTime v t) \<longleftrightarrow> 0 \<le> t"
| "event_ok (ExponentialRampToValueAtTime v t) \<longleftrightarrow> 0 \<le> t \<and> v \<noteq> 0"

end
