(* ===== verification/Track.thy ===== *)
theory Track
  imports WebAudio
begin

text \<open>
  \<open>src/src/audio/Track.js\<close>: one sequencer lane. The JavaScript object keeps its
  parameters twice, in its own fields (\<open>_volume\<close>, \<open>_pan\<close>, ...) and in the
  parameters of the Web Audio nodes it owns (\<open>gainNode.gain.value\<close>, ...); the
  record \<open>track\<close> holds both. Its step pattern is \<open>steps\<close>, whose length the
  class means to keep equal to \<open>_stepCount\<close> (\<open>track_wf\<close>).
\<close>

record track =
  sound :: string
  step_count :: nat
  steps :: "bool list"
  volume :: real
  pan :: real
  reverb_amount :: real
  eq_low :: real
  eq_high :: real
  gain_node_gain :: real
  panner_pan :: real
  reverb_send_gain :: real
  eq_low_filter :: biquad
  eq_high_filter :: biquad

text \<open>The \<open>config\<close> object the constructor reads.\<close>

record track_config =
  cfg_sound :: string
  cfg_volume :: real
  cfg_pan :: real
  cfg_reverb_amount :: real
  cfg_eq_low :: real
  cfg_eq_high :: real
  cfg_step_count :: nat

text \<open>\<open>new Array(n)\<close> throws \<open>RangeError\<close> unless \<open>n\<close> is a valid array length.\<close>

definition array_length_ok :: "nat \<Rightarrow> bool" where
  "array_length_ok n \<longleftrightarrow> n < 2 ^ 32"

subsection \<open>Setters\<close>

definition set_volume :: "real \<Rightarrow> track \<Rightarrow> track" where
  "set_volume v t = t\<lparr>volume := v, gain_node_gain := v\<rparr>"

definition set_pan :: "real \<Rightarrow> track \<Rightarrow> track" where
  "set_pan v t = t\<lparr>pan := v, panner_pan := v\<rparr>"

definition set_reverb_amount :: "real \<Rightarrow> track \<Rightarrow> track" where
  "set_reverb_amount v t = t\<lparr>reverb_amount := v, reverb_send_gain := v\<rparr>"

definition set_eq_low :: "real \<Rightarrow> track \<Rightarrow> track" where
  "set_eq_low v t = t\<lparr>eq_low := v, eq_low_filter := (eq_low_filter t)\<lparr>bq_gain := v\<rparr>\<rparr>"

definition set_eq_high :: "real \<Rightarrow> track \<Rightarrow> track" where
  "set_eq_high v t = t\<lparr>eq_high := v, eq_high_filter := (eq_high_filter t)\<lparr>bq_gain := v\<rparr>\<rparr>"

text \<open>
  The copy loop of \<open>setStepCount\<close>:
  \<open>for (let i = 0; i < Math.min(oldSteps.length, newCount); i++) this.steps[i] = oldSteps[i];\<close>
  \<open>copy_steps old i k new\<close> runs the remaining \<open>k\<close> iterations from index \<open>i\<close>.
\<close>

fun copy_steps :: "bool list \<Rightarrow> nat \<Rightarrow> nat \<Rightarrow> bool list \<Rightarrow> bool list" where
  "copy_steps old i 0 new = new"
| "copy_steps old i (Suc k) new = copy_steps old (Suc i) k (new[i := old ! i])"

text \<open>
  \<open>setStepCount(newCount)\<close>: nothing happens when the count is unchanged;
  otherwise \<open>_stepCount\<close> is assigned before \<open>new Array(newCount)\<close> is built, so
  a \<open>RangeError\<close> from the allocation leaves the new count with the old pattern.
\<close>

definition set_step_count :: "nat \<Rightarrow> track \<Rightarrow> track js_result" where
  "set_step_count n t =
     (if n \<noteq> step_count t then
        (let old_steps = steps t;
             t1 = t\<lparr>step_count := n\<rparr>
         in if \<not> array_length_ok n then Inl (RangeError, t1)
            else Inr (t1\<lparr>steps := copy_steps old_steps 0 (min (length old_steps) n) (replicate n False)\<rparr>))
      else Inr t)"

subsection \<open>Constructor\<close>

text \<open>
  \<open>new Track(audioContext, config)\<close>: the fields, a pattern of \<open>stepCount\<close>
  \<open>false\<close> values, the five nodes with the shelving filters configured, and the
  five setters applied to the initial values in the order of the source.
\<close>

definition new_track :: "track_config \<Rightarrow> js_error + track" where
  "new_track c =
     (if \<not> array_length_ok (cfg_step_count c) then Inl RangeError
      else Inr
       (set_eq_high (cfg_eq_high c)
        (set_eq_low (cfg_eq_low c)
         (set_reverb_amount (cfg_reverb_amount c)
          (set_pan (cfg_pan c)
           (set_volume (cfg_volume c)
             \<lparr>sound = cfg_sound c, step_count = cfg_step_count c,
              steps = replicate (cfg_step_count c) False,
              volume = cfg_volume c, pan = cfg_pan c, reverb_amount = cfg_reverb_amount c,
              eq_low = cfg_eq_low c, eq_high = cfg_eq_high c,
              gain_node_gain = 1, panner_pan = 0, reverb_send_gain = 1,
              eq_low_filter = eq_low_shelf, eq_high_filter = eq_high_shelf\<rparr>))))))"

text \<open>A four-step lane with hits at 0, 2 and 3, used by the witnesses.\<close>

definition example_track :: track where
  "example_track =
     \<lparr>sound = ''kick-01'', step_count = 4, steps = [True, False, True, True],
      volume = 0.8, pan = 0, reverb_amount = 0, eq_low = 0, eq_high = 0,
      gain_node_gain = 0.8, panner_pan = 0, reverb_send_gain = 0,
      eq_low_filter = eq_low_shelf, eq_high_filter = eq_high_shelf\<rparr>"

subsection \<open>Invariants\<close>

text \<open>The pattern has \<open>stepCount\<close> entries.\<close>

definition track_wf :: "track \<Rightarrow> bool" where
  "track_wf t \<longleftrightarrow> length (steps t) = step_count t"

text \<open>
  Every parameter field agrees with the parameter of the node it drives, and the
  shelving filters keep their type and corner frequency.
\<close>

definition nodes_mirror :: "track \<Rightarrow> bool" where
  "nodes_mirror t \<longleftrightarrow>
     gain_node_gain t = volume t \<and> panner_pan t = pan t \<and> reverb_send_gain t = reverb_amount t \<and>
     bq_gain (eq_low_filter t) = eq_low t \<and> bq_gain (eq_high_filter t) = eq_high t \<and>
     bq_type (eq_low_filter t) = Lowshelf \<and> bq_frequency (eq_low_filter t) = 250 \<and>
     bq_type (eq_high_filter t) = Highshelf \<and> bq_frequency (eq_high_filter t) = 4000"

lemmas track_setter_defs =
  set_volume_def set_pan_def set_reverb_amount_def set_eq_low_def set_eq_high_def

lemma copy_steps_length [simp]: "length (copy_steps old i k new) = length new"
  by (induction k arbitrary: i new) simp_all

text \<open>
  What the copy loop computes: after the iterations from \<open>i\<close> to \<open>i + k\<close>,
  those indices hold the old values and all others are untouched.
\<close>

lemma copy_steps_nth:
  assumes "i + k \<le> length old" and "i + k \<le> length new" and "j < length new"
  shows "copy_steps old i k new ! j = (if i \<le> j \<and> j < i + k then old ! j else new ! j)"
  using assms
proof (induction k arbitrary: i new)
  case 0
  then show ?case by auto
next
  case (Suc k)
  have "copy_steps old (Suc i) k (new[i := old ! i]) ! j =
          (if Suc i \<le> j \<and> j < Suc i + k then old ! j else new[i := old ! i] ! j)"
    using Suc.prems by (intro Suc.IH) simp_all
  then show ?case
    using Suc.prems by (auto simp add: nth_list_update)
qed

text \<open>The copy loop of \<open>setStepCount\<close> keeps the overlapping prefix and zero-fills the rest.\<close>

lemma copy_steps_resize:
  "copy_steps old 0 (min (length old) n) (replicate n False) =
     take n old @ replicate (n - length old) False"
proof (rule nth_equalityI)
  fix j
  assume "j < length (copy_steps old 0 (min (length old) n) (replicate n False))"
  then have "j < n" by simp
  then show "copy_steps old 0 (min (length old) n) (replicate n False) ! j =
               (take n old @ replicate (n - length old) False) ! j"
    by (simp add: copy_steps_nth nth_take_append_replicate)
qed simp

lemma set_step_count_same [simp]: "set_step_count (step_count t) t = Inr t"
  by (simp add: set_step_count_def)

lemma set_step_count_changed:
  "n \<noteq> step_count t \<Longrightarrow> array_length_ok n \<Longrightarrow>
     set_step_count n t =
       Inr (t\<lparr>step_count := n, steps := take n (steps t) @ replicate (n - length (steps t)) False\<rparr>)"
  by (simp add: set_step_count_def copy_steps_resize Let_def)

lemma set_step_count_other_fields:
  "sound (js_state (set_step_count n t)) = sound t \<and>
   volume (js_state (set_step_count n t)) = volume t \<and>
   nodes_mirror (js_state (set_step_count n t)) = nodes_mirror t"
  by (simp add: set_step_count_def Let_def nodes_mirror_def)

lemma track_setters_mirror:
  "nodes_mirror t \<Longrightarrow> nodes_mirror (set_volume v t)"
  "nodes_mirror t \<Longrightarrow> nodes_mirror (set_pan v t)"
  "nodes_mirror t \<Longrightarrow> nodes_mirror (set_reverb_amount v t)"
  "nodes_mirror t \<Longrightarrow> nodes_mirror (set_eq_low v t)"
  "nodes_mirror t \<Longrightarrow> nodes_mirror (set_eq_high v t)"
  by (simp_all add: nodes_mirror_def track_setter_defs)

lemma track_setters_wf:
  "track_wf (set_volume v t) = track_wf t" "track_wf (set_pan v t) = track_wf t"
  "track_wf (set_reverb_amount v t) = track_wf t" "track_wf (set_eq_low v t) = track_wf t"
  "track_wf (set_eq_high v t) = track_wf t"
  by (simp_all add: track_wf_def track_setter_defs)

lemma track_setters_steps [simp]:
  "steps (set_volume v t) = steps t" "steps (set_pan v t) = steps t"
  "steps (set_reverb_amount v t) = steps t" "steps (set_eq_low v t) = steps t"
  "steps (set_eq_high v t) = steps t"
  "step_count (set_volume v t) = step_count t" "step_count (set_pan v t) = step_count t"
  "step_count (set_reverb_amount v t) = step_count t" "step_count (set_eq_low v t) = step_count t"
  "step_count (set_eq_high v t) = step_count t"
  by (simp_all add: track_setter_defs)

subsection \<open>Properties of \<open>setStepCount\<close>\<close>

text \<open>
  C3: on a well-formed lane, \<open>setStepCount(n)\<close> with a valid array length gives the
  lane \<open>n\<close> steps, keeps the old values at the indices below \<open>min(old, n)\<close> and
  sets every newly added index to \<open>false\<close>; nothing else of the lane changes.
\<close>

theorem set_step_count_resizes:
  assumes "track_wf t" and "array_length_ok n"
  shows "set_step_count n t =
           Inr (t\<lparr>step_count := n, steps := take n (steps t) @ replicate (n - step_count t) False\<rparr>)"
proof (cases "n = step_count t")
  case True
  with assms(1) show ?thesis by (simp add: track_wf_def)
next
  case False
  with assms show ?thesis by (simp add: set_step_count_changed track_wf_def)
qed

theorem set_step_count_resizes_witness:
  "set_step_count 8 example_track =
     Inr (example_track\<lparr>step_count := 8, steps := [True, False, True, True, False, False, False, False]\<rparr>) \<and>
   set_step_count 2 example_track = Inr (example_track\<lparr>step_count := 2, steps := [True, False]\<rparr>)"
proof -
  have wf: "track_wf example_track" by (simp add: track_wf_def example_track_def)
  have "array_length_ok 8" "array_length_ok 2" by (simp_all add: array_length_ok_def)
  with set_step_count_resizes [OF wf] show ?thesis
    by (simp add: example_track_def numeral_eq_Suc)
qed



text \<open>
  C28: the error path of \<open>setStepCount\<close>: a count that is not a valid array length
  throws \<open>RangeError\<close> after \<open>_stepCount\<close> was already assigned, so the lane is
  left with the new count and the old pattern, and the invariant is broken.
\<close>

theorem set_step_count_range_error:
  assumes "track_wf t" and "n \<noteq> step_count t" and "\<not> array_length_ok n"
  shows "set_step_count n t = Inl (RangeError, t\<lparr>step_count := n\<rparr>) \<and>
         \<not> track_wf (js_state (set_step_count n t))"
  using assms by (simp add: set_step_count_def track_wf_def)

theorem set_step_count_range_error_witness:
  "set_step_count (2 ^ 32) example_track = Inl (RangeError, example_track\<lparr>step_count := 2 ^ 32\<rparr>) \<and>
   \<not> track_wf (js_state (set_step_count (2 ^ 32) example_track))"
  by (rule set_step_count_range_error)
     (simp_all add: track_wf_def example_track_def array_length_ok_def)

end
