(* ===== verification/MixBus.thy ===== *)
theory MixBus
  imports Track
begin

text \<open>
  The master bus of \<open>src/audio-engine.js\<close>: the input sum, the two shelving
  filters and the master gain in front of the context's destination, and the
  global convolution reverb whose return feeds the input sum again
  (\<open>init\<close>, lines 38--67; the same chain is rebuilt for an export, lines 281--310).
  The audio graph is the list of \<open>connect\<close> calls made (\<open>edge list\<close>); the
  lemmas on \<open>reaches\<close> say which nodes a signal can flow to.
\<close>

text \<open>The decoded impulse response, identified by the asset it was decoded from.\<close>

datatype impulse_response = ImpulseResponse nat

record master_chain =
  master_input_gain :: real
  master_eq_low :: biquad
  master_eq_high :: biquad
  master_gain :: real
  reverb_gain :: real
  convolver_buffer :: "impulse_response option"

text \<open>The nodes as \<open>init\<close> configures them, lines 39--59.\<close>

definition init_master_chain :: master_chain where
  "init_master_chain =
     \<lparr>master_input_gain = 1, master_eq_low = eq_low_shelf, master_eq_high = eq_high_shelf,
      master_gain = 0.7, reverb_gain = 0.3, convolver_buffer = None\<rparr>"

text \<open>Input \<open>\<rightarrow>\<close> EQ low \<open>\<rightarrow>\<close> EQ high \<open>\<rightarrow>\<close> master gain \<open>\<rightarrow>\<close> destination, lines 50--53.\<close>

definition master_chain_edges :: "ctx \<Rightarrow> edge list" where
  "master_chain_edges c =
     [(MasterInput c, MasterEqLow c), (MasterEqLow c, MasterEqHigh c),
      (MasterEqHigh c, MasterGain c), (MasterGain c, Destination c)]"

text \<open>Convolver \<open>\<rightarrow>\<close> reverb gain \<open>\<rightarrow>\<close> master input, lines 62--63.\<close>

definition reverb_return_edges :: "ctx \<Rightarrow> edge list" where
  "reverb_return_edges c = [(ReverbConvolver c, ReverbGain c), (ReverbGain c, MasterInput c)]"

text \<open>EQ low \<open>\<rightarrow>\<close> EQ high \<open>\<rightarrow>\<close> panner \<open>\<rightarrow>\<close> track gain: the \<open>Track\<close> constructor, lines 31--33.\<close>

definition track_chain_edges :: "chain \<Rightarrow> edge list" where
  "track_chain_edges ch =
     [(TrackEqLow ch, TrackEqHigh ch), (TrackEqHigh ch, TrackPanner ch), (TrackPanner ch, TrackGain ch)]"

text \<open>
  \<open>setupTracks\<close>, lines 103 and 105: the track's output to the master input and
  its reverb-send node to the convolver.
\<close>

definition live_track_bus_edges :: "nat \<Rightarrow> edge list" where
  "live_track_bus_edges i =
     [(TrackGain (LiveTrack i), MasterInput LiveCtx),
      (TrackReverbSend (LiveTrack i), ReverbConvolver LiveCtx)]"

subsection \<open>Signal flow\<close>

definition reaches :: "edge list \<Rightarrow> node \<Rightarrow> node \<Rightarrow> bool" where
  "reaches g a b \<longleftrightarrow> (a, b) \<in> (set g)\<^sup>*"

lemma reaches_refl [simp, intro]: "reaches g a a"
  by (simp add: reaches_def)

lemma reaches_step [intro]: "(a, b) \<in> set g \<Longrightarrow> reaches g b c \<Longrightarrow> reaches g a c"
  unfolding reaches_def by (rule converse_rtrancl_into_rtrancl)

lemma reaches_no_entry:
  assumes "reaches g a b" and "\<forall>x. (x, b) \<notin> set g"
  shows "a = b"
  using assms unfolding reaches_def by (auto elim: rtranclE)

text \<open>
  A node whose only entries come from one predecessor is reached, from anywhere
  else, through that predecessor.
\<close>

lemma reaches_through_only_entry:
  assumes "reaches g a b" and "a \<noteq> b" and "\<forall>x. (x, b) \<in> set g \<longrightarrow> x = p"
  shows "reaches g a p"
  using assms unfolding reaches_def by (auto elim: rtranclE)

lemma reaches_mono: "set g \<subseteq> set h \<Longrightarrow> reaches g a b \<Longrightarrow> reaches h a b"
  unfolding reaches_def by (meson rtrancl_mono subsetD)

end
