(* ===== verification/SoundCatalog.thy ===== *)
theory SoundCatalog
  imports WebAudio
begin

text \<open>
  \<open>src/src/audio/SampleDefinitions.js\<close>: the static table \<open>SAMPLE_DEFINITIONS\<close>
  of synthesis parameters, and the engine's copy of it, \<open>this.samples\<close>
  (\<open>loadSamples\<close>, \<open>getSampleNames\<close> in \<open>src/audio-engine.js\<close>).

  A JavaScript object literal with string keys enumerates its keys in insertion
  order, and assigning to an existing key keeps its position: an association
  list updated with \<open>AList.update\<close> behaves the same. Properties the literal
  leaves out are \<open>None\<close>.
\<close>

record sound_def =
  category :: string
  freq :: real
  osc :: osc_type
  duration :: "real option"
  gain :: real
  attack :: "real option"
  decay :: "real option"
  sustain :: "real option"
  release :: "real option"
  noise :: bool
  noise_gain :: "real option"
  filter_kind :: "filter_type option"
  filter_freq :: "real option"
  filter_q :: "real option"
  sweep :: "(real \<times> real) option"

type_synonym catalog = "(string \<times> sound_def) list"

text \<open>The properties every entry of the table sets; the others start absent.\<close>

definition sound_entry ::
  "string \<Rightarrow> real \<Rightarrow> osc_type \<Rightarrow> real \<Rightarrow> real \<Rightarrow> real \<Rightarrow> real \<Rightarrow> sound_def" where
  "sound_entry c f t d g a dc =
     \<lparr>category = c, freq = f, osc = t, duration = Some d, gain = g,
      attack = Some a, decay = Some dc, sustain = None, release = None,
      noise = False, noise_gain = None, filter_kind = None, filter_freq = None,
      filter_q = None, sweep = None\<rparr>"

definition sample_definitions :: catalog where
  "sample_definitions =
   [(''kick-01'', sound_entry ''drums'' 60 Sine 0.5 0.8 0.005 0.3),
    (''kick-02'', sound_entry ''drums'' 50 Triangle 0.7 0.9 0.01 0.4),
    (''snare-01'', (sound_entry ''drums'' 200 Sawtooth 0.2 0.6 0.001 0.15)
        \<lparr>noise := True, noise_gain := Some 0.4, filter_freq := Some 1500, filter_q := Some 1\<rparr>),
    (''snare-02'', (sound_entry ''drums'' 150 Square 0.3 0.7 0.002 0.2)
        \<lparr>noise := True, noise_gain := Some 0.5, filter_freq := Some 1000, filter_q := Some 0.5\<rparr>),
    (''clap-01'', (sound_entry ''drums'' 1000 Square 0.15 0.5 0.001 0.1)
        \<lparr>noise := True, noise_gain := Some 0.6, filter_kind := Some Bandpass,
         filter_freq := Some 800, filter_q := Some 2\<rparr>),
    (''clap-02'', (sound_entry ''drums'' 1200 Triangle 0.2 0.4 0.005 0.15)
        \<lparr>noise := True, noise_gain := Some 0.7, filter_kind := Some Bandpass,
         filter_freq := Some 1000, filter_q := Some 1.5\<rparr>),
    (''hihat-01'', (sound_entry ''drums'' 8000 Sawtooth 0.1 0.3 0.001 0.05)
        \<lparr>noise := True, noise_gain := Some 0.8, filter_kind := Some Highpass,
         filter_freq := Some 5000\<rparr>),
    (''hihat-02'', (sound_entry ''drums'' 9000 Square 0.15 0.25 0.002 0.07)
        \<lparr>noise := True, noise_gain := Some 0.7, filter_kind := Some Highpass,
         filter_freq := Some 6000\<rparr>),
    (''perc-01'', sound_entry ''drums'' 400 Triangle 0.3 0.4 0.005 0.2),
    (''perc-02'', sound_entry ''drums'' 800 Sine 0.25 0.35 0.002 0.15),
    (''bass-01'', (sound_entry ''synths'' 80 Square 0.8 0.7 0.01 0.5)\<lparr>sustain := Some 0.6\<rparr>),
    (''bass-02'', (sound_entry ''synths'' 60 Sawtooth 1.0 0.75 0.05 0.7)\<lparr>sustain := Some 0.5\<rparr>),
    (''synth-01'', (sound_entry ''synths'' 440 Triangle 1.0 0.5 0.1 0.5)\<lparr>sustain := Some 0.7\<rparr>),
    (''synth-02'', (sound_entry ''synths'' 520 Sine 1.2 0.45 0.05 0.6)\<lparr>sustain := Some 0.8\<rparr>),
    (''fx-01'', (sound_entry ''fx'' 1200 Sine 0.7 0.4 0.01 0.6)\<lparr>sweep := Some (1200, 100)\<rparr>),
    (''fx-02'', (sound_entry ''fx'' 200 Sawtooth 0.8 0.35 0.05 0.7)\<lparr>sweep := Some (200, 1500)\<rparr>)]"

text \<open>
  \<open>loadSamples()\<close>: \<open>this.samples[name] = config\<close> for every entry of
  \<open>Object.entries(SAMPLE_DEFINITIONS)\<close>, in order.
\<close>

definition load_samples :: "catalog \<Rightarrow> catalog" where
  "load_samples samples = fold (\<lambda>(name, config) m. AList.update name config m) sample_definitions samples"

text \<open>\<open>this.samples[name]\<close>, \<open>undefined\<close> as \<open>None\<close>.\<close>

definition sample_lookup :: "catalog \<Rightarrow> string \<Rightarrow> sound_def option" where
  "sample_lookup samples name = map_of samples name"

text \<open>\<open>getSampleNames()\<close>: \<open>Object.keys(this.samples)\<close>.\<close>

definition get_sample_names :: "catalog \<Rightarrow> string list" where
  "get_sample_names samples = map fst samples"

subsection \<open>Lemmas\<close>

lemma sample_definitions_names:
  "map fst sample_definitions =
     [''kick-01'', ''kick-02'', ''snare-01'', ''snare-02'', ''clap-01'', ''clap-02'',
      ''hihat-01'', ''hihat-02'', ''perc-01'', ''perc-02'', ''bass-01'', ''bass-02'',
      ''synth-01'', ''synth-02'', ''fx-01'', ''fx-02'']"
  by (simp add: sample_definitions_def)

lemma sample_definitions_distinct: "distinct (map fst sample_definitions)"
  by (simp add: sample_definitions_names)

lemma update_fresh_key:
  "k \<notin> set (map fst m) \<Longrightarrow> AList.update k v m = m @ [(k, v)]"
  by (induction m) auto

text \<open>
  Filling an object, with keys it does not have yet, from a list of distinct keys
  appends the list in order.
\<close>

lemma fold_update_fresh:
  assumes "distinct (map fst xs)" and "set (map fst xs) \<inter> set (map fst m) = {}"
  shows "fold (\<lambda>(k, v) m. AList.update k v m) xs m = m @ xs"
  using assms
proof (induction xs arbitrary: m)
  case Nil
  then show ?case by simp
next
  case (Cons x xs)
  obtain k v where x: "x = (k, v)" by (cases x)
  with Cons.prems have fresh: "k \<notin> set (map fst m)" by auto
  have "fold (\<lambda>(k, v) m. AList.update k v m) xs (m @ [(k, v)]) = (m @ [(k, v)]) @ xs"
    using Cons.prems x by (intro Cons.IH) auto
  then show ?case
    using x fresh by (simp add: update_fresh_key)
qed

text \<open>
  \<open>loadSamples\<close> on an empty object yields the table; on the table itself it
  changes nothing (each key is overwritten in place with the same value).
\<close>

lemma update_present:
  "map_of m k = Some v \<Longrightarrow> AList.update k v m = m"
  by (induction m) (auto split: if_splits)

lemma load_samples_empty: "load_samples [] = sample_definitions"
  unfolding load_samples_def using sample_definitions_distinct
  by (subst fold_update_fresh) simp_all

lemma load_samples_loaded: "load_samples sample_definitions = sample_definitions"
proof -
  have "fold (\<lambda>(k, v) m. AList.update k v m) xs sample_definitions = sample_definitions"
    if "set xs \<subseteq> set sample_definitions" for xs
    using that
  proof (induction xs)
    case Nil
    then show ?case by simp
  next
    case (Cons x xs)
    obtain k v where x: "x = (k, v)" by (cases x)
    with Cons.prems have "map_of sample_definitions k = Some v"
      using sample_definitions_distinct by (intro map_of_is_SomeI) auto
    with Cons x show ?case by (simp add: update_present)
  qed
  then show ?thesis by (simp add: load_samples_def)
qed

end
