(* ===== verification/SampleGenerator.thy ===== *)
theory SampleGenerator
  imports SoundCatalog
begin

text \<open>
  \<open>src/src/audio/SampleGenerator.js\<close>: the voice synthesizer. A call of
  \<open>play\<close> or \<open>playAtTime\<close> builds one transient voice: an oscillator through a
  biquad filter into an envelope gain node, optionally a noise buffer into the
  same gain node, the gain node connected to the destinations, and both sources
  started and stopped. The model returns the configuration of that voice
  (\<open>voice\<close>), or the exception a Web Audio call throws on the way.
  The noise samples come from \<open>Math.random()\<close> and are not modelled; the noise
  layer records the buffer length and its level and timing.
\<close>

record noise_layer =
  noise_frames :: nat
  noise_level :: real
  noise_start :: real
  noise_stop :: real

record voice =
  voice_osc :: osc_type
  voice_frequency :: real
  frequency_events :: "param_event list"
  envelope :: "param_event list"
  voice_filter :: biquad
  voice_noise :: "noise_layer option"
  outputs :: "node list"
  osc_start :: real
  osc_stop :: real

text \<open>
  \<open>createSynthSamplePlayer(config, baseVolume = 1, destinationNode, reverbSendNode = null)\<close>
  captures its arguments; \<open>play\<close> and \<open>playAtTime\<close> default their own arguments
  to them.
\<close>

record synth_player =
  player_config :: sound_def
  base_volume :: real
  destination_node :: "node option"
  reverb_send_node :: "node option"

definition create_synth_sample_player ::
  "sound_def \<Rightarrow> real \<Rightarrow> node option \<Rightarrow> node option \<Rightarrow> synth_player" where
  "create_synth_sample_player c v d r =
     \<lparr>player_config = c, base_volume = v, destination_node = d, reverb_send_node = r\<rparr>"

text \<open>A JavaScript default parameter: an omitted argument (\<open>None\<close>) takes the default.\<close>

definition js_default :: "'a option \<Rightarrow> 'a \<Rightarrow> 'a" where
  "js_default a d = (case a of None \<Rightarrow> d | Some x \<Rightarrow> x)"

text \<open>
  \<open>createNoiseBuffer(duration)\<close>: \<open>createBuffer(1, sampleRate * duration, sampleRate)\<close>.
  The length argument is an \<open>unsigned long\<close> (truncated, modulo \<open>2^32\<close>), and a
  length of \<open>0\<close> throws \<open>NotSupportedError\<close>.
\<close>

definition create_noise_buffer :: "audio_ctx \<Rightarrow> real \<Rightarrow> js_error + nat" where
  "create_noise_buffer ac d =
     (let buffer_size = nat (js_trunc (real (sample_rate ac) * d) mod 2 ^ 32)
      in if buffer_size = 0 then Inl NotSupportedError else Inr buffer_size)"

text \<open>The filter of a voice, lines 47--58 (and 114--125).\<close>

definition sample_filter :: "sound_def \<Rightarrow> biquad" where
  "sample_filter c =
     (let f = create_biquad\<lparr>bq_type := (case filter_kind c of None \<Rightarrow> Lowpass | Some t \<Rightarrow> t),
                            bq_frequency := js_or (filter_freq c) 20000,
                            bq_q := js_or (filter_q c) 1\<rparr>
      in if filter_kind c = None \<and> 2000 < freq c
           then f\<lparr>bq_type := Highpass, bq_frequency := js_or (filter_freq c) 2000\<rparr>
         else if filter_kind c = None \<and> freq c < 150
           then f\<lparr>bq_type := Lowpass, bq_frequency := js_or (filter_freq c) 800\<rparr>
         else f)"

text \<open>The body of \<open>play(volume, dest, revSend)\<close>, lines 20--86, with \<open>now = currentTime\<close>.\<close>

definition synth_play ::
  "audio_ctx \<Rightarrow> sound_def \<Rightarrow> real \<Rightarrow> node option \<Rightarrow> node option \<Rightarrow> js_error + voice" where
  "synth_play ac config volume dest rev_send =
     (let now = current_time ac;
          attack_time = js_or (attack config) 0.01;
          decay_time = js_or (decay config) 0.1;
          sustain_value = (case sustain config of Some s \<Rightarrow> s * volume * gain config | None \<Rightarrow> 0.01);
          release_time = js_or (release config) 0.1;
          total_duration = js_or (duration config) (attack_time + decay_time + release_time);
          env = [SetValueAtTime 0 now,
                 LinearRampToValueAtTime (volume * gain config) (now + attack_time),
                 LinearRampToValueAtTime sustain_value (now + attack_time + decay_time),
                 LinearRampToValueAtTime 0.0001 (now + total_duration)];
          freq_events = (case sweep config of None \<Rightarrow> []
                         | Some (s, e) \<Rightarrow> [SetValueAtTime s now,
                                          ExponentialRampToValueAtTime e (now + total_duration)])
      in if \<not> list_all event_ok env then Inl RangeError
         else if \<not> list_all event_ok freq_events then Inl RangeError
         else
           (case (if noise config then map_sum id Some (create_noise_buffer ac total_duration)
                  else Inr None) of
              Inl e \<Rightarrow> Inl e
            | Inr nb \<Rightarrow> Inr
                \<lparr>voice_osc = osc config, voice_frequency = freq config,
                 frequency_events = freq_events, envelope = env,
                 voice_filter = sample_filter config,
                 voice_noise = map_option (\<lambda>n. \<lparr>noise_frames = n,
                                               noise_level = js_or (noise_gain config) 0.3,
                                               noise_start = now,
                                               noise_stop = now + total_duration\<rparr>) nb,
                 outputs = (case dest of Some d \<Rightarrow> [d] | None \<Rightarrow> []) @
                           (case rev_send of Some r \<Rightarrow> [r] | None \<Rightarrow> []),
                 osc_start = now, osc_stop = now + total_duration\<rparr>))"

text \<open>
  The body of \<open>playAtTime(time, volume, dest, revSend)\<close>, lines 87--153: the
  source repeats the body of \<open>play\<close> with \<open>now = time\<close>.
\<close>

definition synth_play_at_time ::
  "audio_ctx \<Rightarrow> real \<Rightarrow> sound_def \<Rightarrow> real \<Rightarrow> node option \<Rightarrow> node option \<Rightarrow> js_error + voice" where
  "synth_play_at_time ac time config volume dest rev_send =
     (let now = time;
          attack_time = js_or (attack config) 0.01;
          decay_time = js_or (decay config) 0.1;
          sustain_value = (case sustain config of Some s \<Rightarrow> s * volume * gain config | None \<Rightarrow> 0.01);
          release_time = js_or (release config) 0.1;
          total_duration = js_or (duration config) (attack_time + decay_time + release_time);
          env = [SetValueAtTime 0 now,
                 LinearRampToValueAtTime (volume * gain config) (now + attack_time),
                 LinearRampToValueAtTime sustain_value (now + attack_time + decay_time),
                 LinearRampToValueAtTime 0.0001 (now + total_duration)];
          freq_events = (case sweep config of None \<Rightarrow> []
                         | Some (s, e) \<Rightarrow> [SetValueAtTime s now,
                                          ExponentialRampToValueAtTime e (now + total_duration)])
      in if \<not> list_all event_ok env then Inl RangeError
         else if \<not> list_all event_ok freq_events then Inl RangeError
         else
           (case (if noise config then map_sum id Some (create_noise_buffer ac total_duration)
                  else Inr None) of
              Inl e \<Rightarrow> Inl e
            | Inr nb \<Rightarrow> Inr
                \<lparr>voice_osc = osc config, voice_frequency = freq config,
                 frequency_events = freq_events, envelope = env,
                 voice_filter = sample_filter config,
                 voice_noise = map_option (\<lambda>n. \<lparr>noise_frames = n,
                                               noise_level = js_or (noise_gain config) 0.3,
                                               noise_start = now,
                                               noise_stop = now + total_duration\<rparr>) nb,
                 outputs = (case dest of Some d \<Rightarrow> [d] | None \<Rightarrow> []) @
                           (case rev_send of Some r \<Rightarrow> [r] | None \<Rightarrow> []),
                 osc_start = now, osc_stop = now + total_duration\<rparr>))"

text \<open>\<open>player.play(volume?, dest?, revSend?)\<close> and \<open>player.playAtTime(time, ...)\<close>.\<close>

definition player_play ::
  "audio_ctx \<Rightarrow> synth_player \<Rightarrow> real option \<Rightarrow> node option option \<Rightarrow> node option option
     \<Rightarrow> js_error + voice" where
  "player_play ac p v d r =
     synth_play ac (player_config p) (js_default v (base_volume p))
       (js_default d (destination_node p)) (js_default r (reverb_send_node p))"

definition player_play_at_time ::
  "audio_ctx \<Rightarrow> synth_player \<Rightarrow> real \<Rightarrow> real option \<Rightarrow> node option option \<Rightarrow> node option option
     \<Rightarrow> js_error + voice" where
  "player_play_at_time ac p t v d r =
     synth_play_at_time ac t (player_config p) (js_default v (base_volume p))
       (js_default d (destination_node p)) (js_default r (reverb_send_node p))"

subsection \<open>The quantities of a voice\<close>

text \<open>
  Names for the expressions of lines 25--29 and 31--45, so that lemmas can
  speak of them: the attack, decay and release times with their \<open>||\<close> defaults,
  the total duration, the sustain level, the envelope and the sweep.
\<close>

definition attack_time :: "sound_def \<Rightarrow> real" where "attack_time c = js_or (attack c) 0.01"
definition decay_time :: "sound_def \<Rightarrow> real" where "decay_time c = js_or (decay c) 0.1"
definition release_time :: "sound_def \<Rightarrow> real" where "release_time c = js_or (release c) 0.1"
definition total_duration :: "sound_def \<Rightarrow> real" where
  "total_duration c = js_or (duration c) (attack_time c + decay_time c + release_time c)"
definition sustain_level :: "sound_def \<Rightarrow> real \<Rightarrow> real" where
  "sustain_level c v = (case sustain c of Some s \<Rightarrow> s * v * gain c | None \<Rightarrow> 0.01)"

definition voice_envelope :: "sound_def \<Rightarrow> real \<Rightarrow> real \<Rightarrow> param_event list" where
  "voice_envelope c v t =
     [SetValueAtTime 0 t, LinearRampToValueAtTime (v * gain c) (t + attack_time c),
      LinearRampToValueAtTime (sustain_level c v) (t + attack_time c + decay_time c),
      LinearRampToValueAtTime 0.0001 (t + total_duration c)]"

definition sweep_events :: "sound_def \<Rightarrow> real \<Rightarrow> param_event list" where
  "sweep_events c t = (case sweep c of None \<Rightarrow> []
     | Some (s, e) \<Rightarrow> [SetValueAtTime s t, ExponentialRampToValueAtTime e (t + total_duration c)])"

text \<open>The noise buffer of line 64, when the definition asks for noise.\<close>

definition noise_result :: "audio_ctx \<Rightarrow> sound_def \<Rightarrow> js_error + nat option" where
  "noise_result ac c =
     (if noise c then map_sum id Some (create_noise_buffer ac (total_duration c)) else Inr None)"

text \<open>The voice lines 21--85 build once no call has thrown.\<close>

definition built_voice ::
  "sound_def \<Rightarrow> real \<Rightarrow> real \<Rightarrow> node option \<Rightarrow> node option \<Rightarrow> nat option \<Rightarrow> voice" where
  "built_voice c v t d r nb =
     \<lparr>voice_osc = osc c, voice_frequency = freq c,
      frequency_events = sweep_events c t, envelope = voice_envelope c v t,
      voice_filter = sample_filter c,
      voice_noise = map_option (\<lambda>n. \<lparr>noise_frames = n,
                                    noise_level = js_or (noise_gain c) 0.3,
                                    noise_start = t,
                                    noise_stop = t + total_duration c\<rparr>) nb,
      outputs = (case d of Some x \<Rightarrow> [x] | None \<Rightarrow> []) @ (case r of Some x \<Rightarrow> [x] | None \<Rightarrow> []),
      osc_start = t, osc_stop = t + total_duration c\<rparr>"

text \<open>
  What the table guarantees of each entry: positive attack and decay, a total
  duration longer than attack plus decay and between 0.1 and 1.2 seconds, and a
  sweep between positive frequencies.
\<close>

definition catalog_entry_ok :: "sound_def \<Rightarrow> bool" where
  "catalog_entry_ok c \<longleftrightarrow>
     0 < attack_time c \<and> 0 < decay_time c \<and> attack_time c + decay_time c < total_duration c \<and>
     1 / 10 \<le> total_duration c \<and> total_duration c \<le> 6 / 5 \<and>
     (case sweep c of None \<Rightarrow> True | Some (s, e) \<Rightarrow> 0 < s \<and> 0 < e)"

subsection \<open>Lemmas\<close>

lemma synth_play_at_time_alt:
  "synth_play_at_time ac t c v d r =
     (if \<not> list_all event_ok (voice_envelope c v t) then Inl RangeError
      else if \<not> list_all event_ok (sweep_events c t) then Inl RangeError
      else (case noise_result ac c of
              Inl e \<Rightarrow> Inl e
            | Inr nb \<Rightarrow> Inr (built_voice c v t d r nb)))"
  unfolding synth_play_at_time_def Let_def voice_envelope_def sweep_events_def attack_time_def
    decay_time_def release_time_def total_duration_def sustain_level_def built_voice_def
    noise_result_def
  by simp

lemma noise_result_Inr: "noise_result ac c = Inr nb \<Longrightarrow> (noise c \<longleftrightarrow> nb \<noteq> None)"
  by (auto simp add: noise_result_def split: if_splits sum.splits)

lemma synth_play_at_time_InrE:
  assumes "synth_play_at_time ac t c vol d r = Inr v"
  obtains nb where "v = built_voice c vol t d r nb" and "noise_result ac c = Inr nb"
    and "list_all event_ok (voice_envelope c vol t)" and "list_all event_ok (sweep_events c t)"
  using assms by (auto simp add: synth_play_at_time_alt split: if_splits sum.splits)

lemma synth_play_eq_at_time: "synth_play ac c v d r = synth_play_at_time ac (current_time ac) c v d r"
  unfolding synth_play_def synth_play_at_time_def Let_def by simp

lemma catalog_ok: "list_all (\<lambda>(n, c). catalog_entry_ok c) sample_definitions"
  by (simp add: sample_definitions_def catalog_entry_ok_def sound_entry_def attack_time_def
      decay_time_def total_duration_def release_time_def)


lemma create_noise_buffer_ok:
  assumes "3000 \<le> sample_rate ac" and "sample_rate ac \<le> 768000"
      and "1 / 10 \<le> d" and "d \<le> 6 / 5"
  shows "\<exists>n. create_noise_buffer ac d = Inr n \<and> 300 \<le> n"
proof -
  let ?x = "real (sample_rate ac) * d"
  have lo: "300 \<le> ?x"
  proof -
    have "(3000::real) * (1 / 10) \<le> real (sample_rate ac) * d"
      using assms by (intro mult_mono) simp_all
    then show ?thesis by simp
  qed
  have hi: "?x \<le> 1536000"
  proof -
    have "real (sample_rate ac) * d \<le> 768000 * (6 / 5)"
      using assms by (intro mult_mono) simp_all
    then show ?thesis by simp
  qed
  define k where "k = \<lfloor>?x\<rfloor>"
  have k: "300 \<le> k" "k < 4294967296" using lo hi unfolding k_def by linarith+
  have tr: "js_trunc ?x = k" using lo by (simp add: js_trunc_def k_def)
  have "nat (js_trunc ?x mod 2 ^ 32) = nat k" using k by (simp add: tr)
  moreover have "300 \<le> nat k" using k by simp
  ultimately show ?thesis
    by (simp add: create_noise_buffer_def Let_def)
qed

lemma catalog_entry_plays:
  assumes "catalog_entry_ok c" and "3000 \<le> sample_rate ac" and "sample_rate ac \<le> 768000"
      and "0 \<le> t"
  shows "\<exists>v. synth_play_at_time ac t c vol d r = Inr v"
proof -
  from assms(1) have a: "0 < attack_time c" "0 < decay_time c"
      "attack_time c + decay_time c < total_duration c"
      "1 / 10 \<le> total_duration c" "total_duration c \<le> 6 / 5"
    and sw: "case sweep c of None \<Rightarrow> True | Some (s, e) \<Rightarrow> 0 < s \<and> 0 < e"
    by (simp_all add: catalog_entry_ok_def)
  have env: "list_all event_ok (voice_envelope c vol t)"
    using a assms(4) by (simp add: voice_envelope_def)
  have swp: "list_all event_ok (sweep_events c t)"
    using sw a assms(4) by (auto simp add: sweep_events_def split: option.splits)
  obtain n where "create_noise_buffer ac (total_duration c) = Inr n"
    using create_noise_buffer_ok [OF assms(2,3) a(4,5)] by blast
  then show ?thesis
    using env swp by (simp add: synth_play_at_time_alt noise_result_def)
qed


lemma catalog_lookup_ok:
  "sample_lookup sample_definitions name = Some c \<Longrightarrow> catalog_entry_ok c"
  using catalog_ok by (auto simp add: sample_lookup_def list_all_iff dest!: map_of_SomeD)

subsection \<open>Properties of the synthesizer\<close>

text \<open>
  C18: every sound of the shipped table plays without an exception at any start
  time \<open>t \<ge> 0\<close> in a context whose sample rate is within the Web Audio range
  3000--768000 Hz; its envelope events are at strictly increasing times and the
  voice lasts at most 1.2 seconds.
\<close>

theorem catalog_voice_plays:
  assumes "sample_lookup sample_definitions name = Some c"
      and "3000 \<le> sample_rate ac" and "sample_rate ac \<le> 768000" and "0 \<le> t"
  shows "\<exists>v. synth_play_at_time ac t c vol d r = Inr v \<and>
             sorted_wrt (<) (map event_time (envelope v)) \<and>
             osc_stop v - osc_start v \<le> 6 / 5"
proof -
  have ok: "catalog_entry_ok c" using assms(1) by (rule catalog_lookup_ok)
  obtain v where v: "synth_play_at_time ac t c vol d r = Inr v"
    using catalog_entry_plays [OF ok assms(2-4)] by blast
  then obtain nb where "v = built_voice c vol t d r nb"
    by (rule synth_play_at_time_InrE)
  with ok v show ?thesis
    by (auto simp add: built_voice_def voice_envelope_def catalog_entry_ok_def)
qed

theorem catalog_voice_plays_witness:
  "\<exists>v. synth_play_at_time \<lparr>sample_rate = 44100, current_time = 0\<rparr> 0
         (sound_entry ''drums'' 60 Sine 0.5 0.8 0.005 0.3) 0.8 None None = Inr v \<and>
       sorted_wrt (<) (map event_time (envelope v)) \<and> osc_stop v - osc_start v \<le> 6 / 5"
proof -
  have "sample_lookup sample_definitions ''kick-01'' = Some (sound_entry ''drums'' 60 Sine 0.5 0.8 0.005 0.3)"
    by (simp add: sample_lookup_def sample_definitions_def)
  then show ?thesis
    by (rule catalog_voice_plays) simp_all
qed

text \<open>
  C23: the envelope of a voice that was built: a ramp from 0 to \<open>volume \<times> gain\<close> over
  the attack, to the sustain level (\<open>sustain \<times> volume \<times> gain\<close>, or the floor 0.01
  when the definition has no sustain) over the decay, and to 0.0001 at the stop
  time \<open>t + totalDuration\<close>; the noise layer exists exactly when the definition
  asks for it, shares the oscillator's start and stop times and has the level
  \<open>noiseGain || 0.3\<close>; the envelope output goes to the given destinations.
\<close>

theorem voice_envelope_shape:
  assumes "synth_play_at_time ac t c vol d r = Inr v"
  shows "map event_value (envelope v) =
           [0, vol * gain c, (case sustain c of Some s \<Rightarrow> s * vol * gain c | None \<Rightarrow> 0.01), 0.0001] \<and>
         map event_time (envelope v) =
           [t, t + attack_time c, t + attack_time c + decay_time c, osc_stop v] \<and>
         osc_start v = t \<and> osc_stop v = t + total_duration c \<and>
         (noise c \<longleftrightarrow> voice_noise v \<noteq> None) \<and>
         (\<forall>n. voice_noise v = Some n \<longrightarrow>
               noise_start n = osc_start v \<and> noise_stop n = osc_stop v \<and>
               noise_level n = js_or (noise_gain c) 0.3) \<and>
         set (outputs v) = set_option d \<union> set_option r"
proof -
  obtain nb where v: "v = built_voice c vol t d r nb" and nr: "noise_result ac c = Inr nb"
    using assms by (rule synth_play_at_time_InrE)
  from nr have "noise c \<longleftrightarrow> nb \<noteq> None" by (rule noise_result_Inr)
  with v show ?thesis
    by (auto simp add: built_voice_def voice_envelope_def sustain_level_def split: option.splits)
qed

theorem voice_envelope_shape_witness:
  "\<exists>v. synth_play_at_time \<lparr>sample_rate = 44100, current_time = 0\<rparr> 1
         ((sound_entry ''synths'' 80 Square 0.8 0.7 0.01 0.5)\<lparr>sustain := Some 0.6\<rparr>) 1 None None = Inr v \<and>
       map event_value (envelope v) = [0, 0.7, 0.42, 0.0001] \<and>
       map event_time (envelope v) = [1, 1.01, 1.51, 1.8]"
proof -
  let ?c = "(sound_entry ''synths'' 80 Square 0.8 0.7 0.01 0.5)\<lparr>sustain := Some 0.6\<rparr>"
  let ?ac = "\<lparr>sample_rate = 44100, current_time = 0\<rparr> :: audio_ctx"
  have "catalog_entry_ok ?c"
    by (simp add: catalog_entry_ok_def sound_entry_def attack_time_def decay_time_def
        total_duration_def release_time_def)
  then obtain v where v: "synth_play_at_time ?ac 1 ?c 1 None None = Inr v"
    using catalog_entry_plays [of ?c ?ac 1 1 None None] by auto
  from voice_envelope_shape [OF v] show ?thesis
    using v by (simp add: sound_entry_def attack_time_def decay_time_def total_duration_def)
qed

text \<open>
  C24: a definition without a filter override gets the frequency-dependent
  default filter: highpass at 2000 Hz above 2000 Hz, lowpass at 800 Hz below
  150 Hz, lowpass at 20000 Hz otherwise, with Q \<open>filterQ || 1\<close>.
\<close>

theorem default_filter_choice:
  assumes "filter_kind c = None" and "filter_freq c = None"
  shows "(bq_type (sample_filter c), bq_frequency (sample_filter c)) =
           (if 2000 < freq c then (Highpass, 2000)
            else if freq c < 150 then (Lowpass, 800) else (Lowpass, 20000)) \<and>
         bq_q (sample_filter c) = js_or (filter_q c) 1"
  using assms by (simp add: sample_filter_def Let_def)

theorem default_filter_choice_witness:
  "(bq_type (sample_filter (sound_entry ''drums'' 60 Sine 0.5 0.8 0.005 0.3)),
    bq_frequency (sample_filter (sound_entry ''drums'' 60 Sine 0.5 0.8 0.005 0.3))) = (Lowpass, 800) \<and>
   bq_q (sample_filter (sound_entry ''drums'' 60 Sine 0.5 0.8 0.005 0.3)) = 1"
  using default_filter_choice [of "sound_entry ''drums'' 60 Sine 0.5 0.8 0.005 0.3"]
  by (simp add: sound_entry_def)

text \<open>
  C29: the two copies of the voice body agree: \<open>play\<close> is \<open>playAtTime\<close> at the
  context's current time, defaults included.
\<close>

theorem play_matches_play_at_time:
  "player_play ac p v d r = player_play_at_time ac p (current_time ac) v d r"
  by (simp add: player_play_def player_play_at_time_def synth_play_eq_at_time)

end
