(* ===== verification/AudioEngine.thy ===== *)
theory AudioEngine
  imports MixBus SampleGenerator
begin

text \<open>
  The state of \<open>AudioEngine\<close> (\<open>src/audio-engine.js\<close>) and its operations other
  than the clock and the export. The record holds the fields of the class; three
  host fields stand for what the browser keeps on the engine's behalf: the live
  audio graph (\<open>live_edges\<close>, every \<open>connect\<close> made), the active interval timers
  (\<open>timers\<close>, with the next id \<open>setInterval\<close> hands out) and what the engine
  produced (\<open>out\<close>: voices started and step-advance notifications). A \<open>null\<close>
  field is \<open>None\<close>; a method called on a \<open>null\<close> node throws \<open>TypeError\<close>.
\<close>

datatype engine_output = VoiceStarted voice | StepAdvance nat

record engine =
  audio_context :: "audio_ctx option"
  master :: "master_chain option"
  impulse_response_buffer :: "impulse_response option"
  tracks :: "track list"
  is_playing :: bool
  bpm :: int
  current_step :: nat
  global_step_count :: nat
  interval_id :: "nat option"
  samples :: catalog
  is_recording :: bool
  recorded_buffer :: "real list"
  on_step_play :: bool
  live_edges :: "edge list"
  timers :: "(nat \<times> int) list"
  next_timer_id :: nat
  out :: "engine_output list"

text \<open>\<open>new AudioEngine()\<close>, lines 7--31; browsers hand out interval ids from 1.\<close>

definition new_engine :: engine where
  "new_engine =
     \<lparr>audio_context = None, master = None, impulse_response_buffer = None, tracks = [],
      is_playing = False, bpm = 120, current_step = 0, global_step_count = 16,
      interval_id = None, samples = [], is_recording = False, recorded_buffer = [],
      on_step_play = False, live_edges = [], timers = [], next_timer_id = 1, out = []\<rparr>"

subsection \<open>Initialisation\<close>

definition default_sounds :: "string list" where
  "default_sounds = [''kick-01'', ''snare-01'', ''hihat-01'', ''bass-01'']"

definition default_track_config :: "nat \<Rightarrow> nat \<Rightarrow> track_config" where
  "default_track_config steps_n i =
     \<lparr>cfg_sound = default_sounds ! i, cfg_volume = 0.8, cfg_pan = 0, cfg_reverb_amount = 0,
      cfg_eq_low = 0, cfg_eq_high = 0, cfg_step_count = steps_n\<rparr>"

text \<open>
  The loop of \<open>setupTracks\<close>, lines 91--108, from iteration \<open>i\<close> with \<open>k\<close>
  iterations left. The new track is the next element of \<open>this.tracks\<close>, so its
  nodes are those of \<open>LiveTrack (length (tracks e))\<close>.
\<close>

fun setup_tracks_loop :: "nat \<Rightarrow> nat \<Rightarrow> engine \<Rightarrow> engine js_result" where
  "setup_tracks_loop i 0 e = Inr e"
| "setup_tracks_loop i (Suc k) e =
     (case new_track (default_track_config (global_step_count e) i) of
        Inl err \<Rightarrow> Inl (err, e)
      | Inr t \<Rightarrow>
          setup_tracks_loop (Suc i) k
            (e\<lparr>live_edges := live_edges e @ track_chain_edges (LiveTrack (length (tracks e))) @
                             live_track_bus_edges (length (tracks e)),
               tracks := tracks e @ [t]\<rparr>))"

definition setup_tracks :: "engine \<Rightarrow> engine js_result" where
  "setup_tracks e = setup_tracks_loop 0 4 e"

text \<open>
  \<open>init()\<close>, lines 33--73. The environment decides whether the audio context can
  be created and whether the impulse response loads (\<open>None\<close>: the constructor
  throws, or the fetch or the decoding rejects). Every exception is caught and
  logged: the engine keeps whatever was assigned before it. A failed load thus
  skips both the convolver assignment and \<open>setupTracks\<close>.
\<close>

definition init :: "audio_ctx option \<Rightarrow> impulse_response option \<Rightarrow> engine \<Rightarrow> engine" where
  "init ac_opt ir e =
     (case ac_opt of
        None \<Rightarrow> e
      | Some ac \<Rightarrow>
          (let e1 = e\<lparr>audio_context := Some ac, master := Some init_master_chain,
                      live_edges := live_edges e @ master_chain_edges LiveCtx @ reverb_return_edges LiveCtx,
                      samples := load_samples (samples e)\<rparr>
           in case ir of
                None \<Rightarrow> e1
              | Some b \<Rightarrow>
                  js_state (setup_tracks
                    (e1\<lparr>impulse_response_buffer := Some b,
                        master := Some (init_master_chain\<lparr>convolver_buffer := Some b\<rparr>)\<rparr>))))"

subsection \<open>Master and track setters\<close>

text \<open>\<open>setMasterVolume\<close>, \<open>setMasterReverbWetness\<close>, \<open>setMasterEqLow\<close>, \<open>setMasterEqHigh\<close>, lines 119--133.\<close>

definition update_master :: "(master_chain \<Rightarrow> master_chain) \<Rightarrow> engine \<Rightarrow> engine js_result" where
  "update_master f e =
     (case master e of None \<Rightarrow> Inl (TypeError, e) | Some m \<Rightarrow> Inr (e\<lparr>master := Some (f m)\<rparr>))"

definition set_master_volume :: "real \<Rightarrow> engine \<Rightarrow> engine js_result" where
  "set_master_volume v = update_master (\<lambda>m. m\<lparr>master_gain := v\<rparr>)"

definition set_master_reverb_wetness :: "real \<Rightarrow> engine \<Rightarrow> engine js_result" where
  "set_master_reverb_wetness v = update_master (\<lambda>m. m\<lparr>reverb_gain := v\<rparr>)"

definition set_master_eq_low :: "real \<Rightarrow> engine \<Rightarrow> engine js_result" where
  "set_master_eq_low v = update_master (\<lambda>m. m\<lparr>master_eq_low := (master_eq_low m)\<lparr>bq_gain := v\<rparr>\<rparr>)"

definition set_master_eq_high :: "real \<Rightarrow> engine \<Rightarrow> engine js_result" where
  "set_master_eq_high v = update_master (\<lambda>m. m\<lparr>master_eq_high := (master_eq_high m)\<lparr>bq_gain := v\<rparr>\<rparr>)"

text \<open>
  \<open>if (this.tracks[trackIndex]) this.tracks[trackIndex].setX(value)\<close>, lines 135--169
  and 223--227: an index without a track is ignored.
\<close>

definition update_track :: "nat \<Rightarrow> (track \<Rightarrow> track) \<Rightarrow> engine \<Rightarrow> engine" where
  "update_track i f e =
     (if i < length (tracks e) then e\<lparr>tracks := (tracks e)[i := f (tracks e ! i)]\<rparr> else e)"

definition set_track_volume :: "nat \<Rightarrow> real \<Rightarrow> engine \<Rightarrow> engine" where
  "set_track_volume i v = update_track i (set_volume v)"

definition set_track_pan :: "nat \<Rightarrow> real \<Rightarrow> engine \<Rightarrow> engine" where
  "set_track_pan i v = update_track i (set_pan v)"

definition set_track_reverb_amount :: "nat \<Rightarrow> real \<Rightarrow> engine \<Rightarrow> engine" where
  "set_track_reverb_amount i v = update_track i (set_reverb_amount v)"

definition set_track_eq_low :: "nat \<Rightarrow> real \<Rightarrow> engine \<Rightarrow> engine" where
  "set_track_eq_low i v = update_track i (set_eq_low v)"

definition set_track_eq_high :: "nat \<Rightarrow> real \<Rightarrow> engine \<Rightarrow> engine" where
  "set_track_eq_high i v = update_track i (set_eq_high v)"

definition set_track_sound :: "nat \<Rightarrow> string \<Rightarrow> engine \<Rightarrow> engine" where
  "set_track_sound i name = update_track i (\<lambda>t. t\<lparr>sound := name\<rparr>)"

definition set_track_step_count :: "nat \<Rightarrow> nat \<Rightarrow> engine \<Rightarrow> engine js_result" where
  "set_track_step_count i n e =
     (if i < length (tracks e) then
        (case set_step_count n (tracks e ! i) of
           Inl (err, t) \<Rightarrow> Inl (err, e\<lparr>tracks := (tracks e)[i := t]\<rparr>)
         | Inr t \<Rightarrow> Inr (e\<lparr>tracks := (tracks e)[i := t]\<rparr>))
      else Inr e)"

subsection \<open>Pattern edits, audition, recording\<close>

text \<open>\<open>toggleStep(trackIndex, stepLocal)\<close>, lines 215--221: the new state and the value returned.\<close>

definition toggle_step :: "nat \<Rightarrow> nat \<Rightarrow> engine \<Rightarrow> engine \<times> bool" where
  "toggle_step ti sl e =
     (if ti < length (tracks e) \<and> sl < step_count (tracks e ! ti) then
        (let t = tracks e ! ti;
             t' = t\<lparr>steps := js_set_bool (steps t) sl (\<not> js_get_bool (steps t) sl)\<rparr>
         in (e\<lparr>tracks := (tracks e)[ti := t']\<rparr>, js_get_bool (steps t') sl))
      else (e, False))"

text \<open>\<open>clearAll()\<close>, lines 242--246: \<open>steps.fill(false)\<close> keeps each pattern's length.\<close>

definition clear_all :: "engine \<Rightarrow> engine" where
  "clear_all e = e\<lparr>tracks := map (\<lambda>t. t\<lparr>steps := replicate (length (steps t)) False\<rparr>) (tracks e)\<rparr>"

text \<open>
  \<open>playSound(soundName)\<close>, lines 229--240: one voice at full volume straight into
  the master input (no destination if the master bus was never built), with no
  reverb send; \<open>now\<close> is the context's current time.
\<close>

definition play_sound :: "string \<Rightarrow> real \<Rightarrow> engine \<Rightarrow> engine js_result" where
  "play_sound name now e =
     (case sample_lookup (samples e) name of
        None \<Rightarrow> Inr e
      | Some cfg \<Rightarrow>
          (case audio_context e of
             None \<Rightarrow> Inl (TypeError, e)
           | Some ac \<Rightarrow>
               (let dest = (if master e = None then None else Some (MasterInput LiveCtx))
                in case player_play (ac\<lparr>current_time := now\<rparr>) (create_synth_sample_player cfg 1 dest None)
                          (Some 1) (Some dest) None of
                     Inl err \<Rightarrow> Inl (err, e)
                   | Inr v \<Rightarrow> Inr (e\<lparr>out := out e @ [VoiceStarted v]\<rparr>))))"

definition start_recording :: "engine \<Rightarrow> engine" where
  "start_recording e = e\<lparr>is_recording := True, recorded_buffer := []\<rparr>"

definition stop_recording :: "engine \<Rightarrow> engine \<times> real list" where
  "stop_recording e = (e\<lparr>is_recording := False\<rparr>, recorded_buffer e)"

end
