(* ===== verification/SequencerView.thy ===== *)
theory SequencerView
  imports JsString AudioEngine
begin

text \<open>
  The two renderers of the user interface, \<open>src/src/ui/SequencerRenderer.js\<close>
  and \<open>src/src/ui/MixerRenderer.js\<close>. The DOM they build is modelled as
  data: a track row (\<open>.track-row\<close>) with its two selectors and its step
  buttons grouped in measures, and a mixer channel with its five range inputs.
  \<open>data-*\<close> attributes are strings, as in the DOM. The row, its two
  selectors and its \<open>.step-buttons\<close> container all carry the same
  \<open>data-track\<close>, which the model keeps once per row (\<open>row_track\<close>). A
  step button also records the track index its click listener captured
  (\<open>sb_listener\<close>, \<open>None\<close> while it has none). Styling and layout are not
  modelled. The lemmas show that the measures of \<open>renderTrackSteps\<close> lay out
  the steps \<open>0 .. stepCount - 1\<close> in order, four to a measure, and that every
  attribute reads back as the number written into it.
\<close>

record step_button =
  sb_track :: string
  sb_step :: string
  sb_label :: string
  sb_active :: bool
  sb_playing :: bool
  sb_listener :: "int option"

record select_option =
  opt_value :: string
  opt_label :: string
  opt_selected :: bool

record track_row =
  row_track :: string
  row_title :: string
  sound_options :: "select_option list"
  step_options :: "select_option list"
  step_groups :: "step_button list list"

subsection \<open>\<open>SequencerRenderer.render(tracksData, allSounds)\<close>\<close>

text \<open>Lines 12--17: one option per sound, selected when it is the track's sound.\<close>

definition sound_option :: "track \<Rightarrow> string \<Rightarrow> select_option" where
  "sound_option t s = \<lparr>opt_value = s, opt_label = display_name s, opt_selected = (s = sound t)\<rparr>"

text \<open>Lines 20--23: the step-count choices 4, 8 and 16.\<close>

definition step_count_option :: "track \<Rightarrow> nat \<Rightarrow> select_option" where
  "step_count_option t c =
     \<lparr>opt_value = string_of_nat c, opt_label = string_of_nat c @ '' Steps'',
      opt_selected = (c = step_count t)\<rparr>"

text \<open>Lines 7--38: the row of track \<open>i\<close>; its step buttons are added by the controller.\<close>

definition track_row_of :: "string list \<Rightarrow> nat \<Rightarrow> track \<Rightarrow> track_row" where
  "track_row_of sounds i t =
     \<lparr>row_track = string_of_nat i, row_title = ''TRACK '' @ string_of_nat (i + 1),
      sound_options = map (sound_option t) sounds,
      step_options = map (step_count_option t) [4, 8, 16], step_groups = []\<rparr>"

text \<open>The \<open>forEach\<close> of lines 6--40 from index \<open>i\<close>; the grid is cleared first.\<close>

fun render_rows :: "string list \<Rightarrow> nat \<Rightarrow> track list \<Rightarrow> track_row list" where
  "render_rows sounds i [] = []"
| "render_rows sounds i (t # ts) = track_row_of sounds i t # render_rows sounds (Suc i) ts"

definition sequencer_render :: "track list \<Rightarrow> string list \<Rightarrow> track_row list" where
  "sequencer_render tracks_data all_sounds = render_rows all_sounds 0 tracks_data"

subsection \<open>\<open>SequencerRenderer.renderTrackSteps(trackIndex, stepCount, stepsActiveState)\<close>\<close>

text \<open>
  The inner loop of lines 56--72 for measure \<open>m\<close> from \<open>stepInMeasure = s\<close> with
  \<open>k\<close> iterations left; it breaks at the first index \<open>\<ge> stepCount\<close>.
\<close>

fun measure_buttons :: "nat \<Rightarrow> nat \<Rightarrow> bool list \<Rightarrow> nat \<Rightarrow> nat \<Rightarrow> nat \<Rightarrow> step_button list" where
  "measure_buttons ti n st m s 0 = []"
| "measure_buttons ti n st m s (Suc k) =
     (let idx = m * 4 + s
      in if n \<le> idx then []
         else \<lparr>sb_track = string_of_nat ti, sb_step = string_of_nat idx, sb_label = string_of_nat (s + 1),
               sb_active = js_get_bool st idx, sb_playing = False, sb_listener = None\<rparr> # measure_buttons ti n st m (Suc s) k)"

text \<open>The outer loop of lines 52--74 from measure \<open>m\<close> with \<open>k\<close> measures left.\<close>

fun measure_groups :: "nat \<Rightarrow> nat \<Rightarrow> bool list \<Rightarrow> nat \<Rightarrow> nat \<Rightarrow> step_button list list" where
  "measure_groups ti n st m 0 = []"
| "measure_groups ti n st m (Suc k) = measure_buttons ti n st m 0 4 # measure_groups ti n st (Suc m) k"

text \<open>\<open>Math.ceil(stepCount / 4)\<close> measures, line 50.\<close>

definition step_groups_of :: "nat \<Rightarrow> nat \<Rightarrow> bool list \<Rightarrow> step_button list list" where
  "step_groups_of ti n st = measure_groups ti n st 0 ((n + 3) div 4)"

text \<open>\<open>document.querySelector(...)\<close>: the position of the first row with that \<open>data-track\<close>.\<close>

fun row_position :: "string \<Rightarrow> track_row list \<Rightarrow> nat option" where
  "row_position key [] = None"
| "row_position key (r # rs) =
     (if row_track r = key then Some 0 else map_option Suc (row_position key rs))"

text \<open>Lines 44--75: the container is emptied and refilled; no container, no change.\<close>

definition render_track_steps :: "nat \<Rightarrow> nat \<Rightarrow> bool list \<Rightarrow> track_row list \<Rightarrow> track_row list" where
  "render_track_steps ti n st rows =
     (case row_position (string_of_nat ti) rows of
        None \<Rightarrow> rows
      | Some j \<Rightarrow> rows[j := (rows ! j)\<lparr>step_groups := step_groups_of ti n st\<rparr>])"

subsection \<open>\<open>MixerRenderer.render(numTracks)\<close>\<close>

text \<open>An \<open><input type="range">\<close>: its id, \<open>data-control\<close>, bounds, step and value.\<close>

record range_input =
  ri_id :: string
  ri_control :: string
  ri_min :: real
  ri_max :: real
  ri_step :: real
  ri_value :: real

record mixer_channel =
  ch_track :: string
  ch_title :: string
  ch_inputs :: "range_input list"

text \<open>Lines 10--32: the five controls of channel \<open>i\<close> with their HTML attributes.\<close>

definition channel_inputs :: "nat \<Rightarrow> range_input list" where
  "channel_inputs i =
     (let si = string_of_nat i
      in [\<lparr>ri_id = ''vol-'' @ si, ri_control = ''volume'', ri_min = 0, ri_max = 1, ri_step = 0.01, ri_value = 0.8\<rparr>,
          \<lparr>ri_id = ''pan-'' @ si, ri_control = ''pan'', ri_min = -1, ri_max = 1, ri_step = 0.01, ri_value = 0\<rparr>,
          \<lparr>ri_id = ''rev-'' @ si, ri_control = ''reverb'', ri_min = 0, ri_max = 1, ri_step = 0.01, ri_value = 0\<rparr>,
          \<lparr>ri_id = ''eqlow-'' @ si, ri_control = ''eqlow'', ri_min = -12, ri_max = 12, ri_step = 0.1, ri_value = 0\<rparr>,
          \<lparr>ri_id = ''eqhigh-'' @ si, ri_control = ''eqhigh'', ri_min = -12, ri_max = 12, ri_step = 0.1, ri_value = 0\<rparr>])"

text \<open>Lines 2--35: the mixer section is cleared and gets one channel per track.\<close>

definition mixer_render :: "nat \<Rightarrow> mixer_channel list" where
  "mixer_render num_tracks =
     map (\<lambda>i. \<lparr>ch_track = string_of_nat i, ch_title = ''TRACK '' @ string_of_nat (i + 1),
               ch_inputs = channel_inputs i\<rparr>) [0..<num_tracks]"

text \<open>
  The value a range input takes when the user moves it to \<open>v\<close> (HTML value
  sanitization): clamped to \<open>[min, max]\<close>, then the nearest value
  \<open>min + k * step\<close>, the larger one on a tie, and not above \<open>max\<close>.
\<close>

definition range_value :: "range_input \<Rightarrow> real \<Rightarrow> real" where
  "range_value ri v =
     (let c = min (ri_max ri) (max (ri_min ri) v);
          r = ri_min ri + of_int \<lfloor>(c - ri_min ri) / ri_step ri + 1 / 2\<rfloor> * ri_step ri
      in if ri_max ri < r then r - ri_step ri else r)"


subsection \<open>Layout of the step buttons\<close>

text \<open>The button of step \<open>idx\<close> as the loop of \<open>renderTrackSteps\<close> builds it.\<close>

definition step_button_ref :: "nat \<Rightarrow> bool list \<Rightarrow> nat \<Rightarrow> step_button" where
  "step_button_ref ti st idx =
     \<lparr>sb_track = string_of_nat ti, sb_step = string_of_nat idx, sb_label = string_of_nat (idx mod 4 + 1),
      sb_active = js_get_bool st idx, sb_playing = False, sb_listener = None\<rparr>"

lemma measure_buttons_ref:
  "s + k \<le> 4 \<Longrightarrow>
     measure_buttons ti n st m s k = map (step_button_ref ti st) [m * 4 + s..<min n (m * 4 + s + k)]"
proof (induction k arbitrary: s)
  case 0
  then show ?case by simp
next
  case (Suc k)
  show ?case
  proof (cases "n \<le> m * 4 + s")
    case True
    then show ?thesis by simp
  next
    case False
    have "measure_buttons ti n st m (Suc s) k = map (step_button_ref ti st) [m * 4 + Suc s..<min n (m * 4 + Suc s + k)]"
      using Suc by simp
    moreover have "[m * 4 + s..<min n (m * 4 + s + Suc k)] = (m * 4 + s) # [m * 4 + Suc s..<min n (m * 4 + Suc s + k)]"
      using False by (simp add: upt_conv_Cons min_def)
    moreover have "(m * 4 + s) mod 4 = s" using Suc.prems by simp
    ultimately show ?thesis using False by (simp add: step_button_ref_def Let_def)
  qed
qed

lemma measure_groups_ref:
  "measure_groups ti n st m k = map (\<lambda>m'. map (step_button_ref ti st) [m' * 4..<min n (m' * 4 + 4)]) [m..<m + k]"
proof (induction k arbitrary: m)
  case 0
  then show ?case by simp
next
  case (Suc k)
  have u: "[m..<Suc (m + k)] = m # [Suc m..<Suc (m + k)]" by (simp add: upt_conv_Cons del: upt_Suc)
  show ?case using Suc [of "Suc m"] measure_buttons_ref [of 0 4 ti n st m] by (simp add: u del: upt_Suc)
qed

lemma step_groups_of_ref:
  "step_groups_of ti n st = map (\<lambda>m. map (step_button_ref ti st) [m * 4..<min n (m * 4 + 4)]) [0..<(n + 3) div 4]"
  by (simp add: step_groups_of_def measure_groups_ref)

lemma upt_split: "a \<le> b \<Longrightarrow> b \<le> c \<Longrightarrow> [a..<c] = [a..<b] @ [b..<c]"
  using upt_add_eq_append [of a b "c - b"] by simp

lemma concat_measures:
  "concat (map (\<lambda>m. [m * 4..<min n (m * 4 + 4)]) [0..<k]) = [0..<min n (k * 4)]"
proof (induction k)
  case 0
  then show ?case by simp
next
  case (Suc k)
  have "[0..<min n (k * 4)] @ [k * 4..<min n (k * 4 + 4)] = [0..<min n (Suc k * 4)]"
  proof (cases "n \<le> k * 4")
    case True
    then show ?thesis by (simp add: min_def)
  next
    case False
    then have "[0..<min n (k * 4 + 4)] = [0..<k * 4] @ [k * 4..<min n (k * 4 + 4)]"
      by (intro upt_split) simp_all
    with False show ?thesis by (simp add: min_def add.commute)
  qed
  with Suc show ?case by simp
qed

lemma concat_step_groups: "concat (step_groups_of ti n st) = map (step_button_ref ti st) [0..<n]"
proof -
  let ?K = "(n + 3) div 4"
  have k: "min n (?K * 4) = n" by (simp add: min_def)
  have "concat (step_groups_of ti n st) =
          map (step_button_ref ti st) (concat (map (\<lambda>m. [m * 4..<min n (m * 4 + 4)]) [0..<?K]))"
    by (simp add: step_groups_of_ref map_concat comp_def)
  also have "\<dots> = map (step_button_ref ti st) [0..<n]" by (simp only: concat_measures k)
  finally show ?thesis .
qed

text \<open>The button in measure \<open>gi\<close> at position \<open>bi\<close> is the button of step \<open>4 gi + bi\<close>.\<close>

lemma step_groups_of_nth:
  assumes "gi < length (step_groups_of ti n st)" and "bi < length (step_groups_of ti n st ! gi)"
  shows "step_groups_of ti n st ! gi ! bi = step_button_ref ti st (gi * 4 + bi) \<and> gi * 4 + bi < n"
proof -
  have "bi < min n (gi * 4 + 4) - gi * 4" using assms by (simp add: step_groups_of_ref)
  then have "gi * 4 + bi < min n (gi * 4 + 4)" by linarith
  with assms show ?thesis by (simp add: step_groups_of_ref)
qed

lemma string_of_nat_inj [dest]: "string_of_nat a = string_of_nat b \<Longrightarrow> a = b"
  by (metis parse_int_string_of_nat of_nat_eq_iff option.inject)

text \<open>The value a range input takes stays within its bounds.\<close>

lemma range_value_bounds:
  assumes lohi: "ri_min ri \<le> ri_max ri" and s0: "0 < ri_step ri"
  shows "ri_min ri \<le> range_value ri v \<and> range_value ri v \<le> ri_max ri"
proof -
  define lo hi s where "lo = ri_min ri" and "hi = ri_max ri" and "s = ri_step ri"
  define c where "c = min hi (max lo v)"
  define f where "f = \<lfloor>(c - lo) / s + 1 / 2\<rfloor>"
  define r where "r = lo + of_int f * s"
  have s: "0 < s" and c1: "lo \<le> c" and c2: "c \<le> hi" using lohi s0 by (auto simp add: s_def lo_def hi_def c_def)
  have "0 \<le> (c - lo) / s + 1 / 2" using c1 s by simp
  then have f0: "0 \<le> f" by (simp add: f_def)
  have "of_int f \<le> (c - lo) / s + 1 / 2" unfolding f_def by (rule of_int_floor_le)
  then have "of_int f * s \<le> ((c - lo) / s + 1 / 2) * s" using s by (rule mult_right_mono [OF _ less_imp_le])
  also have "\<dots> = c - lo + s / 2" using s by (simp add: field_simps)
  finally have rc: "r \<le> c + s / 2" by (simp add: r_def)
  have rlo: "lo \<le> r" using f0 s by (simp add: r_def)
  have val: "range_value ri v = (if hi < r then r - s else r)"
    by (simp add: range_value_def Let_def lo_def hi_def s_def c_def f_def r_def)
  show ?thesis
  proof (cases "hi < r")
    case True
    have "f \<noteq> 0" using True c1 c2 by (auto simp add: r_def)
    with f0 have "1 \<le> f" by simp
    then have "s \<le> of_int f * s" using s by simp
    then have "lo \<le> r - s" by (simp add: r_def)
    moreover have "r - s \<le> hi" using rc c2 s by simp
    ultimately show ?thesis using True val by (simp add: lo_def hi_def)
  next
    case False
    with rlo val show ?thesis by (simp add: lo_def hi_def)
  qed
qed

lemma step_groups_of_sizes: "list_all (\<lambda>g. 0 < length g \<and> length g \<le> 4) (step_groups_of ti n st)"
  by (auto simp add: step_groups_of_ref list_all_iff)

lemma channel_inputs_attrs:
  "map ri_control (channel_inputs i) = [''volume'', ''pan'', ''reverb'', ''eqlow'', ''eqhigh''] \<and>
   list_all (\<lambda>ri. ri_min ri \<le> ri_value ri \<and> ri_value ri \<le> ri_max ri \<and> 0 < ri_step ri \<and>
                  range_value ri (ri_value ri) = ri_value ri) (channel_inputs i)"
  by (simp add: channel_inputs_def Let_def range_value_def)

subsection \<open>Properties of the renderers\<close>

text \<open>
  C37: \<open>renderTrackSteps\<close> lays out the steps \<open>0 .. stepCount - 1\<close> in order,
  each button the one its loop builds for that index, in
  \<open>ceil(stepCount / 4)\<close> measures of one to four buttons.
\<close>

theorem step_groups_layout:
  "concat (step_groups_of ti n st) = map (step_button_ref ti st) [0..<n] \<and>
   length (step_groups_of ti n st) = (n + 3) div 4 \<and>
   list_all (\<lambda>g. 0 < length g \<and> length g \<le> 4) (step_groups_of ti n st)"
  using concat_step_groups step_groups_of_sizes by (simp add: step_groups_of_ref)


text \<open>
  C39: \<open>MixerRenderer.render(n)\<close> builds \<open>n\<close> channels whose \<open>data-track\<close>
  reads back as their index, each with the volume, pan, reverb, low and high
  EQ inputs in that order; every input's initial value is within its bounds,
  its step is positive, and sanitizing the initial value leaves it unchanged.
\<close>

theorem mixer_render_channels:
  "map (\<lambda>ch. parse_int (ch_track ch)) (mixer_render n) = map (\<lambda>i. Some (int i)) [0..<n] \<and>
   list_all (\<lambda>ch. map ri_control (ch_inputs ch) = [''volume'', ''pan'', ''reverb'', ''eqlow'', ''eqhigh''] \<and>
     list_all (\<lambda>ri. ri_min ri \<le> ri_value ri \<and> ri_value ri \<le> ri_max ri \<and> 0 < ri_step ri \<and>
                    range_value ri (ri_value ri) = ri_value ri) (ch_inputs ch)) (mixer_render n)"
  using channel_inputs_attrs
  by (simp add: mixer_render_def parse_int_string_of_nat list_all_iff del: string_of_nat_small)

end
