(* ===== verification/Clock.thy ===== *)
theory Clock
  imports AudioEngine
begin

text \<open>
  The step sequencer of \<open>src/audio-engine.js\<close>: \<open>play\<close>, \<open>stop\<close>, \<open>setBPM\<close>,
  \<open>playStep\<close> and the interval callback, lines 111--117 and 171--213. The
  browser's timer is part of the state (\<open>timers\<close>): \<open>setInterval\<close> registers a
  timer under a fresh id, \<open>clearInterval\<close> removes it, and the callback of an
  active timer can run at any moment between other events. All events run on
  one thread, one after the other, so the whole program is a step relation over
  \<open>engine_op\<close>: any operation of the public interface, or the callback of an
  active timer.
\<close>

text \<open>
  The delay \<open>setInterval\<close> receives: \<open>(60 / bpm) * 1000 / 4\<close> milliseconds,
  converted to a WebIDL \<open>long\<close> (truncated) and raised to 0 when negative.
  For \<open>bpm = 0\<close> the duration is \<open>Infinity\<close>, which converts to 0.
\<close>

definition interval_delay :: "int \<Rightarrow> int" where
  "interval_delay b = (if b = 0 then 0 else max 0 (js_trunc (60 / real_of_int b * 1000 / 4)))"

text \<open>\<open>if (this.intervalId)\<close>: a timer id is truthy when it is not \<open>null\<close> and not 0.\<close>

definition id_truthy :: "nat option \<Rightarrow> bool" where
  "id_truthy x = (case x of None \<Rightarrow> False | Some n \<Rightarrow> n \<noteq> 0)"

text \<open>\<open>play()\<close>, lines 171--184.\<close>

definition play :: "engine \<Rightarrow> engine" where
  "play e =
     (if is_playing e then e
      else (let tid = next_timer_id e
            in e\<lparr>is_playing := True, current_step := 0,
                 interval_id := Some tid,
                 timers := timers e @ [(tid, interval_delay (bpm e))],
                 next_timer_id := Suc tid\<rparr>))"

text \<open>\<open>stop()\<close>, lines 186--193.\<close>

definition stop :: "engine \<Rightarrow> engine" where
  "stop e =
     (let e1 = e\<lparr>is_playing := False\<rparr>;
          e2 = (if id_truthy (interval_id e1)
                then e1\<lparr>timers := filter (\<lambda>(i, d). Some i \<noteq> interval_id e1) (timers e1),
                        interval_id := None\<rparr>
                else e1)
      in e2\<lparr>current_step := 0\<rparr>)"

text \<open>\<open>setBPM(bpm)\<close>, lines 111--117.\<close>

definition set_bpm :: "int \<Rightarrow> engine \<Rightarrow> engine" where
  "set_bpm b e = (let e1 = e\<lparr>bpm := b\<rparr> in if is_playing e1 then play (stop e1) else e1)"

text \<open>
  \<open>track.steps[this.currentStep % track.stepCount]\<close>: a step count of 0 gives the
  index \<open>NaN\<close>, whose entry is \<open>undefined\<close>.
\<close>

definition track_step_active :: "nat \<Rightarrow> track \<Rightarrow> bool" where
  "track_step_active g t \<longleftrightarrow> step_count t \<noteq> 0 \<and> js_get_bool (steps t) (g mod step_count t)"

text \<open>
  The \<open>forEach\<close> of \<open>playStep\<close>, lines 196--209, from track \<open>i\<close> on: the voices
  started so far, or the exception of a voice with the voices started before it.
\<close>

fun play_step_tracks ::
  "audio_ctx option \<Rightarrow> catalog \<Rightarrow> nat \<Rightarrow> nat \<Rightarrow> track list \<Rightarrow> engine_output list
     \<Rightarrow> engine_output list js_result" where
  "play_step_tracks ac smp g i [] acc = Inr acc"
| "play_step_tracks ac smp g i (t # ts) acc =
     (if track_step_active g t then
        (case sample_lookup smp (sound t) of
           None \<Rightarrow> play_step_tracks ac smp g (Suc i) ts acc
         | Some cfg \<Rightarrow>
             (case ac of
                None \<Rightarrow> Inl (TypeError, acc)
              | Some c \<Rightarrow>
                  (case player_play c
                          (create_synth_sample_player cfg (volume t)
                             (Some (TrackEqLow (LiveTrack i))) (Some (TrackGain (LiveTrack i))))
                          (Some (volume t)) (Some (Some (TrackEqLow (LiveTrack i))))
                          (Some (Some (TrackGain (LiveTrack i)))) of
                     Inl err \<Rightarrow> Inl (err, acc)
                   | Inr v \<Rightarrow> play_step_tracks ac smp g (Suc i) ts (acc @ [VoiceStarted v]))))
      else play_step_tracks ac smp g (Suc i) ts acc)"

text \<open>\<open>playStep()\<close>, lines 195--213, at audio time \<open>now\<close>.\<close>

definition play_step :: "real \<Rightarrow> engine \<Rightarrow> engine js_result" where
  "play_step now e =
     (case play_step_tracks (map_option (\<lambda>ac. ac\<lparr>current_time := now\<rparr>) (audio_context e))
             (samples e) (current_step e) 0 (tracks e) [] of
        Inl (err, acc) \<Rightarrow> Inl (err, e\<lparr>out := out e @ acc\<rparr>)
      | Inr acc \<Rightarrow>
          Inr (e\<lparr>out := out e @ acc @ (if on_step_play e then [StepAdvance (current_step e)] else [])\<rparr>))"

text \<open>The interval callback, lines 180--183: a step, then the advance of the global step.\<close>

definition interval_tick :: "real \<Rightarrow> engine \<Rightarrow> engine js_result" where
  "interval_tick now e =
     (case play_step now e of
        Inl (err, e') \<Rightarrow> Inl (err, e')
      | Inr e' \<Rightarrow> Inr (e'\<lparr>current_step := (current_step e' + 1) mod global_step_count e'\<rparr>))"

subsection \<open>The program as a step relation\<close>

datatype engine_op =
    Init "audio_ctx option" "impulse_response option"
  | Play | Stop | SetBPM int | Tick nat real
  | SetMasterVolume real | SetMasterReverbWetness real | SetMasterEqLow real | SetMasterEqHigh real
  | SetTrackVolume nat real | SetTrackPan nat real | SetTrackReverbAmount nat real
  | SetTrackEqLow nat real | SetTrackEqHigh nat real | SetTrackStepCount nat nat
  | ToggleStep nat nat | SetTrackSound nat string | PlaySound string real | ClearAll
  | StartRecording | StopRecording | SubscribeStepAdvance

text \<open>
  One event. \<open>Tick tid now\<close> is the callback of the timer \<open>tid\<close>; the browser runs
  it only while the timer is registered. \<open>SubscribeStepAdvance\<close> is the
  assignment of \<open>onStepPlay\<close> by the sequencer view (\<open>src/sequencer.js\<close>, line 68).
\<close>

fun engine_step :: "engine_op \<Rightarrow> engine \<Rightarrow> engine js_result" where
  "engine_step (Init ac ir) e = Inr (init ac ir e)"
| "engine_step Play e = Inr (play e)"
| "engine_step Stop e = Inr (stop e)"
| "engine_step (SetBPM b) e = Inr (set_bpm b e)"
| "engine_step (Tick tid now) e =
     (if tid \<in> fst ` set (timers e) then interval_tick now e else Inr e)"
| "engine_step (SetMasterVolume v) e = set_master_volume v e"
| "engine_step (SetMasterReverbWetness v) e = set_master_reverb_wetness v e"
| "engine_step (SetMasterEqLow v) e = set_master_eq_low v e"
| "engine_step (SetMasterEqHigh v) e = set_master_eq_high v e"
| "engine_step (SetTrackVolume i v) e = Inr (set_track_volume i v e)"
| "engine_step (SetTrackPan i v) e = Inr (set_track_pan i v e)"
| "engine_step (SetTrackReverbAmount i v) e = Inr (set_track_reverb_amount i v e)"
| "engine_step (SetTrackEqLow i v) e = Inr (set_track_eq_low i v e)"
| "engine_step (SetTrackEqHigh i v) e = Inr (set_track_eq_high i v e)"
| "engine_step (SetTrackStepCount i n) e = set_track_step_count i n e"
| "engine_step (ToggleStep i s) e = Inr (fst (toggle_step i s e))"
| "engine_step (SetTrackSound i name) e = Inr (set_track_sound i name e)"
| "engine_step (PlaySound name now) e = play_sound name now e"
| "engine_step ClearAll e = Inr (clear_all e)"
| "engine_step StartRecording e = Inr (start_recording e)"
| "engine_step StopRecording e = Inr (fst (stop_recording e))"
| "engine_step SubscribeStepAdvance e = Inr (e\<lparr>on_step_play := True\<rparr>)"

text \<open>
  The states a session can reach from \<open>new AudioEngine()\<close> through events whose
  arguments satisfy \<open>ok\<close>. An event that throws still leaves its mutations.
\<close>

inductive reachable :: "(engine_op \<Rightarrow> bool) \<Rightarrow> engine \<Rightarrow> bool" for ok where
  start: "reachable ok new_engine"
| step: "reachable ok e \<Longrightarrow> ok op \<Longrightarrow> reachable ok (js_state (engine_step op e))"

subsection \<open>Which tracks fire\<close>

text \<open>
  The trigger decision of \<open>playStep\<close> without the synthesis: the tracks (index,
  definition, track) whose step \<open>g mod stepCount\<close> is set and whose sound the
  engine knows, in track order. The export replays the same decision.
\<close>

fun active_hits :: "catalog \<Rightarrow> nat \<Rightarrow> nat \<Rightarrow> track list \<Rightarrow> (nat \<times> sound_def \<times> track) list" where
  "active_hits smp g i [] = []"
| "active_hits smp g i (t # ts) =
     (if track_step_active g t then
        (case sample_lookup smp (sound t) of
           None \<Rightarrow> active_hits smp g (Suc i) ts
         | Some cfg \<Rightarrow> (i, cfg, t) # active_hits smp g (Suc i) ts)
      else active_hits smp g (Suc i) ts)"


text \<open>An engine that is playing one four-step lane, used by the witnesses.\<close>

definition demo_engine :: engine where
  "demo_engine = new_engine\<lparr>audio_context := Some \<lparr>sample_rate = 44100, current_time = 0\<rparr>,
     samples := sample_definitions, tracks := [example_track], is_playing := True,
     interval_id := Some 1, timers := [(1, 125)], next_timer_id := 2, on_step_play := True\<rparr>"

subsection \<open>The clock invariant\<close>

text \<open>
  The global step stays below \<open>globalStepCount = 16\<close>; the engine is playing exactly
  when it holds an interval id, and the browser then has exactly that one timer
  registered (none otherwise); ids are positive, hence truthy.
\<close>

definition clock_inv :: "engine \<Rightarrow> bool" where
  "clock_inv e \<longleftrightarrow>
     global_step_count e = 16 \<and> current_step e < 16 \<and>
     (is_playing e \<longleftrightarrow> interval_id e \<noteq> None) \<and>
     map fst (timers e) = (case interval_id e of None \<Rightarrow> [] | Some n \<Rightarrow> [n]) \<and>
     0 < next_timer_id e \<and> (\<forall>n. interval_id e = Some n \<longrightarrow> 0 < n)"

text \<open>The fields the clock invariant reads, and the events that act on them.\<close>

definition clock_fields :: "engine \<Rightarrow> bool \<times> nat \<times> nat \<times> nat option \<times> (nat \<times> int) list \<times> nat" where
  "clock_fields e = (is_playing e, current_step e, global_step_count e, interval_id e, timers e, next_timer_id e)"

definition clock_op :: "engine_op \<Rightarrow> bool" where
  "clock_op op \<longleftrightarrow> op = Play \<or> op = Stop \<or> (\<exists>b. op = SetBPM b) \<or> (\<exists>tid now. op = Tick tid now)"

subsection \<open>Lemmas\<close>

lemma clock_inv_fields: "clock_fields e = clock_fields e' \<Longrightarrow> clock_inv e = clock_inv e'"
  by (simp add: clock_fields_def clock_inv_def)

lemma setup_tracks_loop_clock_fields:
  "clock_fields (js_state (setup_tracks_loop i k e)) = clock_fields e"
proof (induction k arbitrary: i e)
  case 0
  then show ?case by simp
next
  case (Suc k)
  then show ?case
    by (auto simp add: clock_fields_def split: sum.splits)
qed

lemma init_clock_fields: "clock_fields (init ac ir e) = clock_fields e"
  using setup_tracks_loop_clock_fields
  by (auto simp add: init_def setup_tracks_def Let_def clock_fields_def split: option.splits)

lemma update_master_clock_fields: "clock_fields (js_state (update_master f e)) = clock_fields e"
  by (simp add: update_master_def clock_fields_def split: option.splits)

lemma update_track_clock_fields: "clock_fields (update_track i f e) = clock_fields e"
  by (simp add: update_track_def clock_fields_def)

lemma play_step_clock_fields: "clock_fields (js_state (play_step now e)) = clock_fields e"
  by (simp add: play_step_def clock_fields_def split: sum.splits prod.splits)

lemma play_sound_clock_fields: "clock_fields (js_state (play_sound name now e)) = clock_fields e"
  by (simp add: play_sound_def Let_def clock_fields_def split: option.splits sum.splits)

lemma set_track_step_count_clock_fields:
  "clock_fields (js_state (set_track_step_count i n e)) = clock_fields e"
  by (simp add: set_track_step_count_def clock_fields_def split: sum.splits prod.splits)

lemma play_clock_inv: "clock_inv e \<Longrightarrow> clock_inv (play e)"
  by (auto simp add: play_def clock_inv_def Let_def split: option.splits)

lemma stop_clock_inv: "clock_inv e \<Longrightarrow> clock_inv (stop e)"
  by (auto simp add: stop_def clock_inv_def id_truthy_def Let_def split: option.splits)

lemma interval_tick_clock_inv: "clock_inv e \<Longrightarrow> clock_inv (js_state (interval_tick now e))"
proof -
  assume inv: "clock_inv e"
  have f: "clock_fields (js_state (play_step now e)) = clock_fields e"
    by (rule play_step_clock_fields)
  show ?thesis
  proof (cases "play_step now e")
    case (Inl r)
    then obtain err e' where pe: "play_step now e = Inl (err, e')" by (cases r) auto
    with f have "clock_fields e' = clock_fields e" by simp
    then have "clock_inv e' = clock_inv e" by (rule clock_inv_fields)
    with inv have "clock_inv e'" by simp
    with pe show ?thesis by (simp add: interval_tick_def)
  next
    case (Inr e')
    with f inv show ?thesis
      by (auto simp add: interval_tick_def clock_inv_def clock_fields_def)
  qed
qed

lemma engine_step_clock_frame:
  "\<not> clock_op op \<Longrightarrow> clock_fields (js_state (engine_step op e)) = clock_fields e"
proof (cases op)
  case (Init ac ir)
  then show ?thesis by (simp add: init_clock_fields)
next
  case (SetMasterVolume v)
  then show ?thesis by (simp add: set_master_volume_def update_master_clock_fields)
next
  case (SetMasterReverbWetness v)
  then show ?thesis by (simp add: set_master_reverb_wetness_def update_master_clock_fields)
next
  case (SetMasterEqLow v)
  then show ?thesis by (simp add: set_master_eq_low_def update_master_clock_fields)
next
  case (SetMasterEqHigh v)
  then show ?thesis by (simp add: set_master_eq_high_def update_master_clock_fields)
next
  case (SetTrackStepCount i n)
  then show ?thesis by (simp add: set_track_step_count_clock_fields)
next
  case (ToggleStep i s)
  then show ?thesis by (simp add: toggle_step_def Let_def clock_fields_def)
next
  case (PlaySound name now)
  then show ?thesis by (simp add: play_sound_clock_fields)
next
  case ClearAll
  then show ?thesis by (simp add: clear_all_def clock_fields_def)
next
  case StartRecording
  then show ?thesis by (simp add: start_recording_def clock_fields_def)
next
  case StopRecording
  then show ?thesis by (simp add: stop_recording_def clock_fields_def)
next
  case SubscribeStepAdvance
  then show ?thesis by (simp add: clock_fields_def)
qed (simp_all add: clock_op_def update_track_clock_fields set_track_volume_def set_track_pan_def
      set_track_reverb_amount_def set_track_eq_low_def set_track_eq_high_def set_track_sound_def)

lemma set_bpm_clock_inv: "clock_inv e \<Longrightarrow> clock_inv (set_bpm b e)"
proof -
  assume inv: "clock_inv e"
  then have "clock_inv (e\<lparr>bpm := b\<rparr>)" by (simp add: clock_inv_def)
  then show ?thesis
    by (simp add: set_bpm_def Let_def play_clock_inv stop_clock_inv)
qed

lemma engine_step_clock_inv: "clock_inv e \<Longrightarrow> clock_inv (js_state (engine_step op e))"
proof (cases "clock_op op")
  case False
  then have "clock_fields (js_state (engine_step op e)) = clock_fields e"
    by (rule engine_step_clock_frame)
  then have "clock_inv (js_state (engine_step op e)) = clock_inv e" by (rule clock_inv_fields)
  then show "clock_inv e \<Longrightarrow> ?thesis" by simp
next
  case True
  then consider "op = Play" | "op = Stop" | b where "op = SetBPM b" | tid now where "op = Tick tid now"
    unfolding clock_op_def by blast
  then show "clock_inv e \<Longrightarrow> ?thesis"
    by cases (simp_all add: play_clock_inv stop_clock_inv set_bpm_clock_inv interval_tick_clock_inv)
qed



lemma active_hits_indices:
  "map fst (active_hits smp g i ts) =
     map (\<lambda>j. i + j) (filter (\<lambda>j. track_step_active g (ts ! j) \<and> sample_lookup smp (sound (ts ! j)) \<noteq> None)
       [0..<length ts])"
proof (induction ts arbitrary: i)
  case Nil
  then show ?case by simp
next
  case (Cons t ts)
  have shift: "[0..<Suc (length ts)] = 0 # map Suc [0..<length ts]"
    by (simp add: map_Suc_upt upt_conv_Cons del: upt_Suc)
  show ?case
    using Cons.IH [of "Suc i"]
    by (simp add: shift filter_map comp_def del: upt_Suc split: option.splits)
qed


lemma stop_clears_timers:
  assumes "clock_inv e"
  shows "timers (stop e) = [] \<and> interval_id (stop e) = None \<and> \<not> is_playing (stop e) \<and> current_step (stop e) = 0"
proof (cases "interval_id e")
  case None
  with assms show ?thesis by (simp add: stop_def clock_inv_def id_truthy_def Let_def)
next
  case (Some n)
  with assms have "map fst (timers e) = [n]" "0 < n" by (simp_all add: clock_inv_def)
  then obtain d where "timers e = [(n, d)]" by (cases "timers e") auto
  with Some \<open>0 < n\<close> show ?thesis by (simp add: stop_def id_truthy_def Let_def)
qed

lemma div_exact_iff:
  assumes "0 < (b::int)"
  shows "real_of_int (a div b) = real_of_int a / real_of_int b \<longleftrightarrow> b dvd a"
proof
  assume eq: "real_of_int (a div b) = real_of_int a / real_of_int b"
  then have "real_of_int (a div b) * real_of_int b = real_of_int a" using assms by simp
  then have "a div b * b = a" by (metis of_int_eq_iff of_int_mult)
  then show "b dvd a" by (metis dvd_triv_right)
next
  assume "b dvd a"
  then show "real_of_int (a div b) = real_of_int a / real_of_int b" by (simp add: real_of_int_div)
qed


subsection \<open>Properties of the clock\<close>

text \<open>
  C2: in every state a session reaches, whatever the events and their
  arguments, the global step is below 16, the engine is playing exactly when it
  holds an interval id, and exactly that one timer is registered while it
  plays (none while stopped): ticks never run twice per period or after a stop.
\<close>

theorem reachable_clock_inv:
  assumes "reachable ok e"
  shows "clock_inv e"
  using assms
proof (induction rule: reachable.induct)
  case start
  show ?case by (simp add: clock_inv_def new_engine_def)
next
  case (step e op)
  from step.IH show ?case by (rule engine_step_clock_inv)
qed

theorem reachable_clock_inv_witness:
  "clock_inv (js_state (engine_step (Tick 1 0) (js_state (engine_step Play new_engine))))"
proof -
  have "reachable (\<lambda>_. True) (js_state (engine_step (Tick 1 0) (js_state (engine_step Play new_engine))))"
    by (intro reachable.step reachable.start) simp_all
  then show ?thesis by (rule reachable_clock_inv)
qed



text \<open>
  C16: \<open>play()\<close> immediately followed by \<open>stop()\<close> leaves the global step at 0,
  not playing and with no registered timer, so no later timer callback runs.
\<close>

theorem stop_halts_clock:
  assumes "clock_inv e"
  shows "current_step (stop (play e)) = 0 \<and> \<not> is_playing (stop (play e)) \<and> timers (stop (play e)) = [] \<and>
         (\<forall>tid now. engine_step (Tick tid now) (stop (play e)) = Inr (stop (play e)))"
  using stop_clears_timers [OF play_clock_inv [OF assms]] by simp

theorem stop_halts_clock_witness:
  "current_step (stop (play new_engine)) = 0 \<and> \<not> is_playing (stop (play new_engine)) \<and>
   timers (stop (play new_engine)) = [] \<and>
   (\<forall>tid now. engine_step (Tick tid now) (stop (play new_engine)) = Inr (stop (play new_engine)))"
  by (rule stop_halts_clock) (simp add: clock_inv_def new_engine_def)

text \<open>
  C17: \<open>setBPM\<close> on a running sequencer restarts the measure at step 0 under a
  single new timer with the new tempo's delay; on a stopped one it only records
  the tempo.
\<close>

theorem set_bpm_restarts_measure:
  assumes "clock_inv e"
  shows "(is_playing e \<longrightarrow>
            current_step (set_bpm b e) = 0 \<and> is_playing (set_bpm b e) \<and> bpm (set_bpm b e) = b \<and>
            interval_id (set_bpm b e) = Some (next_timer_id e) \<and>
            timers (set_bpm b e) = [(next_timer_id e, interval_delay b)]) \<and>
         (\<not> is_playing e \<longrightarrow> set_bpm b e = e\<lparr>bpm := b\<rparr>)"
proof -
  have inv: "clock_inv (e\<lparr>bpm := b\<rparr>)" using assms by (simp add: clock_inv_def)
  have "timers (stop (e\<lparr>bpm := b\<rparr>)) = [] \<and> interval_id (stop (e\<lparr>bpm := b\<rparr>)) = None \<and>
        \<not> is_playing (stop (e\<lparr>bpm := b\<rparr>))"
    using stop_clears_timers [OF inv] by simp
  moreover have "next_timer_id (stop (e\<lparr>bpm := b\<rparr>)) = next_timer_id e \<and> bpm (stop (e\<lparr>bpm := b\<rparr>)) = b"
    by (simp add: stop_def Let_def)
  ultimately show ?thesis
    by (simp add: set_bpm_def play_def Let_def)
qed

theorem set_bpm_restarts_measure_witness:
  "is_playing (play new_engine) \<and>
   current_step (set_bpm 90 (play new_engine)) = 0 \<and> is_playing (set_bpm 90 (play new_engine)) \<and>
   bpm (set_bpm 90 (play new_engine)) = 90 \<and>
   interval_id (set_bpm 90 (play new_engine)) = Some (next_timer_id (play new_engine)) \<and>
   timers (set_bpm 90 (play new_engine)) = [(next_timer_id (play new_engine), interval_delay 90)]"
proof -
  have inv: "clock_inv (play new_engine)"
    by (rule play_clock_inv) (simp add: clock_inv_def new_engine_def)
  have playing: "is_playing (play new_engine)"
    by (simp add: play_def new_engine_def)
  from set_bpm_restarts_measure [OF inv, of 90] playing show ?thesis by simp
qed

text \<open>
  C27: the live step interval is the sixteenth-note duration truncated to whole
  milliseconds: \<open>15000 div bpm\<close>, which equals the exact duration
  \<open>15000 / bpm\<close> used by the export only when \<open>bpm\<close> divides 15000.
\<close>

theorem interval_delay_truncates:
  assumes "0 < b"
  shows "interval_delay b = 15000 div b \<and>
         (real_of_int (interval_delay b) = 15000 / real_of_int b \<longleftrightarrow> b dvd 15000)"
proof -
  have q: "60 / real_of_int b * 1000 / 4 = real_of_int 15000 / real_of_int b" by simp
  have "0 \<le> real_of_int 15000 / real_of_int b" using assms by simp
  then have "js_trunc (60 / real_of_int b * 1000 / 4) = 15000 div b"
    by (simp only: q js_trunc_def if_True floor_divide_of_int_eq)
  moreover have "0 \<le> (15000::int) div b" using assms by (simp add: pos_imp_zdiv_nonneg_iff)
  ultimately have d: "interval_delay b = 15000 div b"
    using assms by (simp add: interval_delay_def)
  then show ?thesis using div_exact_iff [OF assms, of 15000] by simp
qed

theorem interval_delay_truncates_witness:
  "(interval_delay 128 = 15000 div 128 \<and>
    (real_of_int (interval_delay 128) = 15000 / real_of_int 128 \<longleftrightarrow> (128::int) dvd 15000)) \<and>
   interval_delay 128 = 117 \<and> \<not> (128::int) dvd 15000"
  using interval_delay_truncates [of 128] by simp

text \<open>
  C13: on a well-formed track, \<open>toggleStep\<close> within the track's step count flips
  the step and returns the new value, and a second call restores the engine and
  returns the original value.
\<close>

theorem toggle_step_self_inverse:
  assumes "ti < length (tracks e)" and "track_wf (tracks e ! ti)" and "sl < step_count (tracks e ! ti)"
  shows "snd (toggle_step ti sl e) = (\<not> steps (tracks e ! ti) ! sl) \<and>
         steps (tracks (fst (toggle_step ti sl e)) ! ti) ! sl = snd (toggle_step ti sl e) \<and>
         toggle_step ti sl (fst (toggle_step ti sl e)) = (e, steps (tracks e ! ti) ! sl)"
proof -
  let ?t = "tracks e ! ti"
  have len: "sl < length (steps ?t)" using assms(2,3) by (simp add: track_wf_def)
  have "(tracks e)[ti := ?t\<lparr>steps := (steps ?t)[sl := \<not> steps ?t ! sl, sl := steps ?t ! sl]\<rparr>] = tracks e"
    by simp
  then show ?thesis
    using assms(1,3) len by (simp add: toggle_step_def Let_def nth_list_update)
qed

theorem toggle_step_self_inverse_witness:
  "snd (toggle_step 0 1 demo_engine) = (\<not> steps (tracks demo_engine ! 0) ! 1) \<and>
   steps (tracks (fst (toggle_step 0 1 demo_engine)) ! 0) ! 1 = snd (toggle_step 0 1 demo_engine) \<and>
   toggle_step 0 1 (fst (toggle_step 0 1 demo_engine)) = (demo_engine, steps (tracks demo_engine ! 0) ! 1)"
  by (rule toggle_step_self_inverse) (simp_all add: demo_engine_def example_track_def track_wf_def)

text \<open>
  C26: an index without a track is ignored by every per-track operation, and
  \<open>toggleStep\<close> past the track's step count changes nothing and returns false.
\<close>

theorem invalid_index_ignored:
  "(length (tracks e) \<le> i \<longrightarrow>
      set_track_volume i v e = e \<and> set_track_pan i v e = e \<and> set_track_reverb_amount i v e = e \<and>
      set_track_eq_low i v e = e \<and> set_track_eq_high i v e = e \<and> set_track_sound i name e = e \<and>
      set_track_step_count i n e = Inr e \<and> toggle_step i s e = (e, False)) \<and>
   (i < length (tracks e) \<longrightarrow> step_count (tracks e ! i) \<le> s \<longrightarrow> toggle_step i s e = (e, False))"
  by (simp add: set_track_volume_def set_track_pan_def set_track_reverb_amount_def
      set_track_eq_low_def set_track_eq_high_def set_track_sound_def update_track_def
      set_track_step_count_def toggle_step_def)

theorem invalid_index_ignored_witness:
  "length (tracks demo_engine) \<le> 1 \<and>
   set_track_volume 1 0.5 demo_engine = demo_engine \<and> set_track_pan 1 0.5 demo_engine = demo_engine \<and>
   set_track_reverb_amount 1 0.5 demo_engine = demo_engine \<and>
   set_track_eq_low 1 0.5 demo_engine = demo_engine \<and> set_track_eq_high 1 0.5 demo_engine = demo_engine \<and>
   set_track_sound 1 ''fx-01'' demo_engine = demo_engine \<and>
   set_track_step_count 1 8 demo_engine = Inr demo_engine \<and> toggle_step 1 0 demo_engine = (demo_engine, False) \<and>
   0 < length (tracks demo_engine) \<and> step_count (tracks demo_engine ! 0) \<le> 4 \<and>
   toggle_step 0 4 demo_engine = (demo_engine, False)"
proof -
  have facts: "length (tracks demo_engine) \<le> 1" "0 < length (tracks demo_engine)"
    "step_count (tracks demo_engine ! 0) \<le> 4"
    by (simp_all add: demo_engine_def example_track_def)
  from facts invalid_index_ignored [of demo_engine 1 "0.5" "''fx-01''" 8 0]
    invalid_index_ignored [of demo_engine 0 "0.5" "''fx-01''" 8 4]
  show ?thesis by simp
qed

end
