(* ===== verification/Sequencer.thy ===== *)
theory Sequencer
  imports SequencerView Clock
begin

text \<open>
  The \<open>Sequencer\<close> controller of \<open>src/sequencer.js\<close>: it fills the rows the
  renderer built with step buttons, forwards clicks and selector changes to the
  engine, and moves the \<open>playing\<close> highlight when the engine reports a step.
  The engine is the record of \<open>AudioEngine\<close>; the view is the list of track
  rows of \<open>SequencerView\<close>. A handler takes the engine and the rows and returns
  both. The invariant \<open>grid_inv\<close> states that row \<open>k\<close> shows track \<open>k\<close>: its
  buttons are those \<open>renderTrackSteps\<close> builds for the track's current pattern,
  with the click listener of track \<open>k\<close> attached.
\<close>

subsection \<open>Track lookup\<close>

text \<open>
  \<open>this.tracks[trackIndex]\<close> for a number read by \<open>parseInt\<close> (\<open>None\<close> is
  \<open>NaN\<close>): the index of an existing track, or \<open>None\<close> for \<open>undefined\<close>. Every
  per-track method of the engine tests it first and does nothing without a
  track.
\<close>

definition track_index :: "engine \<Rightarrow> int option \<Rightarrow> nat option" where
  "track_index e ti =
     (case ti of Some i \<Rightarrow> if 0 \<le> i \<and> nat i < length (tracks e) then Some (nat i) else None | None \<Rightarrow> None)"

text \<open>\<open>getTrackData(trackIndex)\<close>, \<open>src/audio-engine.js\<close> lines 252--254.\<close>

definition get_track_data :: "engine \<Rightarrow> int option \<Rightarrow> track option" where
  "get_track_data e ti = map_option (\<lambda>k. tracks e ! k) (track_index e ti)"

text \<open>A per-track setter of the engine called with a parsed index.\<close>

definition track_call :: "int option \<Rightarrow> (nat \<Rightarrow> engine \<Rightarrow> engine) \<Rightarrow> engine \<Rightarrow> engine" where
  "track_call ti f e = (case track_index e ti of None \<Rightarrow> e | Some k \<Rightarrow> f k e)"

subsection \<open>Building the step buttons\<close>

text \<open>
  Lines 30--40: the listener of every button of the container
  \<open>.step-buttons[data-track="${trackIndex}"]\<close>; it captures \<open>trackIndex\<close>,
  which is a valid, hence non-negative, track index here.
\<close>

definition attach_click_listeners :: "int \<Rightarrow> track_row list \<Rightarrow> track_row list" where
  "attach_click_listeners i rows =
     (case row_position (string_of_nat (nat i)) rows of
        None \<Rightarrow> rows
      | Some j \<Rightarrow> rows[j := (rows ! j)\<lparr>step_groups := map (map (\<lambda>b. b\<lparr>sb_listener := Some i\<rparr>)) (step_groups (rows ! j))\<rparr>])"

text \<open>\<open>createTrackStepButtons(trackIndex)\<close>, lines 24--41.\<close>

definition create_track_step_buttons :: "engine \<Rightarrow> int option \<Rightarrow> track_row list \<Rightarrow> track_row list" where
  "create_track_step_buttons e ti rows =
     (case ti of
        None \<Rightarrow> rows
      | Some i \<Rightarrow>
          (case get_track_data e (Some i) of
             None \<Rightarrow> rows
           | Some t \<Rightarrow> attach_click_listeners i (render_track_steps (nat i) (step_count t) (steps t) rows)))"

text \<open>\<open>createAllTrackStepButtons()\<close>, lines 16--22: every row, by its parsed \<open>data-track\<close>.\<close>

definition create_all_track_step_buttons :: "engine \<Rightarrow> track_row list \<Rightarrow> track_row list" where
  "create_all_track_step_buttons e rows =
     fold (\<lambda>r acc. create_track_step_buttons e (parse_int (row_track r)) acc) rows rows"

subsection \<open>The playing highlight\<close>

definition map_buttons :: "(step_button \<Rightarrow> step_button) \<Rightarrow> track_row list \<Rightarrow> track_row list" where
  "map_buttons f rows = map (\<lambda>r. r\<lparr>step_groups := map (map f) (step_groups r)\<rparr>) rows"

text \<open>\<open>clearStepIndicators()\<close>, lines 103--107.\<close>

definition clear_step_indicators :: "track_row list \<Rightarrow> track_row list" where
  "clear_step_indicators rows = map_buttons (\<lambda>b. b\<lparr>sb_playing := False\<rparr>) rows"

text \<open>
  \<open>row.querySelector('.step-button[data-step="k"]')\<close> marked \<open>playing\<close>: the
  first matching button of a measure, and the first measure that has one.
\<close>

fun mark_in_group :: "string \<Rightarrow> step_button list \<Rightarrow> step_button list \<times> bool" where
  "mark_in_group key [] = ([], False)"
| "mark_in_group key (b # bs) =
     (if sb_step b = key then (b\<lparr>sb_playing := True\<rparr> # bs, True)
      else (case mark_in_group key bs of (bs', found) \<Rightarrow> (b # bs', found)))"

fun mark_first :: "string \<Rightarrow> step_button list list \<Rightarrow> step_button list list" where
  "mark_first key [] = []"
| "mark_first key (g # gs) =
     (case mark_in_group key g of (g', True) \<Rightarrow> g' # gs | (g', False) \<Rightarrow> g # mark_first key gs)"

text \<open>
  One row of \<open>updateStepIndicators(currentGlobalStep)\<close>, lines 75--92. A step
  count of 0 gives the local step \<open>NaN\<close>, which no button carries.
\<close>

definition update_row_indicators :: "engine \<Rightarrow> nat \<Rightarrow> track_row \<Rightarrow> track_row" where
  "update_row_indicators e g r =
     (case get_track_data e (parse_int (row_track r)) of
        None \<Rightarrow> r
      | Some t \<Rightarrow>
          (let groups = map (map (\<lambda>b. b\<lparr>sb_playing := False\<rparr>)) (step_groups r)
           in r\<lparr>step_groups := (if step_count t = 0 then groups
                                else mark_first (string_of_nat (g mod step_count t)) groups)\<rparr>))"

definition update_step_indicators :: "engine \<Rightarrow> nat \<Rightarrow> track_row list \<Rightarrow> track_row list" where
  "update_step_indicators e g rows = map (update_row_indicators e g) rows"

subsection \<open>Handlers\<close>

text \<open>
  \<open>audioEngine.toggleStep(trackIndex, stepLocal)\<close> (\<open>src/audio-engine.js\<close>
  lines 215--221) with the listener's \<open>trackIndex\<close> and a parsed \<open>stepLocal\<close>.
  \<open>NaN\<close> fails the test \<open>stepLocal < stepCount\<close>. A negative \<open>stepLocal\<close>
  passes it and flips the property \<open>"-1"\<close> of the array, not an element: the
  model gives the first such toggle, which returns \<open>true\<close>, and does not keep
  the property. The view never writes a negative \<open>data-step\<close>.
\<close>

definition js_toggle_step :: "int \<Rightarrow> int option \<Rightarrow> engine \<Rightarrow> engine \<times> bool" where
  "js_toggle_step ti sl e =
     (case track_index e (Some ti) of
        None \<Rightarrow> (e, False)
      | Some k \<Rightarrow> (case sl of None \<Rightarrow> (e, False) | Some s \<Rightarrow> if s < 0 then (e, True) else toggle_step k (nat s) e))"

text \<open>
  A click on the button at position \<open>bi\<close> of measure \<open>gi\<close> of row \<open>r\<close>, lines
  34--38: its listener toggles the step and the button shows the value
  returned. A button without a listener ignores the click.
\<close>

definition click_step :: "nat \<Rightarrow> nat \<Rightarrow> nat \<Rightarrow> engine \<Rightarrow> track_row list \<Rightarrow> engine \<times> track_row list" where
  "click_step r gi bi e rows =
     (if r < length rows \<and> gi < length (step_groups (rows ! r)) \<and> bi < length (step_groups (rows ! r) ! gi) then
        (let b = step_groups (rows ! r) ! gi ! bi
         in case sb_listener b of
              None \<Rightarrow> (e, rows)
            | Some ti \<Rightarrow>
                (let (e', active) = js_toggle_step ti (parse_int (sb_step b)) e;
                     g' = (step_groups (rows ! r) ! gi)[bi := b\<lparr>sb_active := active\<rparr>]
                 in (e', rows[r := (rows ! r)\<lparr>step_groups := (step_groups (rows ! r))[gi := g']\<rparr>])))
      else (e, rows))"

text \<open>\<open>clearAll()\<close>, lines 95--101: the engine's patterns, then every button.\<close>

definition sequencer_clear_all :: "engine \<Rightarrow> track_row list \<Rightarrow> engine \<times> track_row list" where
  "sequencer_clear_all e rows =
     (clear_all e, clear_step_indicators (map_buttons (\<lambda>b. b\<lparr>sb_active := False\<rparr>) rows))"

text \<open>
  Option \<open>k\<close> of the sound selector of row \<open>r\<close> chosen, lines 47--51: the
  selector shows it and \<open>setTrackSound(parseInt(dataset.track), value)\<close>.
\<close>

definition select_sound :: "nat \<Rightarrow> nat \<Rightarrow> engine \<Rightarrow> track_row list \<Rightarrow> engine \<times> track_row list" where
  "select_sound r k e rows =
     (if r < length rows \<and> k < length (sound_options (rows ! r)) then
        (let name = opt_value (sound_options (rows ! r) ! k);
             rows' = rows[r := (rows ! r)\<lparr>sound_options :=
                        map (\<lambda>opt. opt\<lparr>opt_selected := (opt_value opt = name)\<rparr>) (sound_options (rows ! r))\<rparr>]
         in (track_call (parse_int (row_track (rows ! r))) (\<lambda>i. set_track_sound i name) e, rows'))
      else (e, rows))"

text \<open>
  \<open>setTrackStepCount(trackIndex, newStepCount)\<close> with parsed arguments. A
  negative or \<open>NaN\<close> count differs from the current one and makes
  \<open>new Array(newCount)\<close> throw \<open>RangeError\<close>; the count it assigns first is no
  natural number, and the model leaves the engine unchanged in that case.
\<close>

definition js_set_track_step_count :: "int option \<Rightarrow> int option \<Rightarrow> engine \<Rightarrow> engine js_result" where
  "js_set_track_step_count ti c e =
     (case track_index e ti of
        None \<Rightarrow> Inr e
      | Some k \<Rightarrow> (case c of Some n \<Rightarrow> if 0 \<le> n then set_track_step_count k (nat n) e else Inl (RangeError, e)
                          | None \<Rightarrow> Inl (RangeError, e)))"

text \<open>
  Option \<open>k\<close> of the step-count selector of row \<open>r\<close> chosen, lines 57--65: the
  engine's step count, then the row's buttons rebuilt and every highlight
  cleared. An exception skips the rest of the listener.
\<close>

definition select_step_count ::
  "nat \<Rightarrow> nat \<Rightarrow> engine \<Rightarrow> track_row list \<Rightarrow> engine js_result \<times> track_row list" where
  "select_step_count r k e rows =
     (if r < length rows \<and> k < length (step_options (rows ! r)) then
        (let v = opt_value (step_options (rows ! r) ! k);
             ti = parse_int (row_track (rows ! r));
             rows1 = rows[r := (rows ! r)\<lparr>step_options :=
                        map (\<lambda>opt. opt\<lparr>opt_selected := (opt_value opt = v)\<rparr>) (step_options (rows ! r))\<rparr>]
         in case js_set_track_step_count ti (parse_int v) e of
              Inl (err, e') \<Rightarrow> (Inl (err, e'), rows1)
            | Inr e' \<Rightarrow> (Inr e', clear_step_indicators (create_track_step_buttons e' ti rows1)))
      else (Inr e, rows))"

text \<open>
  \<open>new Sequencer(audioEngine)\<close>, lines 4--14 and 68--70: the step buttons of
  every row, then the subscription to the engine's step notifications.
\<close>

definition sequencer_init :: "engine \<Rightarrow> track_row list \<Rightarrow> engine \<times> track_row list" where
  "sequencer_init e rows = (e\<lparr>on_step_play := True\<rparr>, create_all_track_step_buttons e rows)"

subsection \<open>The grid invariant\<close>

text \<open>
  Row \<open>k\<close> shows track \<open>k\<close>: its \<open>data-track\<close> is \<open>k\<close>, its step-count
  options are 4, 8 and 16, and up to the \<open>playing\<close> highlight its buttons are
  those of \<open>renderTrackSteps(k, stepCount, steps)\<close> with the listener of
  track \<open>k\<close>.
\<close>

text \<open>The buttons row \<open>k\<close> holds for track \<open>t\<close> once the listeners are attached.\<close>

definition row_buttons :: "nat \<Rightarrow> track \<Rightarrow> step_button list list" where
  "row_buttons k t = map (map (\<lambda>b. b\<lparr>sb_listener := Some (int k)\<rparr>)) (step_groups_of k (step_count t) (steps t))"

definition row_ok :: "engine \<Rightarrow> nat \<Rightarrow> track_row \<Rightarrow> bool" where
  "row_ok e k r \<longleftrightarrow>
     row_track r = string_of_nat k \<and> map opt_value (step_options r) = [''4'', ''8'', ''16''] \<and>
     map (map (\<lambda>b. b\<lparr>sb_playing := False\<rparr>)) (step_groups r) = row_buttons k (tracks e ! k)"

definition grid_inv :: "engine \<Rightarrow> track_row list \<Rightarrow> bool" where
  "grid_inv e rows \<longleftrightarrow> list_all2 (row_ok e) [0..<length (tracks e)] rows"

text \<open>What the view shows of the engine: the step count and the pattern of each track.\<close>

definition patterns :: "engine \<Rightarrow> (nat \<times> bool list) list" where
  "patterns e = map (\<lambda>t. (step_count t, steps t)) (tracks e)"

text \<open>The grid the sequencer builds for \<open>demo_engine\<close>, used by the examples.\<close>

definition demo_grid :: "track_row list" where
  "demo_grid = snd (sequencer_init demo_engine (sequencer_render (tracks demo_engine) [''kick-01'']))"

subsection \<open>Lemmas on the grid\<close>

lemma grid_inv_iff:
  "grid_inv e rows \<longleftrightarrow> length rows = length (tracks e) \<and> (\<forall>k < length rows. row_ok e k (rows ! k))"
  by (auto simp add: grid_inv_def list_all2_conv_all_nth)

lemma row_buttons_cong:
  "step_count t' = step_count t \<Longrightarrow> steps t' = steps t \<Longrightarrow> row_buttons k t' = row_buttons k t"
  by (simp add: row_buttons_def)

lemma grid_inv_patterns:
  assumes "patterns e' = patterns e"
  shows "grid_inv e' rows = grid_inv e rows"
proof -
  have l: "length (tracks e') = length (tracks e)" using arg_cong [OF assms, of length] by (simp add: patterns_def)
  have "row_ok e' k r = row_ok e k r" if "k < length (tracks e)" for k r
  proof -
    have "patterns e' ! k = patterns e ! k" using assms by simp
    with that l have "step_count (tracks e' ! k) = step_count (tracks e ! k) \<and> steps (tracks e' ! k) = steps (tracks e ! k)"
      by (simp add: patterns_def)
    then show ?thesis by (simp add: row_ok_def row_buttons_def)
  qed
  with l show ?thesis unfolding grid_inv_iff by auto
qed

lemma grid_inv_row_tracks:
  "grid_inv e rows \<Longrightarrow> map row_track rows = map string_of_nat [0..<length rows]"
proof (rule nth_equalityI)
  fix k assume "grid_inv e rows" and k: "k < length (map row_track rows)"
  then have "row_ok e k (rows ! k)" unfolding grid_inv_iff by simp
  then show "map row_track rows ! k = map string_of_nat [0..<length rows] ! k"
    using k by (simp add: row_ok_def)
qed simp

lemma row_position_std:
  "map row_track rows = map string_of_nat [m..<m + length rows] \<Longrightarrow> k < length rows \<Longrightarrow>
     row_position (string_of_nat (m + k)) rows = Some k"
proof (induction rows arbitrary: m k)
  case Nil
  then show ?case by simp
next
  case (Cons r rs)
  have u: "[m..<m + length (r # rs)] = m # [Suc m..<Suc m + length rs]" by (simp add: upt_conv_Cons del: upt_Suc)
  from Cons.prems(1) have t: "row_track r = string_of_nat m" and ts: "map row_track rs = map string_of_nat [Suc m..<Suc m + length rs]"
    by (simp_all only: u list.map list.inject)
  show ?case
  proof (cases k)
    case 0
    with t show ?thesis by simp
  next
    case (Suc k')
    with Cons.prems(2) have "row_position (string_of_nat (Suc m + k')) rs = Some k'" by (intro Cons.IH [OF ts]) simp
    moreover have "string_of_nat m \<noteq> string_of_nat (m + k)" using Suc by auto
    ultimately show ?thesis using t Suc by simp
  qed
qed

lemma row_position_grid:
  "map row_track rows = map string_of_nat [0..<length rows] \<Longrightarrow> k < length rows \<Longrightarrow>
     row_position (string_of_nat k) rows = Some k"
  using row_position_std [of rows 0 k] by simp

lemma step_groups_of_unplay:
  "map (map (\<lambda>b. b\<lparr>sb_playing := False\<rparr>)) (row_buttons k t) = row_buttons k t"
  by (simp add: row_buttons_def step_groups_of_ref step_button_ref_def)

lemma track_index_valid [simp]: "k < length (tracks e) \<Longrightarrow> track_index e (Some (int k)) = Some k"
  by (simp add: track_index_def)

text \<open>On rows that carry the indices \<open>0, 1, ...\<close>, \<open>createTrackStepButtons(k)\<close> rebuilds row \<open>k\<close>.\<close>

lemma create_track_step_buttons_std:
  assumes "map row_track rows = map string_of_nat [0..<length rows]" and "k < length rows"
    and "length rows = length (tracks e)"
  shows "create_track_step_buttons e (Some (int k)) rows =
           rows[k := (rows ! k)\<lparr>step_groups := row_buttons k (tracks e ! k)\<rparr>]"
proof -
  have p: "row_position (string_of_nat k) rows = Some k" by (rule row_position_grid [OF assms(1,2)])
  let ?rows1 = "render_track_steps k (step_count (tracks e ! k)) (steps (tracks e ! k)) rows"
  have r1: "?rows1 = rows[k := (rows ! k)\<lparr>step_groups := step_groups_of k (step_count (tracks e ! k)) (steps (tracks e ! k))\<rparr>]"
    by (simp add: render_track_steps_def p)
  have "map row_track ?rows1 = (map row_track rows)[k := row_track (rows ! k)]"
    unfolding r1 map_update by simp
  also have "\<dots> = map row_track rows" by (simp only: map_update [symmetric] list_update_id)
  finally have "map row_track ?rows1 = map row_track rows" .
  then have "map row_track ?rows1 = map string_of_nat [0..<length ?rows1]"
    using assms(1) by (simp add: r1)
  then have p1: "row_position (string_of_nat k) ?rows1 = Some k" using assms(2) by (intro row_position_grid) (simp_all add: r1)
  show ?thesis using assms(2,3)
    by (simp add: create_track_step_buttons_def get_track_data_def attach_click_listeners_def p1)
       (simp add: r1 row_buttons_def)
qed


lemma step_options_values: "map (opt_value \<circ> step_count_option t) [4, 8, 16] = [''4'', ''8'', ''16'']"
  by (simp add: step_count_option_def char_of_def bit_0)

lemma render_rows_nth:
  "length (render_rows sounds m ts) = length ts \<and>
   (\<forall>k < length ts. render_rows sounds m ts ! k = track_row_of sounds (m + k) (ts ! k))"
proof (induction ts arbitrary: m)
  case Nil
  then show ?case by simp
next
  case (Cons t ts)
  then show ?case by (auto simp add: nth_Cons' less_Suc_eq_0_disj)
qed

lemma sequencer_render_rows:
  assumes "k < length ts"
  shows "length (sequencer_render ts sounds) = length ts \<and>
         row_track (sequencer_render ts sounds ! k) = string_of_nat k \<and>
         map opt_value (step_options (sequencer_render ts sounds ! k)) = [''4'', ''8'', ''16'']"
  using render_rows_nth [of sounds 0 ts] assms step_options_values [of "ts ! k"]
  by (simp add: sequencer_render_def track_row_of_def del: string_of_nat_large)

lemma fold_create_track_step_buttons:
  assumes "map row_track rows = map string_of_nat [0..<length rows]" and "length rows = length (tracks e)"
    and "j \<le> length rows"
  shows "fold (\<lambda>k. create_track_step_buttons e (Some (int k))) [0..<j] rows =
           map (\<lambda>k. if k < j then (rows ! k)\<lparr>step_groups := row_buttons k (tracks e ! k)\<rparr> else rows ! k)
             [0..<length rows]"
  using assms(3)
proof (induction j)
  case 0
  then show ?case by (simp add: map_nth)
next
  case (Suc j)
  let ?acc = "map (\<lambda>k. if k < j then (rows ! k)\<lparr>step_groups := row_buttons k (tracks e ! k)\<rparr> else rows ! k)
                [0..<length rows]"
  have "map row_track ?acc = map row_track rows" by (rule nth_equalityI) simp_all
  with assms(1) have t: "map row_track ?acc = map string_of_nat [0..<length ?acc]" by simp
  have "fold (\<lambda>k. create_track_step_buttons e (Some (int k))) [0..<Suc j] rows =
          create_track_step_buttons e (Some (int j)) ?acc"
    using Suc by simp
  also have "\<dots> = ?acc[j := (?acc ! j)\<lparr>step_groups := row_buttons j (tracks e ! j)\<rparr>]"
    using Suc.prems assms(2) by (intro create_track_step_buttons_std [OF t]) simp_all
  also have "\<dots> = map (\<lambda>k. if k < Suc j then (rows ! k)\<lparr>step_groups := row_buttons k (tracks e ! k)\<rparr> else rows ! k)
                [0..<length rows]"
    using Suc.prems by (intro nth_equalityI) (auto simp add: nth_list_update)
  finally show ?case .
qed

lemma map_eq_update:
  assumes "distinct xs" and "i < length xs" and "\<And>j. j \<in> set xs \<Longrightarrow> j \<noteq> xs ! i \<Longrightarrow> f j = g j"
  shows "map f xs = (map g xs)[i := f (xs ! i)]"
proof (rule nth_equalityI)
  fix j assume "j < length (map f xs)"
  moreover have "j \<noteq> i \<Longrightarrow> j < length xs \<Longrightarrow> xs ! j \<noteq> xs ! i" using assms(1,2) by (simp add: nth_eq_iff_index_eq)
  ultimately show "map f xs ! j = (map g xs)[i := f (xs ! i)] ! j"
    using assms(3) [of "xs ! j"] by (cases "j = i") (simp_all add: nth_list_update)
qed simp

lemma step_button_ref_set:
  "step_button_ref ti (js_set_bool st idx v) j =
     (if j = idx then (step_button_ref ti st j)\<lparr>sb_active := v\<rparr> else step_button_ref ti st j)"
  by (simp add: step_button_ref_def js_get_set_bool_other)

lemma step_groups_of_set_bool:
  assumes gi: "gi < length (step_groups_of ti n st)" and bi: "bi < length (step_groups_of ti n st ! gi)"
  shows "step_groups_of ti n (js_set_bool st (gi * 4 + bi) v) =
           (step_groups_of ti n st)[gi := (step_groups_of ti n st ! gi)[bi :=
              (step_groups_of ti n st ! gi ! bi)\<lparr>sb_active := v\<rparr>]]"
proof -
  let ?idx = "gi * 4 + bi"
  let ?R = "\<lambda>m. [m * 4..<min n (m * 4 + 4)]"
  have nth: "step_groups_of ti n st ! gi ! bi = step_button_ref ti st ?idx" and lt: "?idx < n"
    using step_groups_of_nth [OF gi bi] by simp_all
  have gK: "gi < (n + 3) div 4" and bR: "bi < length (?R gi)" using gi bi by (simp_all add: step_groups_of_ref)
  have inner: "map (step_button_ref ti (js_set_bool st ?idx v)) (?R gi) =
                 (map (step_button_ref ti st) (?R gi))[bi := step_button_ref ti (js_set_bool st ?idx v) (?R gi ! bi)]"
    using bR by (intro map_eq_update) (auto simp add: step_button_ref_set)
  have b4: "bi < 4" using bR by simp
  have "bi < min n (gi * 4 + 4) - gi * 4" using bR by simp
  then have "gi * 4 + bi < min n (gi * 4 + 4)" by linarith
  then have rb: "?R gi ! bi = ?idx" by (rule nth_upt)
  have other: "map (step_button_ref ti (js_set_bool st ?idx v)) (?R m) = map (step_button_ref ti st) (?R m)"
    if "m \<noteq> gi" for m
  proof (rule map_cong)
    fix x assume "x \<in> set (?R m)"
    then have "m * 4 \<le> x" "x < m * 4 + 4" by simp_all
    with that b4 have "x \<noteq> ?idx" by linarith
    then show "step_button_ref ti (js_set_bool st ?idx v) x = step_button_ref ti st x" by (simp add: step_button_ref_set)
  qed simp
  have "map (\<lambda>m. map (step_button_ref ti (js_set_bool st ?idx v)) (?R m)) [0..<(n + 3) div 4] =
          (map (\<lambda>m. map (step_button_ref ti st) (?R m)) [0..<(n + 3) div 4])[gi :=
             (\<lambda>m. map (step_button_ref ti (js_set_bool st ?idx v)) (?R m)) ([0..<(n + 3) div 4] ! gi)]"
    using gK other by (intro map_eq_update) simp_all
  with inner nth rb gK show ?thesis by (simp add: step_groups_of_ref step_button_ref_set)
qed

lemma step_button_active_listener:
  "b\<lparr>sb_active := v, sb_listener := l\<rparr> = b\<lparr>sb_listener := l, sb_active := v\<rparr>"
  by (cases b) simp

lemma step_button_active_playing:
  "b\<lparr>sb_active := v, sb_playing := p\<rparr> = b\<lparr>sb_playing := p, sb_active := v\<rparr>"
  by (cases b) simp

lemma row_buttons_set_bool:
  assumes "gi < length (row_buttons k t)" and "bi < length (row_buttons k t ! gi)"
  shows "row_buttons k (t\<lparr>steps := js_set_bool (steps t) (gi * 4 + bi) v\<rparr>) =
           (row_buttons k t)[gi := (row_buttons k t ! gi)[bi := (row_buttons k t ! gi ! bi)\<lparr>sb_active := v\<rparr>]]"
proof -
  have gi: "gi < length (step_groups_of k (step_count t) (steps t))"
    and bi: "bi < length (step_groups_of k (step_count t) (steps t) ! gi)"
    using assms by (simp_all add: row_buttons_def)
  show ?thesis using gi bi
    by (simp add: row_buttons_def step_groups_of_set_bool [OF gi bi] map_update step_button_active_listener)
qed

lemma row_buttons_nth:
  assumes "gi < length (row_buttons k t)" and "bi < length (row_buttons k t ! gi)"
  shows "row_buttons k t ! gi ! bi = (step_button_ref k (steps t) (gi * 4 + bi))\<lparr>sb_listener := Some (int k)\<rparr> \<and>
         gi * 4 + bi < step_count t"
proof -
  have gi: "gi < length (step_groups_of k (step_count t) (steps t))"
    and bi: "bi < length (step_groups_of k (step_count t) (steps t) ! gi)"
    using assms by (simp_all add: row_buttons_def)
  show ?thesis using step_groups_of_nth [OF gi bi] gi bi by (simp add: row_buttons_def)
qed

lemma map_map_nth:
  assumes "map (map f) G = H" and "gi < length G" and "bi < length (G ! gi)"
  shows "f (G ! gi ! bi) = H ! gi ! bi \<and> gi < length H \<and> bi < length (H ! gi)"
  using assms by auto

lemma toggle_step_valid:
  assumes "r < length (tracks e)" and "i < step_count (tracks e ! r)"
  shows "toggle_step r i e =
           (e\<lparr>tracks := (tracks e)[r := (tracks e ! r)\<lparr>steps := js_set_bool (steps (tracks e ! r)) i
                                         (\<not> js_get_bool (steps (tracks e ! r)) i)\<rparr>]\<rparr>,
            \<not> js_get_bool (steps (tracks e ! r)) i)"
  using assms by (simp add: toggle_step_def Let_def)

lemma click_step_effect:
  assumes g: "grid_inv e rows" and r: "r < length rows"
    and gi: "gi < length (step_groups (rows ! r))" and bi: "bi < length (step_groups (rows ! r) ! gi)"
  shows "fst (click_step r gi bi e rows) = js_state (engine_step (ToggleStep r (gi * 4 + bi)) e) \<and>
         gi * 4 + bi < step_count (tracks e ! r) \<and>
         grid_inv (fst (click_step r gi bi e rows)) (snd (click_step r gi bi e rows))"
proof -
  let ?G = "step_groups (rows ! r)"
  let ?t = "tracks e ! r"
  let ?RB = "row_buttons r ?t"
  let ?idx = "gi * 4 + bi"
  let ?b = "?G ! gi ! bi"
  have len: "length rows = length (tracks e)" and ok: "row_ok e r (rows ! r)" using g r by (simp_all add: grid_inv_iff)
  then have rt: "r < length (tracks e)" using r by simp
  have u: "map (map (\<lambda>b. b\<lparr>sb_playing := False\<rparr>)) ?G = ?RB" using ok by (simp add: row_ok_def)
  from map_map_nth [OF u gi bi] have bu: "?b\<lparr>sb_playing := False\<rparr> = ?RB ! gi ! bi"
    and giR: "gi < length ?RB" and biR: "bi < length (?RB ! gi)" by simp_all
  have ug: "map (\<lambda>b. b\<lparr>sb_playing := False\<rparr>) (?G ! gi) = ?RB ! gi"
    using arg_cong [OF u, of "\<lambda>X. X ! gi"] gi by simp
  from row_buttons_nth [OF giR biR] have rb: "?RB ! gi ! bi = (step_button_ref r (steps ?t) ?idx)\<lparr>sb_listener := Some (int r)\<rparr>"
    and lt: "?idx < step_count ?t" by simp_all
  have lst: "sb_listener ?b = Some (int r)" and stp: "sb_step ?b = string_of_nat ?idx"
    using arg_cong [OF bu, of sb_listener] arg_cong [OF bu, of sb_step] rb by (simp_all add: step_button_ref_def)
  let ?v = "\<not> js_get_bool (steps ?t) ?idx"
  let ?t' = "?t\<lparr>steps := js_set_bool (steps ?t) ?idx ?v\<rparr>"
  let ?e' = "e\<lparr>tracks := (tracks e)[r := ?t']\<rparr>"
  have tog: "js_toggle_step (int r) (parse_int (sb_step ?b)) e = (?e', ?v)"
    using rt lt by (simp add: stp parse_int_string_of_nat js_toggle_step_def toggle_step_valid del: of_nat_add of_nat_mult)
  let ?rows' = "rows[r := (rows ! r)\<lparr>step_groups := ?G[gi := (?G ! gi)[bi := ?b\<lparr>sb_active := ?v\<rparr>]]\<rparr>]"
  have click: "click_step r gi bi e rows = (?e', ?rows')"
    using r gi bi by (simp add: click_step_def lst tog)
  have eng: "?e' = js_state (engine_step (ToggleStep r ?idx) e)" using rt lt by (simp add: toggle_step_valid)
  have "row_ok ?e' k (?rows' ! k)" if k: "k < length rows" for k
  proof (cases "k = r")
    case True
    have "map (map (\<lambda>b. b\<lparr>sb_playing := False\<rparr>)) (?G[gi := (?G ! gi)[bi := ?b\<lparr>sb_active := ?v\<rparr>]]) =
            ?RB[gi := (?RB ! gi)[bi := (?RB ! gi ! bi)\<lparr>sb_active := ?v\<rparr>]]"
      using u bu gi bi ug by (simp add: map_update step_button_active_playing)
    also have "\<dots> = row_buttons r ?t'" by (rule row_buttons_set_bool [OF giR biR, symmetric])
    finally show ?thesis using True ok r rt by (simp add: row_ok_def)
  next
    case False
    with k g show ?thesis by (simp add: grid_inv_iff row_ok_def)
  qed
  then have "grid_inv ?e' ?rows'" using len by (simp add: grid_inv_iff)
  with click eng lt show ?thesis by simp
qed

lemma mark_in_group_unplay:
  "map (\<lambda>b. b\<lparr>sb_playing := False\<rparr>) (fst (mark_in_group key g)) = map (\<lambda>b. b\<lparr>sb_playing := False\<rparr>) g"
  by (induction g) (auto split: prod.split)

lemma mark_first_unplay:
  "map (map (\<lambda>b. b\<lparr>sb_playing := False\<rparr>)) (mark_first key gs) = map (map (\<lambda>b. b\<lparr>sb_playing := False\<rparr>)) gs"
proof (induction gs)
  case (Cons g gs)
  then show ?case using mark_in_group_unplay [of key g] by (auto split: prod.split bool.split)
qed simp

lemma mark_in_group_distinct:
  "distinct (map sb_step g) \<Longrightarrow>
     mark_in_group key g = (map (\<lambda>b. if sb_step b = key then b\<lparr>sb_playing := True\<rparr> else b) g, key \<in> sb_step ` set g)"
  by (induction g) (auto simp add: image_iff intro!: map_idI [symmetric])

lemma mark_first_distinct:
  "distinct (map sb_step (concat gs)) \<Longrightarrow>
     mark_first key gs = map (map (\<lambda>b. if sb_step b = key then b\<lparr>sb_playing := True\<rparr> else b)) gs"
proof (induction gs)
  case (Cons g gs)
  then have dg: "distinct (map sb_step g)" and dgs: "distinct (map sb_step (concat gs))"
    and disj: "sb_step ` set g \<inter> sb_step ` set (concat gs) = {}" by auto
  show ?case
  proof (cases "key \<in> sb_step ` set g")
    case True
    with disj have nk: "\<And>b. b \<in> set (concat gs) \<Longrightarrow> sb_step b \<noteq> key" by blast
    have "map (map (\<lambda>b. if sb_step b = key then b\<lparr>sb_playing := True\<rparr> else b)) gs = gs"
    proof (intro map_idI)
      fix x b assume "x \<in> set gs" "b \<in> set x"
      then have "sb_step b \<noteq> key" using nk by auto
      then show "(if sb_step b = key then b\<lparr>sb_playing := True\<rparr> else b) = b" by simp
    qed
    with True dg show ?thesis by (simp add: mark_in_group_distinct)
  next
    case False
    then have "map (\<lambda>b. if sb_step b = key then b\<lparr>sb_playing := True\<rparr> else b) g = g" by (auto intro!: map_idI)
    with False dg Cons.IH [OF dgs] show ?thesis by (simp add: mark_in_group_distinct)
  qed
qed simp

lemma row_ok_unplay:
  "row_ok e k r \<Longrightarrow> map (map (\<lambda>b. b\<lparr>sb_playing := False\<rparr>)) gs = map (map (\<lambda>b. b\<lparr>sb_playing := False\<rparr>)) (step_groups r) \<Longrightarrow>
     row_ok e k (r\<lparr>step_groups := gs\<rparr>)"
  by (simp add: row_ok_def)

lemma row_ok_get_track_data:
  "row_ok e k r \<Longrightarrow> k < length (tracks e) \<Longrightarrow> get_track_data e (parse_int (row_track r)) = Some (tracks e ! k)"
  by (simp add: row_ok_def parse_int_string_of_nat get_track_data_def)

lemma row_ok_update_row_indicators:
  assumes "row_ok e k r" and "k < length (tracks e)"
  shows "row_ok e k (update_row_indicators e g r)"
proof -
  let ?n = "step_count (tracks e ! k)"
  let ?G0 = "map (map (\<lambda>b. b\<lparr>sb_playing := False\<rparr>)) (step_groups r)"
  have "map (map (\<lambda>b. b\<lparr>sb_playing := False\<rparr>)) (if ?n = 0 then ?G0 else mark_first (string_of_nat (g mod ?n)) ?G0) =
          map (map (\<lambda>b. b\<lparr>sb_playing := False\<rparr>)) (step_groups r)"
    by (simp add: mark_first_unplay comp_def)
  with assms show ?thesis
    by (simp add: update_row_indicators_def row_ok_get_track_data Let_def row_ok_unplay)
qed

lemma grid_inv_update_step_indicators:
  "grid_inv e rows \<Longrightarrow> grid_inv e (update_step_indicators e g rows)"
  by (simp add: grid_inv_iff update_step_indicators_def row_ok_update_row_indicators)

lemma grid_inv_clear_step_indicators:
  "grid_inv e rows \<Longrightarrow> grid_inv e (clear_step_indicators rows)"
  by (simp add: grid_inv_iff clear_step_indicators_def map_buttons_def row_ok_def comp_def step_groups_of_unplay)

lemma concat_row_buttons:
  "concat (row_buttons k t) = map (\<lambda>j. (step_button_ref k (steps t) j)\<lparr>sb_listener := Some (int k)\<rparr>) [0..<step_count t]"
  by (simp add: row_buttons_def map_concat [symmetric] concat_step_groups)

lemma distinct_row_buttons: "distinct (map sb_step (concat (row_buttons k t)))"
proof -
  have "map sb_step (concat (row_buttons k t)) = map string_of_nat [0..<step_count t]"
    by (simp add: concat_row_buttons step_button_ref_def)
  moreover have "inj string_of_nat" by (auto intro: injI)
  ultimately show ?thesis by (simp add: distinct_map inj_on_subset [of _ UNIV])
qed

lemma patterns_update_track:
  assumes "\<And>t. step_count (f t) = step_count t \<and> steps (f t) = steps t"
  shows "patterns (update_track i f e) = patterns e"
proof (cases "i < length (tracks e)")
  case True
  have "map (\<lambda>t. (step_count t, steps t)) ((tracks e)[i := f (tracks e ! i)]) = map (\<lambda>t. (step_count t, steps t)) (tracks e)"
    using True by (intro nth_equalityI) (auto simp add: nth_list_update assms)
  with True show ?thesis by (simp add: patterns_def update_track_def)
qed (simp add: update_track_def)

lemma patterns_set_track_sound [simp]: "patterns (set_track_sound i name e) = patterns e"
  by (simp add: set_track_sound_def patterns_update_track)

lemma patterns_track_call:
  "(\<And>k e. patterns (f k e) = patterns e) \<Longrightarrow> patterns (track_call ti f e) = patterns e"
  by (simp add: track_call_def split: option.split)

lemma row_buttons_clear:
  "map (map (\<lambda>b. b\<lparr>sb_active := False\<rparr>)) (row_buttons k t) = row_buttons k (t\<lparr>steps := replicate (length (steps t)) False\<rparr>)"
  by (simp add: row_buttons_def step_groups_of_ref step_button_ref_def js_get_bool_def)

lemma grid_inv_pointwise:
  assumes "grid_inv e rows" and "length rows' = length rows"
    and "\<And>k. k < length rows \<Longrightarrow> row_ok e k (rows ! k) \<Longrightarrow> row_ok e' k (rows' ! k)"
    and "length (tracks e') = length (tracks e)"
  shows "grid_inv e' rows'"
  using assms by (simp add: grid_inv_iff)

lemma grid_inv_sequencer_clear_all:
  assumes "grid_inv e rows"
  shows "grid_inv (fst (sequencer_clear_all e rows)) (snd (sequencer_clear_all e rows))"
proof (rule grid_inv_pointwise [OF assms])
  fix k assume k: "k < length rows" and ok: "row_ok e k (rows ! k)"
  let ?G = "step_groups (rows ! k)"
  have kt: "k < length (tracks e)" using assms k by (simp add: grid_inv_iff)
  have "row_buttons k (tracks (clear_all e) ! k) = map (map (\<lambda>b. b\<lparr>sb_active := False\<rparr>)) (row_buttons k (tracks e ! k))"
    using kt by (simp add: clear_all_def row_buttons_clear)
  also have "\<dots> = map (map (\<lambda>b. b\<lparr>sb_active := False\<rparr>)) (map (map (\<lambda>b. b\<lparr>sb_playing := False\<rparr>)) ?G)"
    using ok by (simp add: row_ok_def)
  also have "\<dots> = map (map (\<lambda>x. x\<lparr>sb_playing := False, sb_active := False\<rparr>)) ?G" by simp
  finally have c: "map (map (\<lambda>x. x\<lparr>sb_playing := False, sb_active := False\<rparr>)) ?G = row_buttons k (tracks (clear_all e) ! k)" ..
  with ok k show "row_ok (fst (sequencer_clear_all e rows)) k (snd (sequencer_clear_all e rows) ! k)"
    by (simp add: row_ok_def sequencer_clear_all_def clear_step_indicators_def map_buttons_def comp_def
        step_button_active_playing step_groups_of_unplay)
qed (simp_all add: sequencer_clear_all_def clear_step_indicators_def map_buttons_def clear_all_def)

lemma grid_inv_select_sound:
  assumes "grid_inv e rows"
  shows "grid_inv (fst (select_sound r k e rows)) (snd (select_sound r k e rows))"
proof -
  have p: "patterns (track_call ti (\<lambda>i. set_track_sound i name) e) = patterns e" for ti name
    by (rule patterns_track_call) simp
  have "grid_inv e (rows[r := (rows ! r)\<lparr>sound_options := os\<rparr>])" for os
    by (cases "r < length rows"; rule grid_inv_pointwise [OF assms])
       (auto simp add: nth_list_update row_ok_def list_update_beyond)
  with assms show ?thesis by (simp add: select_sound_def Let_def grid_inv_patterns [OF p])
qed

lemma step_option_values_parse:
  "k < 3 \<Longrightarrow> parse_int ([''4'', ''8'', ''16''] ! k) = Some (int ([4, 8, 16] ! k))"
proof -
  have p4: "parse_int ''4'' = Some 4" using parse_int_string_of_nat [of 4] by (simp add: char_of_def bit_0)
  have p8: "parse_int ''8'' = Some 8" using parse_int_string_of_nat [of 8] by (simp add: char_of_def bit_0)
  have p16: "parse_int ''16'' = Some 16" using parse_int_string_of_nat [of 16] by (simp add: char_of_def bit_0)
  assume "k < 3"
  then have "k = 0 \<or> k = 1 \<or> k = 2" by auto
  with p4 p8 p16 show ?thesis by auto
qed

lemma set_track_step_count_ok:
  assumes "array_length_ok n" and "r < length (tracks e)"
  shows "set_track_step_count r n e = Inr (e\<lparr>tracks := (tracks e)[r := js_state (set_step_count n (tracks e ! r))]\<rparr>)"
  using assms by (simp add: set_track_step_count_def set_step_count_def Let_def)

lemma set_track_step_count_count:
  "array_length_ok n \<Longrightarrow> r < length (tracks e) \<Longrightarrow> step_count (tracks (js_state (set_track_step_count r n e)) ! r) = n"
  by (simp add: set_track_step_count_ok set_step_count_def Let_def)

lemma no_playing_clear_step_indicators:
  "list_all (\<lambda>row. list_all (list_all (\<lambda>b. \<not> sb_playing b)) (step_groups row)) (clear_step_indicators rows)"
  by (simp add: clear_step_indicators_def map_buttons_def list_all_iff)

lemma select_step_count_effect:
  assumes g: "grid_inv e rows" and r: "r < length rows" and k: "k < 3"
  shows "fst (select_step_count r k e rows) = engine_step (SetTrackStepCount r ([4, 8, 16] ! k)) e \<and>
         grid_inv (js_state (engine_step (SetTrackStepCount r ([4, 8, 16] ! k)) e)) (snd (select_step_count r k e rows)) \<and>
         list_all (\<lambda>row. list_all (list_all (\<lambda>b. \<not> sb_playing b)) (step_groups row)) (snd (select_step_count r k e rows))"
proof -
  let ?c = "[4, 8, 16] ! k :: nat"
  let ?opts = "step_options (rows ! r)"
  have len: "length rows = length (tracks e)" and ok: "row_ok e r (rows ! r)" using g r by (simp_all add: grid_inv_iff)
  have rt: "r < length (tracks e)" using r len by simp
  have vals: "map opt_value ?opts = [''4'', ''8'', ''16'']" using ok by (simp add: row_ok_def)
  have "length ?opts = 3" using arg_cong [OF vals, of length] by simp
  then have kl: "k < length ?opts" using k by simp
  have v: "opt_value (?opts ! k) = [''4'', ''8'', ''16''] ! k" by (subst vals [symmetric]) (simp add: kl)
  have pv: "parse_int (opt_value (?opts ! k)) = Some (int ?c)" using step_option_values_parse [OF k] v by simp
  have pt: "parse_int (row_track (rows ! r)) = Some (int r)" using ok by (simp add: row_ok_def parse_int_string_of_nat)
  have "k = 0 \<or> k = 1 \<or> k = 2" using k by auto
  then have "?c \<le> 16" by auto
  then have al: "array_length_ok ?c" by (simp add: array_length_ok_def)
  let ?e' = "e\<lparr>tracks := (tracks e)[r := js_state (set_step_count ?c (tracks e ! r))]\<rparr>"
  have st: "js_set_track_step_count (Some (int r)) (Some (int ?c)) e = Inr ?e'"
    using rt set_track_step_count_ok [OF al rt] by (simp add: js_set_track_step_count_def track_index_def)
  let ?rows1 = "rows[r := (rows ! r)\<lparr>step_options := map (\<lambda>opt. opt\<lparr>opt_selected := (opt_value opt = opt_value (?opts ! k))\<rparr>) ?opts\<rparr>]"
  have t1: "map row_track ?rows1 = map string_of_nat [0..<length ?rows1]"
  proof -
    have "map row_track ?rows1 = map row_track rows" using r by (intro nth_equalityI) (auto simp add: nth_list_update)
    then show ?thesis using grid_inv_row_tracks [OF g] by simp
  qed
  have cr: "create_track_step_buttons ?e' (Some (int r)) ?rows1 = ?rows1[r := (?rows1 ! r)\<lparr>step_groups := row_buttons r (tracks ?e' ! r)\<rparr>]"
    using r len by (intro create_track_step_buttons_std [OF t1]) simp_all
  let ?rows' = "clear_step_indicators (?rows1[r := (?rows1 ! r)\<lparr>step_groups := row_buttons r (tracks ?e' ! r)\<rparr>])"
  have sel: "select_step_count r k e rows = (Inr ?e', ?rows')"
    using r kl by (simp add: select_step_count_def Let_def pv pt st cr)
  have eng: "engine_step (SetTrackStepCount r ?c) e = Inr ?e'" using set_track_step_count_ok [OF al rt] by simp
  have "grid_inv ?e' ?rows'"
  proof (rule grid_inv_pointwise [OF g])
    fix j assume j: "j < length rows" and okj: "row_ok e j (rows ! j)"
    show "row_ok ?e' j (?rows' ! j)"
    proof (cases "j = r")
      case True
      with ok r rt show ?thesis
        by (simp add: row_ok_def clear_step_indicators_def map_buttons_def comp_def step_groups_of_unplay)
    next
      case False
      with okj j rt show ?thesis
        by (simp add: row_ok_def clear_step_indicators_def map_buttons_def comp_def step_groups_of_unplay)
    qed
  qed (simp_all add: clear_step_indicators_def map_buttons_def)
  with sel eng show ?thesis by (simp add: no_playing_clear_step_indicators)
qed

lemma grid_inv_sequencer_init:
  "grid_inv (fst (sequencer_init e (sequencer_render (tracks e) names)))
            (snd (sequencer_init e (sequencer_render (tracks e) names)))"
proof -
  let ?rows = "sequencer_render (tracks e) names"
  let ?n = "length (tracks e)"
  have len: "length ?rows = ?n" using sequencer_render_rows [of 0 "tracks e" names] render_rows_nth [of names 0 "tracks e"]
    by (simp add: sequencer_render_def)
  have rt: "row_track (?rows ! k) = string_of_nat k" and ro: "map opt_value (step_options (?rows ! k)) = [''4'', ''8'', ''16'']"
    if "k < ?n" for k
    using sequencer_render_rows [OF that, of names] by simp_all
  have tr: "map row_track ?rows = map string_of_nat [0..<length ?rows]"
    using len rt by (intro nth_equalityI) simp_all
  have "map (parse_int \<circ> row_track) ?rows = map (Some \<circ> int) [0..<?n]"
    using len rt by (intro nth_equalityI) (simp_all add: parse_int_string_of_nat)
  then have "create_all_track_step_buttons e ?rows = fold (\<lambda>k. create_track_step_buttons e (Some (int k))) [0..<?n] ?rows"
    unfolding create_all_track_step_buttons_def
    using fold_map [of "create_track_step_buttons e" "parse_int \<circ> row_track" ?rows]
          fold_map [of "create_track_step_buttons e" "Some \<circ> int" "[0..<?n]"]
    by (simp add: comp_def)
  also have "\<dots> = map (\<lambda>k. (?rows ! k)\<lparr>step_groups := row_buttons k (tracks e ! k)\<rparr>) [0..<?n]"
    using fold_create_track_step_buttons [OF tr, of e ?n] len by simp
  finally have c: "create_all_track_step_buttons e ?rows = map (\<lambda>k. (?rows ! k)\<lparr>step_groups := row_buttons k (tracks e ! k)\<rparr>) [0..<?n]" .
  have "grid_inv e (map (\<lambda>k. (?rows ! k)\<lparr>step_groups := row_buttons k (tracks e ! k)\<rparr>) [0..<?n])"
    using rt ro by (simp add: grid_inv_iff row_ok_def step_groups_of_unplay)
  moreover have "patterns (e\<lparr>on_step_play := True\<rparr>) = patterns e" by (simp add: patterns_def)
  ultimately show ?thesis using c grid_inv_patterns [of "e\<lparr>on_step_play := True\<rparr>" e] by (simp add: sequencer_init_def)
qed

subsection \<open>Properties of the sequencer\<close>

text \<open>
  C9: a click on a step button of a grid that shows the engine's patterns
  toggles exactly the step the button stands for, \<open>4 gi + bi\<close> of track
  \<open>r\<close>, as \<open>toggleStep\<close> does; the button then shows the new value, the
  negation of the old one, and the grid still shows the patterns.
\<close>

theorem click_step_toggles:
  assumes "grid_inv e rows" and "r < length rows"
    and "gi < length (step_groups (rows ! r))" and "bi < length (step_groups (rows ! r) ! gi)"
  shows "fst (click_step r gi bi e rows) = js_state (engine_step (ToggleStep r (gi * 4 + bi)) e) \<and>
         sb_active (step_groups (snd (click_step r gi bi e rows) ! r) ! gi ! bi) =
           (\<not> js_get_bool (steps (tracks e ! r)) (gi * 4 + bi)) \<and>
         grid_inv (fst (click_step r gi bi e rows)) (snd (click_step r gi bi e rows))"
proof -
  let ?e' = "fst (click_step r gi bi e rows)" and ?rows' = "snd (click_step r gi bi e rows)"
  have eff1: "?e' = js_state (engine_step (ToggleStep r (gi * 4 + bi)) e)"
    using click_step_effect [OF assms] by blast
  have eff2: "gi * 4 + bi < step_count (tracks e ! r)" and eff3: "grid_inv ?e' ?rows'"
    using click_step_effect [OF assms] by blast+
  note eff = eff1 eff2 eff3
  have rt: "r < length (tracks e)" using assms(1,2) by (simp add: grid_inv_iff)
  have ok: "row_ok ?e' r (?rows' ! r)" and l: "length ?rows' = length (tracks ?e')"
    using eff(3) assms(2) rt by (simp_all add: grid_inv_iff toggle_step_def eff(1) Let_def)
  have gi': "gi < length (step_groups (?rows' ! r))" and bi': "bi < length (step_groups (?rows' ! r) ! gi)"
    using assms(2-4) by (simp_all add: click_step_def Let_def split: option.split prod.split)
  let ?t' = "tracks ?e' ! r"
  have u: "map (map (\<lambda>b. b\<lparr>sb_playing := False\<rparr>)) (step_groups (?rows' ! r)) = row_buttons r ?t'"
    using ok by (simp add: row_ok_def)
  from map_map_nth [OF u gi' bi'] have b: "(step_groups (?rows' ! r) ! gi ! bi)\<lparr>sb_playing := False\<rparr> = row_buttons r ?t' ! gi ! bi"
    and giR: "gi < length (row_buttons r ?t')" and biR: "bi < length (row_buttons r ?t' ! gi)" by simp_all
  have "sb_active (step_groups (?rows' ! r) ! gi ! bi) = js_get_bool (steps ?t') (gi * 4 + bi)"
    using arg_cong [OF b, of sb_active] row_buttons_nth [OF giR biR] by (simp add: step_button_ref_def)
  moreover have "steps ?t' = js_set_bool (steps (tracks e ! r)) (gi * 4 + bi) (\<not> js_get_bool (steps (tracks e ! r)) (gi * 4 + bi))"
    using eff1 eff2 rt by (simp add: toggle_step_valid)
  ultimately show ?thesis using eff by simp
qed

text \<open>
  C11: when the engine reports the global step \<open>g\<close>, the row of a track with
  \<open>n > 0\<close> steps highlights exactly the button of step \<open>g mod n\<close>, and the
  grid still shows the patterns.
\<close>

theorem step_indicator_marks_current:
  assumes g: "grid_inv e rows" and r: "r < length rows" and n: "0 < step_count (tracks e ! r)"
  shows "map sb_playing (concat (step_groups (update_step_indicators e gs rows ! r))) =
           map (\<lambda>j. j = gs mod step_count (tracks e ! r)) [0..<step_count (tracks e ! r)] \<and>
         grid_inv e (update_step_indicators e gs rows)"
proof -
  let ?t = "tracks e ! r"
  let ?RB = "row_buttons r ?t"
  let ?key = "string_of_nat (gs mod step_count ?t)"
  have ok: "row_ok e r (rows ! r)" and rt: "r < length (tracks e)" using g r by (simp_all add: grid_inv_iff)
  have u: "map (map (\<lambda>b. b\<lparr>sb_playing := False\<rparr>)) (step_groups (rows ! r)) = ?RB" using ok by (simp add: row_ok_def)
  have "step_groups (update_step_indicators e gs rows ! r) = mark_first ?key ?RB"
    using r rt n ok u by (simp add: update_step_indicators_def update_row_indicators_def row_ok_get_track_data Let_def)
  also have "\<dots> = map (map (\<lambda>b. if sb_step b = ?key then b\<lparr>sb_playing := True\<rparr> else b)) ?RB"
    by (rule mark_first_distinct [OF distinct_row_buttons])
  finally have "map sb_playing (concat (step_groups (update_step_indicators e gs rows ! r))) =
                  map (\<lambda>j. string_of_nat j = ?key) [0..<step_count ?t]"
    by (simp add: map_concat [symmetric] concat_row_buttons step_button_ref_def)
  also have "\<dots> = map (\<lambda>j. j = gs mod step_count ?t) [0..<step_count ?t]" by auto
  finally show ?thesis using grid_inv_update_step_indicators [OF g] by simp
qed

text \<open>
  C32: choosing option \<open>k\<close> of a row's step-count selector calls
  \<open>setTrackStepCount\<close> with 4, 8 or 16, which never throws; the row is rebuilt
  with one button per step, no button stays highlighted, and the grid shows
  the new patterns.
\<close>

theorem select_step_count_rebuilds:
  assumes "grid_inv e rows" and "r < length rows" and "k < 3"
  shows "fst (select_step_count r k e rows) = engine_step (SetTrackStepCount r ([4, 8, 16] ! k)) e \<and>
         length (concat (step_groups (snd (select_step_count r k e rows) ! r))) = [4, 8, 16] ! k \<and>
         list_all (\<lambda>row. list_all (list_all (\<lambda>b. \<not> sb_playing b)) (step_groups row)) (snd (select_step_count r k e rows)) \<and>
         grid_inv (js_state (engine_step (SetTrackStepCount r ([4, 8, 16] ! k)) e)) (snd (select_step_count r k e rows))"
proof -
  let ?c = "[4, 8, 16] ! k :: nat"
  let ?e' = "js_state (engine_step (SetTrackStepCount r ?c) e)" and ?rows' = "snd (select_step_count r k e rows)"
  have eff1: "fst (select_step_count r k e rows) = engine_step (SetTrackStepCount r ?c) e"
    and eff2: "grid_inv ?e' ?rows'"
    and eff3: "list_all (\<lambda>row. list_all (list_all (\<lambda>b. \<not> sb_playing b)) (step_groups row)) ?rows'"
    using select_step_count_effect [OF assms] by blast+
  note eff = eff1 eff2 eff3
  have rt: "r < length (tracks e)" using assms(1,2) by (simp add: grid_inv_iff)
  have "k = 0 \<or> k = 1 \<or> k = 2" using assms(3) by auto
  then have al: "array_length_ok ?c" by (auto simp add: array_length_ok_def)
  have sc: "step_count (tracks ?e' ! r) = ?c"
    unfolding engine_step.simps by (rule set_track_step_count_count [OF al rt])
  have "row_ok ?e' r (?rows' ! r)" using eff(2) rt by (simp add: grid_inv_iff set_track_step_count_ok [OF al rt])
  then have "map (map (\<lambda>b. b\<lparr>sb_playing := False\<rparr>)) (step_groups (?rows' ! r)) = row_buttons r (tracks ?e' ! r)"
    by (simp add: row_ok_def)
  then have "length (concat (map (map (\<lambda>b. b\<lparr>sb_playing := False\<rparr>)) (step_groups (?rows' ! r)))) =
               length (concat (row_buttons r (tracks ?e' ! r)))" by simp
  then have "length (concat (step_groups (?rows' ! r))) = length (concat (row_buttons r (tracks ?e' ! r)))"
    by (simp add: length_concat comp_def)
  also have "\<dots> = ?c" by (simp only: concat_row_buttons length_map length_upt sc diff_zero)
  finally show ?thesis using eff by simp
qed

subsection \<open>Examples\<close>

lemmas demo_grid_simps = demo_grid_def demo_engine_def new_engine_def example_track_def sequencer_init_def
  create_all_track_step_buttons_def sequencer_render_def track_row_of_def create_track_step_buttons_def
  get_track_data_def track_index_def attach_click_listeners_def render_track_steps_def step_groups_of_def
  parse_int_string_of_nat measure_buttons_ref

lemma demo_grid_inv: "grid_inv demo_engine demo_grid"
proof -
  have "fst (sequencer_init demo_engine (sequencer_render (tracks demo_engine) [''kick-01''])) = demo_engine"
    by (simp add: sequencer_init_def demo_engine_def)
  then show ?thesis using grid_inv_sequencer_init [of demo_engine "[''kick-01'']"] by (simp add: demo_grid_def)
qed

lemma demo_grid_shape: "length demo_grid = 1 \<and> length (step_groups (demo_grid ! 0)) = 1 \<and>
   length (step_groups (demo_grid ! 0) ! 0) = 4"
  by (simp add: demo_grid_simps del: string_of_nat_small)

theorem click_step_toggles_witness:
  "grid_inv demo_engine demo_grid \<and> 0 < length demo_grid \<and> 0 < length (step_groups (demo_grid ! 0)) \<and>
   2 < length (step_groups (demo_grid ! 0) ! 0) \<and>
   fst (click_step 0 0 2 demo_engine demo_grid) = js_state (engine_step (ToggleStep 0 (0 * 4 + 2)) demo_engine) \<and>
   sb_active (step_groups (snd (click_step 0 0 2 demo_engine demo_grid) ! 0) ! 0 ! 2) =
     (\<not> js_get_bool (steps (tracks demo_engine ! 0)) (0 * 4 + 2)) \<and>
   grid_inv (fst (click_step 0 0 2 demo_engine demo_grid)) (snd (click_step 0 0 2 demo_engine demo_grid))"
proof -
  have h: "0 < length demo_grid" "0 < length (step_groups (demo_grid ! 0))" "2 < length (step_groups (demo_grid ! 0) ! 0)"
    using demo_grid_shape by simp_all
  from click_step_toggles [OF demo_grid_inv h] demo_grid_inv h show ?thesis by blast
qed

theorem step_indicator_marks_current_witness:
  "grid_inv demo_engine demo_grid \<and> 0 < length demo_grid \<and> 0 < step_count (tracks demo_engine ! 0) \<and>
   map sb_playing (concat (step_groups (update_step_indicators demo_engine 21 demo_grid ! 0))) =
     map (\<lambda>j. j = 21 mod step_count (tracks demo_engine ! 0)) [0..<step_count (tracks demo_engine ! 0)] \<and>
   grid_inv demo_engine (update_step_indicators demo_engine 21 demo_grid)"
proof -
  have n: "0 < step_count (tracks demo_engine ! 0)" by (simp add: demo_engine_def example_track_def)
  have r: "0 < length demo_grid" using demo_grid_shape by simp
  from step_indicator_marks_current [OF demo_grid_inv r n, of 21] demo_grid_inv r n show ?thesis by blast
qed

theorem select_step_count_rebuilds_witness:
  "grid_inv demo_engine demo_grid \<and> 0 < length demo_grid \<and> (1::nat) < 3 \<and>
   fst (select_step_count 0 1 demo_engine demo_grid) = engine_step (SetTrackStepCount 0 ([4, 8, 16] ! 1)) demo_engine \<and>
   length (concat (step_groups (snd (select_step_count 0 1 demo_engine demo_grid) ! 0))) = [4, 8, 16] ! 1 \<and>
   list_all (\<lambda>row. list_all (list_all (\<lambda>b. \<not> sb_playing b)) (step_groups row)) (snd (select_step_count 0 1 demo_engine demo_grid)) \<and>
   grid_inv (js_state (engine_step (SetTrackStepCount 0 ([4, 8, 16] ! 1)) demo_engine)) (snd (select_step_count 0 1 demo_engine demo_grid))"
  proof -
  have r: "0 < length demo_grid" using demo_grid_shape by simp
  from select_step_count_rebuilds [OF demo_grid_inv r, of 1] demo_grid_inv r show ?thesis by simp
qed

end
