(* ===== verification/WavEncoder.thy ===== *)
theory WavEncoder
  imports Prelude
begin

text \<open>
  \<open>src/src/utils/WavEncoder.js\<close>: \<open>downloadAudio(buffer, filename)\<close> allocates an
  \<open>ArrayBuffer\<close> of \<open>44 + 2 * length * channels\<close> zero bytes, writes the RIFF
  header and the interleaved 16-bit samples through a \<open>DataView\<close>, and hands the
  bytes to the browser as a download. The model keeps the byte array and every
  write; a \<open>DataView\<close> write out of bounds throws \<open>RangeError\<close> (\<open>None\<close>). The
  \<open>Blob\<close>, the object URL and the anchor element are DOM effects and are not
  modelled: the result is the file name with the bytes.

  An \<open>AudioBuffer\<close> has one sample array per channel, all of length
  \<open>buffer.length\<close> (\<open>audio_buffer_wf\<close>); \<open>numberOfChannels\<close> is the number of
  arrays.
\<close>

record audio_buffer =
  buf_length :: nat
  buf_sample_rate :: nat
  channel_data :: "real list list"

definition number_of_channels :: "audio_buffer \<Rightarrow> nat" where
  "number_of_channels b = length (channel_data b)"

definition audio_buffer_wf :: "audio_buffer \<Rightarrow> bool" where
  "audio_buffer_wf b \<longleftrightarrow> (\<forall>ch \<in> set (channel_data b). length ch = buf_length b)"

subsection \<open>\<open>DataView\<close> writes\<close>

definition le16 :: "16 word \<Rightarrow> byte list" where
  "le16 w = [ucast w, ucast (drop_bit 8 w)]"

definition le32 :: "32 word \<Rightarrow> byte list" where
  "le32 w = [ucast w, ucast (drop_bit 8 w), ucast (drop_bit 16 w), ucast (drop_bit 24 w)]"

text \<open>Bytes \<open>off ..< off + length bs\<close> replaced, or \<open>RangeError\<close> past the end.\<close>

definition dv_write :: "nat \<Rightarrow> byte list \<Rightarrow> byte list \<Rightarrow> byte list option" where
  "dv_write off bs buf =
     (if off + length bs \<le> length buf then Some (take off buf @ bs @ drop (off + length bs) buf)
      else None)"

definition set_uint16 :: "nat \<Rightarrow> nat \<Rightarrow> byte list \<Rightarrow> byte list option" where
  "set_uint16 off n buf = dv_write off (le16 (to_uint16 n)) buf"

definition set_uint32 :: "nat \<Rightarrow> nat \<Rightarrow> byte list \<Rightarrow> byte list option" where
  "set_uint32 off n buf = dv_write off (le32 (to_uint32 n)) buf"

text \<open>\<open>writeString(offset, string)\<close>, lines 13--17: \<open>setUint8(offset + i, string.charCodeAt(i))\<close>.\<close>

fun write_string :: "nat \<Rightarrow> string \<Rightarrow> byte list \<Rightarrow> byte list option" where
  "write_string off [] buf = Some buf"
| "write_string off (c # cs) buf =
     (case dv_write off [of_char c] buf of
        None \<Rightarrow> None
      | Some buf' \<Rightarrow> write_string (Suc off) cs buf')"

subsection \<open>The sample loop\<close>

text \<open>
  \<open>buffer.getChannelData(channel)[i]\<close>: \<open>undefined\<close> past the end of the array,
  which becomes \<open>NaN\<close> through \<open>Math.min\<close> and \<open>Math.max\<close> and is written as 0.
\<close>

definition sample_at :: "real list \<Rightarrow> nat \<Rightarrow> real option" where
  "sample_at ch i = (if i < length ch then Some (ch ! i) else None)"

text \<open>\<open>view.setInt16(offset, Math.max(-1, Math.min(1, sample)) * 0x7FFF, true)\<close>, lines 37--38.\<close>

definition quantize :: "real option \<Rightarrow> 16 word" where
  "quantize s = (case s of None \<Rightarrow> 0 | Some x \<Rightarrow> to_int16 (js_clamp (-1) 1 x * 32767))"

text \<open>The inner loop over the channels of frame \<open>i\<close>, lines 35--40: the offset and the bytes.\<close>

fun write_channels :: "real list list \<Rightarrow> nat \<Rightarrow> nat \<Rightarrow> byte list \<Rightarrow> (nat \<times> byte list) option" where
  "write_channels [] i off buf = Some (off, buf)"
| "write_channels (ch # chs) i off buf =
     (case dv_write off (le16 (quantize (sample_at ch i))) buf of
        None \<Rightarrow> None
      | Some buf' \<Rightarrow> write_channels chs i (off + 2) buf')"

text \<open>The outer loop over the frames, lines 34--41, from frame \<open>i\<close> with \<open>k\<close> frames left.\<close>

fun write_frames :: "real list list \<Rightarrow> nat \<Rightarrow> nat \<Rightarrow> nat \<Rightarrow> byte list \<Rightarrow> (nat \<times> byte list) option" where
  "write_frames chs i 0 off buf = Some (off, buf)"
| "write_frames chs i (Suc k) off buf =
     (case write_channels chs i off buf of
        None \<Rightarrow> None
      | Some (off', buf') \<Rightarrow> write_frames chs (Suc i) k off' buf')"

subsection \<open>\<open>downloadAudio\<close>\<close>

text \<open>The bytes of the file, lines 2--41.\<close>

definition wav_bytes :: "audio_buffer \<Rightarrow> byte list option" where
  "wav_bytes b =
     (let num_of_chan = number_of_channels b;
          total_length = buf_length b * num_of_chan;
          sample_rate = buf_sample_rate b;
          bytes_per_sample = 2;
          block_align = num_of_chan * bytes_per_sample;
          byte_rate = sample_rate * block_align;
          view = replicate (44 + total_length * bytes_per_sample) 0
      in do {
           view \<leftarrow> write_string 0 ''RIFF'' view;
           view \<leftarrow> set_uint32 4 (36 + total_length * bytes_per_sample) view;
           view \<leftarrow> write_string 8 ''WAVE'' view;
           view \<leftarrow> write_string 12 ''fmt '' view;
           view \<leftarrow> set_uint32 16 16 view;
           view \<leftarrow> set_uint16 20 1 view;
           view \<leftarrow> set_uint16 22 num_of_chan view;
           view \<leftarrow> set_uint32 24 sample_rate view;
           view \<leftarrow> set_uint32 28 byte_rate view;
           view \<leftarrow> set_uint16 32 block_align view;
           view \<leftarrow> set_uint16 34 (bytes_per_sample * 8) view;
           view \<leftarrow> write_string 36 ''data'' view;
           view \<leftarrow> set_uint32 40 (total_length * bytes_per_sample) view;
           r \<leftarrow> write_frames (channel_data b) 0 (buf_length b) 44 view;
           Some (snd r)
         })"

text \<open>\<open>downloadAudio(buffer, filename = 'beat.wav')\<close>: the file the browser saves.\<close>

definition download_audio :: "audio_buffer \<Rightarrow> string option \<Rightarrow> (string \<times> byte list) option" where
  "download_audio b filename =
     map_option (\<lambda>bytes. (case filename of None \<Rightarrow> ''beat.wav'' | Some f \<Rightarrow> f, bytes)) (wav_bytes b)"

subsection \<open>The canonical layout and its decoder\<close>

text \<open>
  The layout the WAV format prescribes, written as one list: the 44-byte header,
  then for each frame the samples of all channels, 16-bit little-endian.
\<close>

definition ascii :: "string \<Rightarrow> byte list" where
  "ascii s = map of_char s"

definition wav_header :: "nat \<Rightarrow> nat \<Rightarrow> nat \<Rightarrow> byte list" where
  "wav_header ch sr frames =
     ascii ''RIFF'' @ le32 (to_uint32 (36 + frames * ch * 2)) @ ascii ''WAVE'' @ ascii ''fmt '' @
     le32 (to_uint32 16) @ le16 (to_uint16 1) @ le16 (to_uint16 ch) @ le32 (to_uint32 sr) @
     le32 (to_uint32 (sr * (ch * 2))) @ le16 (to_uint16 (ch * 2)) @ le16 (to_uint16 16) @
     ascii ''data'' @ le32 (to_uint32 (frames * ch * 2))"

definition pcm_frame :: "real list list \<Rightarrow> nat \<Rightarrow> byte list" where
  "pcm_frame chs i = concat (map (\<lambda>ch. le16 (quantize (sample_at ch i))) chs)"

definition pcm_data :: "real list list \<Rightarrow> nat \<Rightarrow> byte list" where
  "pcm_data chs frames = concat (map (pcm_frame chs) [0..<frames])"

definition dec_le16 :: "byte list \<Rightarrow> 16 word" where
  "dec_le16 bs = ucast (bs ! 0) OR push_bit 8 (ucast (bs ! 1))"

definition dec_le32 :: "byte list \<Rightarrow> 32 word" where
  "dec_le32 bs =
     ucast (bs ! 0) OR push_bit 8 (ucast (bs ! 1)) OR push_bit 16 (ucast (bs ! 2)) OR
     push_bit 24 (ucast (bs ! 3))"

text \<open>Reading a file back: header fields by offset, and sample \<open>c\<close> of frame \<open>i\<close> as a float.\<close>

definition field16 :: "byte list \<Rightarrow> nat \<Rightarrow> nat" where
  "field16 bs off = unat (dec_le16 (take 2 (drop off bs)))"

definition field32 :: "byte list \<Rightarrow> nat \<Rightarrow> nat" where
  "field32 bs off = unat (dec_le32 (take 4 (drop off bs)))"

definition decode_sample :: "byte list \<Rightarrow> nat \<Rightarrow> nat \<Rightarrow> nat \<Rightarrow> real" where
  "decode_sample bs ch i c = real_of_int (sint (dec_le16 (take 2 (drop (44 + 2 * (i * ch + c)) bs)))) / 32767"

text \<open>A stereo buffer of two frames; the second left sample is beyond full scale.\<close>

definition example_buffer :: audio_buffer where
  "example_buffer = \<lparr>buf_length = 2, buf_sample_rate = 44100, channel_data = [[1 / 2, 2], [- 1 / 4, - 3]]\<rparr>"

subsection \<open>Writes into the zero-filled buffer\<close>

lemma dv_write_append:
  assumes "off = length pre" and "length bs \<le> k"
  shows "dv_write off bs (pre @ replicate k 0) = Some (pre @ bs @ replicate (k - length bs) 0)"
  using assms by (simp add: dv_write_def)

lemma write_string_append:
  assumes "off = length pre" and "length s \<le> k"
  shows "write_string off s (pre @ replicate k 0) = Some (pre @ ascii s @ replicate (k - length s) 0)"
  using assms
proof (induction s arbitrary: off pre k)
  case Nil
  then show ?case by (simp add: ascii_def)
next
  case (Cons c cs)
  then obtain k' where k: "k = Suc k'" by (cases k) auto
  have "dv_write off [of_char c] (pre @ replicate k 0) = Some ((pre @ [of_char c]) @ replicate k' 0)"
    using Cons.prems k by (simp add: dv_write_def)
  moreover have "write_string (Suc off) cs ((pre @ [of_char c]) @ replicate k' 0) =
                   Some ((pre @ [of_char c]) @ ascii cs @ replicate (k' - length cs) 0)"
    using Cons.prems k by (intro Cons.IH) simp_all
  ultimately show ?case using k by (simp add: ascii_def)
qed

lemma length_le16 [simp]: "length (le16 w) = 2"
  by (simp add: le16_def)

lemma length_le32 [simp]: "length (le32 w) = 4"
  by (simp add: le32_def)

lemma length_ascii [simp]: "length (ascii s) = length s"
  by (simp add: ascii_def)

lemma length_pcm_frame [simp]: "length (pcm_frame chs i) = 2 * length chs"
  by (induction chs) (simp_all add: pcm_frame_def)

lemma write_channels_append:
  assumes "off = length pre" and "2 * length chs \<le> k"
  shows "write_channels chs i off (pre @ replicate k 0) =
           Some (off + 2 * length chs, pre @ pcm_frame chs i @ replicate (k - 2 * length chs) 0)"
  using assms
proof (induction chs arbitrary: off pre k)
  case Nil
  then show ?case by (simp add: pcm_frame_def)
next
  case (Cons ch chs)
  let ?w = "le16 (quantize (sample_at ch i))"
  have "dv_write off ?w (pre @ replicate k 0) = Some ((pre @ ?w) @ replicate (k - 2) 0)"
    using Cons.prems by (simp add: dv_write_def)
  moreover have "write_channels chs i (off + 2) ((pre @ ?w) @ replicate (k - 2) 0) =
      Some (off + 2 + 2 * length chs, (pre @ ?w) @ pcm_frame chs i @ replicate (k - 2 - 2 * length chs) 0)"
    using Cons.prems by (intro Cons.IH) simp_all
  ultimately show ?case by (simp add: pcm_frame_def algebra_simps)
qed

lemma write_frames_append:
  assumes "off = length pre" and "2 * n * length chs \<le> k"
  shows "write_frames chs i n off (pre @ replicate k 0) =
           Some (off + 2 * n * length chs,
                 pre @ concat (map (pcm_frame chs) [i..<i + n]) @ replicate (k - 2 * n * length chs) 0)"
  using assms
proof (induction n arbitrary: i off pre k)
  case 0
  then show ?case by simp
next
  case (Suc n)
  have wc: "write_channels chs i off (pre @ replicate k 0) =
      Some (off + 2 * length chs, (pre @ pcm_frame chs i) @ replicate (k - 2 * length chs) 0)"
    using Suc.prems by (simp add: write_channels_append)
  have "write_frames chs (Suc i) n (off + 2 * length chs) ((pre @ pcm_frame chs i) @ replicate (k - 2 * length chs) 0) =
      Some (off + 2 * length chs + 2 * n * length chs,
            (pre @ pcm_frame chs i) @ concat (map (pcm_frame chs) [Suc i..<Suc i + n]) @
              replicate (k - 2 * length chs - 2 * n * length chs) 0)"
    using Suc.prems by (intro Suc.IH) (simp_all add: algebra_simps)
  moreover have "[i..<i + Suc n] = i # [Suc i..<Suc i + n]"
    by (simp add: upt_rec)
  ultimately show ?case using wc by (simp add: algebra_simps)
qed


lemma write_frames_after_header:
  assumes "length buf = 44 + k" and "drop 44 buf = replicate k 0" and "2 * n * length chs \<le> k"
  shows "write_frames chs 0 n 44 buf =
           Some (44 + 2 * n * length chs, take 44 buf @ pcm_data chs n @ replicate (k - 2 * n * length chs) 0)"
proof -
  have "buf = take 44 buf @ replicate k 0"
    using assms(2) by (metis append_take_drop_id)
  moreover have "44 = length (take 44 buf)" using assms(1) by simp
  ultimately show ?thesis
    using write_frames_append [of 44 "take 44 buf" n chs k 0] assms(3)
    by (simp add: pcm_data_def)
qed

lemma header_writes:
  fixes k :: nat
  shows "do {
           view \<leftarrow> write_string 0 ''RIFF'' (replicate (44 + k) 0);
           view \<leftarrow> set_uint32 4 (36 + k) view;
           view \<leftarrow> write_string 8 ''WAVE'' view;
           view \<leftarrow> write_string 12 ''fmt '' view;
           view \<leftarrow> set_uint32 16 16 view;
           view \<leftarrow> set_uint16 20 1 view;
           view \<leftarrow> set_uint16 22 ch view;
           view \<leftarrow> set_uint32 24 sr view;
           view \<leftarrow> set_uint32 28 br view;
           view \<leftarrow> set_uint16 32 ba view;
           view \<leftarrow> set_uint16 34 16 view;
           view \<leftarrow> write_string 36 ''data'' view;
           set_uint32 40 k view
         } =
         Some (ascii ''RIFF'' @ le32 (to_uint32 (36 + k)) @ ascii ''WAVE'' @ ascii ''fmt '' @
               le32 (to_uint32 16) @ le16 (to_uint16 1) @ le16 (to_uint16 ch) @ le32 (to_uint32 sr) @
               le32 (to_uint32 br) @ le16 (to_uint16 ba) @ le16 (to_uint16 16) @
               ascii ''data'' @ le32 (to_uint32 k) @ replicate k 0)"
  by (simp add: set_uint32_def set_uint16_def dv_write_def ascii_def le32_def le16_def)


lemma length_wav_header [simp]: "length (wav_header ch sr n) = 44"
  by (simp add: wav_header_def)

text \<open>
  C20: \<open>downloadAudio\<close> never throws \<open>RangeError\<close>: every \<open>DataView\<close> write of lines
  19--41 stays inside the buffer allocated on line 10, and the bytes written are
  exactly the canonical file, the 44-byte header followed by the interleaved
  16-bit little-endian samples, frame after frame.
\<close>

theorem wav_bytes_layout:
  "wav_bytes b = Some (wav_header (number_of_channels b) (buf_sample_rate b) (buf_length b) @
                       pcm_data (channel_data b) (buf_length b))"
proof -
  let ?ch = "number_of_channels b" and ?n = "buf_length b" and ?sr = "buf_sample_rate b"
  let ?k = "?n * ?ch * 2"
  let ?hdr = "wav_header ?ch ?sr ?n"
  have hw: "do {
           view \<leftarrow> write_string 0 ''RIFF'' (replicate (44 + ?k) 0);
           view \<leftarrow> set_uint32 4 (36 + ?k) view;
           view \<leftarrow> write_string 8 ''WAVE'' view;
           view \<leftarrow> write_string 12 ''fmt '' view;
           view \<leftarrow> set_uint32 16 16 view;
           view \<leftarrow> set_uint16 20 1 view;
           view \<leftarrow> set_uint16 22 ?ch view;
           view \<leftarrow> set_uint32 24 ?sr view;
           view \<leftarrow> set_uint32 28 (?sr * (?ch * 2)) view;
           view \<leftarrow> set_uint16 32 (?ch * 2) view;
           view \<leftarrow> set_uint16 34 16 view;
           view \<leftarrow> write_string 36 ''data'' view;
           set_uint32 40 ?k view
         } = Some (?hdr @ replicate ?k 0)"
    using header_writes [of ?k ?ch ?sr "?sr * (?ch * 2)" "?ch * 2"] by (simp add: wav_header_def)
  have wf: "write_frames (channel_data b) 0 ?n 44 (?hdr @ replicate ?k 0) =
              Some (44 + 2 * ?n * ?ch, ?hdr @ pcm_data (channel_data b) ?n)"
    using write_frames_after_header [of "?hdr @ replicate ?k 0" ?k ?n "channel_data b"]
    by (simp add: number_of_channels_def algebra_simps)
  have "wav_bytes b = Option.bind (do {
           view \<leftarrow> write_string 0 ''RIFF'' (replicate (44 + ?k) 0);
           view \<leftarrow> set_uint32 4 (36 + ?k) view;
           view \<leftarrow> write_string 8 ''WAVE'' view;
           view \<leftarrow> write_string 12 ''fmt '' view;
           view \<leftarrow> set_uint32 16 16 view;
           view \<leftarrow> set_uint16 20 1 view;
           view \<leftarrow> set_uint16 22 ?ch view;
           view \<leftarrow> set_uint32 24 ?sr view;
           view \<leftarrow> set_uint32 28 (?sr * (?ch * 2)) view;
           view \<leftarrow> set_uint16 32 (?ch * 2) view;
           view \<leftarrow> set_uint16 34 16 view;
           view \<leftarrow> write_string 36 ''data'' view;
           set_uint32 40 ?k view
         }) (\<lambda>view. Option.bind (write_frames (channel_data b) 0 ?n 44 view) (\<lambda>r. Some (snd r)))"
    by (simp add: wav_bytes_def Let_def algebra_simps)
  also have "\<dots> = Option.bind (Some (?hdr @ replicate ?k 0))
                    (\<lambda>view. Option.bind (write_frames (channel_data b) 0 ?n 44 view) (\<lambda>r. Some (snd r)))"
    by (simp only: hw)
  also have "\<dots> = Some (?hdr @ pcm_data (channel_data b) ?n)"
    using wf by simp
  finally show ?thesis .
qed

subsection \<open>Samples\<close>

lemma dec_le16_le16 [simp]: "dec_le16 (le16 w) = w"
  unfolding le16_def dec_le16_def
  by (rule bit_word_eqI) (auto simp add: bit_simps)

lemma dec_le32_le32 [simp]: "dec_le32 (le32 w) = w"
  unfolding le32_def dec_le32_def
  apply (rule bit_word_eqI)
  apply (auto simp add: bit_simps)
  subgoal for n by (cases "24 \<le> n") simp_all
  done

lemma drop_concat_fixed:
  assumes "\<forall>x \<in> set xs. length (f x) = w" and "j \<le> length xs"
  shows "drop (w * j) (concat (map f xs) @ ys) = concat (map f (drop j xs)) @ ys"
  using assms
proof (induction xs arbitrary: j)
  case Nil
  then show ?case by simp
next
  case (Cons x xs)
  show ?case
  proof (cases j)
    case 0
    then show ?thesis by simp
  next
    case (Suc j')
    with Cons.prems have "drop (w * j') (concat (map f xs) @ ys) = concat (map f (drop j' xs)) @ ys"
      by (intro Cons.IH) simp_all
    with Suc Cons.prems show ?thesis by simp
  qed
qed

lemma take_drop_concat_fixed:
  assumes "\<forall>x \<in> set xs. length (f x) = w" and "j < length xs"
  shows "take w (drop (w * j) (concat (map f xs) @ ys)) = f (xs ! j)"
proof -
  have "drop j xs = xs ! j # drop (Suc j) xs" using assms(2) by (simp add: Cons_nth_drop_Suc)
  then show ?thesis using assms drop_concat_fixed [of xs f w j ys] by simp
qed

lemma pcm_data_sample:
  assumes "i < n" and "c < length chs"
  shows "take 2 (drop (44 + 2 * (i * length chs + c)) (wav_header ch sr n' @ pcm_data chs n)) =
           le16 (quantize (sample_at (chs ! c) i))"
proof -
  let ?C = "length chs"
  have "drop (44 + 2 * (i * ?C + c)) (wav_header ch sr n' @ pcm_data chs n) =
          drop (2 * c) (drop ((2 * ?C) * i) (concat (map (pcm_frame chs) [0..<n]) @ []))"
    by (simp add: pcm_data_def algebra_simps)
  also have "drop ((2 * ?C) * i) (concat (map (pcm_frame chs) [0..<n]) @ []) =
               concat (map (pcm_frame chs) (drop i [0..<n]))"
    using drop_concat_fixed [of "[0..<n]" "pcm_frame chs" "2 * ?C" i "[]"] assms(1) by simp
  also have "drop i [0..<n] = i # [Suc i..<n]" using assms(1) by (simp only: drop_upt) (simp add: upt_conv_Cons)
  finally have "drop (44 + 2 * (i * ?C + c)) (wav_header ch sr n' @ pcm_data chs n) =
                  drop (2 * c) (pcm_frame chs i @ concat (map (pcm_frame chs) [Suc i..<n]))"
    by simp
  moreover have "take 2 (drop (2 * c) (pcm_frame chs i @ concat (map (pcm_frame chs) [Suc i..<n]))) =
                   le16 (quantize (sample_at (chs ! c) i))"
    unfolding pcm_frame_def using assms(2) by (subst take_drop_concat_fixed) simp_all
  ultimately show ?thesis by simp
qed

lemma sint_quantize:
  "sint (quantize (Some x)) = js_trunc (js_clamp (-1) 1 x * 32767)"
proof -
  have "\<bar>js_clamp (-1) 1 x * 32767\<bar> < 32768"
    using js_clamp_bounds [of "-1" 1 x] unfolding abs_less_iff by linarith
  then show ?thesis by (simp add: quantize_def sint_to_int16)
qed

text \<open>
  C6: WAV round trip: for a well-formed buffer, decoding sample \<open>c\<close> of frame \<open>i\<close>
  from the bytes at the offset the header layout prescribes recovers the input
  sample clamped to \<open>[-1, 1]\<close> to within \<open>1/32767\<close>.
\<close>

theorem wav_sample_roundtrip:
  assumes "audio_buffer_wf b" and "i < buf_length b" and "c < number_of_channels b"
  shows "\<exists>bytes. wav_bytes b = Some bytes \<and>
           \<bar>decode_sample bytes (number_of_channels b) i c - js_clamp (-1) 1 (channel_data b ! c ! i)\<bar> < 1 / 32767"
proof -
  let ?chs = "channel_data b"
  let ?y = "js_clamp (-1) 1 (?chs ! c ! i) * 32767"
  have ci: "c < length ?chs" using assms(3) by (simp add: number_of_channels_def)
  then have "i < length (?chs ! c)" using assms(1,2) by (simp add: audio_buffer_wf_def)
  then have s: "sample_at (?chs ! c) i = Some (?chs ! c ! i)" by (simp add: sample_at_def)
  let ?bytes = "wav_header (number_of_channels b) (buf_sample_rate b) (buf_length b) @
                  pcm_data ?chs (buf_length b)"
  have d: "decode_sample ?bytes (number_of_channels b) i c =
          real_of_int (js_trunc ?y) / 32767"
    using pcm_data_sample [OF assms(2) ci] s
    by (simp add: decode_sample_def number_of_channels_def sint_quantize)
  have m: "\<bar>real_of_int (js_trunc ?y) / 32767 - js_clamp (-1) 1 (?chs ! c ! i)\<bar> < 1 / 32767"
    using js_trunc_error [of ?y] unfolding abs_less_iff by (simp add: field_simps)
  show ?thesis
  proof (intro exI conjI)
    show "wav_bytes b = Some ?bytes" by (rule wav_bytes_layout)
    show "\<bar>decode_sample ?bytes (number_of_channels b) i c - js_clamp (-1) 1 (?chs ! c ! i)\<bar> < 1 / 32767"
      unfolding d by (rule m)
  qed
qed

theorem wav_sample_roundtrip_witness:
  "\<exists>bytes. wav_bytes example_buffer = Some bytes \<and>
     \<bar>decode_sample bytes (number_of_channels example_buffer) 1 0 -
        js_clamp (-1) 1 (channel_data example_buffer ! 0 ! 1)\<bar> < 1 / 32767"
  by (rule wav_sample_roundtrip)
     (simp_all add: audio_buffer_wf_def number_of_channels_def example_buffer_def)

subsection \<open>Header fields and quantisation\<close>

lemma unat_to_uint32_mod: "unat (to_uint32 n) = n mod 2 ^ 32"
  by (simp add: to_uint32_def unat_of_nat)

lemma unat_to_uint16_mod: "unat (to_uint16 n) = n mod 2 ^ 16"
  by (simp add: to_uint16_def unat_of_nat)

lemma wav_header_fields:
  "take 4 (wav_header ch sr n @ rest) = ascii ''RIFF'' \<and>
   field32 (wav_header ch sr n @ rest) 4 = (36 + n * ch * 2) mod 2 ^ 32 \<and>
   take 4 (drop 8 (wav_header ch sr n @ rest)) = ascii ''WAVE'' \<and>
   take 4 (drop 12 (wav_header ch sr n @ rest)) = ascii ''fmt '' \<and>
   field32 (wav_header ch sr n @ rest) 16 = 16 \<and>
   field16 (wav_header ch sr n @ rest) 20 = 1 \<and>
   field16 (wav_header ch sr n @ rest) 22 = ch mod 2 ^ 16 \<and>
   field32 (wav_header ch sr n @ rest) 24 = sr mod 2 ^ 32 \<and>
   field32 (wav_header ch sr n @ rest) 28 = (sr * (ch * 2)) mod 2 ^ 32 \<and>
   field16 (wav_header ch sr n @ rest) 32 = (ch * 2) mod 2 ^ 16 \<and>
   field16 (wav_header ch sr n @ rest) 34 = 16 \<and>
   take 4 (drop 36 (wav_header ch sr n @ rest)) = ascii ''data'' \<and>
   field32 (wav_header ch sr n @ rest) 40 = (n * ch * 2) mod 2 ^ 32"
  by (simp add: wav_header_def field16_def field32_def unat_to_uint32_mod unat_to_uint16_mod)


lemma length_pcm_data [simp]: "length (pcm_data chs n) = n * (2 * length chs)"
  by (induction n) (simp_all add: pcm_data_def)

text \<open>
  C7: header fields: the file always exists and has \<open>44 + frames * channels * 2\<close>
  bytes; \<open>ChunkSize\<close> is \<open>36 + dataBytes\<close>, \<open>ByteRate\<close> is
  \<open>sampleRate * blockAlign\<close>, \<open>BlockAlign\<close> is \<open>channels * 2\<close> and
  \<open>Subchunk2Size\<close> is \<open>frames * channels * 2\<close>, each as the \<open>setUint32\<close> or
  \<open>setUint16\<close> that writes it reduces it (modulo \<open>2^32\<close> or \<open>2^16\<close>).
\<close>

theorem wav_header_consistent:
  "\<exists>bytes. wav_bytes b = Some bytes \<and>
     length bytes = 44 + buf_length b * number_of_channels b * 2 \<and>
     take 4 bytes = ascii ''RIFF'' \<and>
     field32 bytes 4 = (36 + buf_length b * number_of_channels b * 2) mod 2 ^ 32 \<and>
     take 4 (drop 8 bytes) = ascii ''WAVE'' \<and> take 4 (drop 12 bytes) = ascii ''fmt '' \<and>
     field32 bytes 16 = 16 \<and> field16 bytes 20 = 1 \<and>
     field16 bytes 22 = number_of_channels b mod 2 ^ 16 \<and>
     field32 bytes 24 = buf_sample_rate b mod 2 ^ 32 \<and>
     field32 bytes 28 = (buf_sample_rate b * (number_of_channels b * 2)) mod 2 ^ 32 \<and>
     field16 bytes 32 = (number_of_channels b * 2) mod 2 ^ 16 \<and>
     field16 bytes 34 = 16 \<and> take 4 (drop 36 bytes) = ascii ''data'' \<and>
     field32 bytes 40 = (buf_length b * number_of_channels b * 2) mod 2 ^ 32"
proof -
  let ?bytes = "wav_header (number_of_channels b) (buf_sample_rate b) (buf_length b) @
                  pcm_data (channel_data b) (buf_length b)"
  have "length ?bytes = 44 + buf_length b * number_of_channels b * 2"
    by (simp add: number_of_channels_def)
  then show ?thesis
    using wav_bytes_layout [of b]
      wav_header_fields [of "number_of_channels b" "buf_sample_rate b" "buf_length b"
                            "pcm_data (channel_data b) (buf_length b)"]
    by blast
qed

text \<open>
  C21: clamping before quantisation: every sample written is in \<open>[-32767, 32767]\<close>,
  is the truncation of the clamped sample times \<open>0x7FFF\<close>, and samples at or
  beyond full scale saturate instead of wrapping around.
\<close>

theorem quantize_saturates:
  "-32767 \<le> sint (quantize s) \<and> sint (quantize s) \<le> 32767 \<and>
   sint (quantize (Some x)) = js_trunc (js_clamp (-1) 1 x * 32767) \<and>
   (1 \<le> x \<longrightarrow> sint (quantize (Some x)) = 32767) \<and>
   (x \<le> -1 \<longrightarrow> sint (quantize (Some x)) = -32767)"
proof -
  have b: "\<bar>js_trunc (js_clamp (-1) 1 y * 32767)\<bar> \<le> 32767" for y
  proof -
    have "\<bar>js_clamp (-1) 1 y * 32767\<bar> \<le> 32767"
      using js_clamp_bounds [of "-1" 1 y] unfolding abs_le_iff by linarith
    then show ?thesis using js_trunc_abs_le [of "js_clamp (-1) 1 y * 32767"] by linarith
  qed
  have "-32767 \<le> sint (quantize s) \<and> sint (quantize s) \<le> 32767"
  proof (cases s)
    case None
    then show ?thesis by (simp add: quantize_def)
  next
    case (Some a)
    then show ?thesis using b [of a] by (simp add: sint_quantize abs_le_iff)
  qed
  moreover have "1 \<le> x \<Longrightarrow> sint (quantize (Some x)) = 32767"
    by (simp add: sint_quantize js_clamp_def js_trunc_def)
  moreover have "x \<le> -1 \<Longrightarrow> sint (quantize (Some x)) = -32767"
    by (simp add: sint_quantize js_clamp_def js_trunc_def)
  ultimately show ?thesis by (simp add: sint_quantize)
qed

theorem quantize_saturates_witness:
  "-32767 \<le> sint (quantize (Some 2)) \<and> sint (quantize (Some 2)) \<le> 32767 \<and>
   sint (quantize (Some 2)) = js_trunc (js_clamp (-1) 1 2 * 32767) \<and>
   sint (quantize (Some 2)) = 32767 \<and> sint (quantize (Some (-3))) = -32767"
  using quantize_saturates [of "Some 2" 2] quantize_saturates [of "Some (-3)" "-3"] by simp


end
