(* ===== verification/Export.thy ===== *)
theory Export
  imports Clock WavEncoder
begin

text \<open>
  \<open>exportBeat()\<close> of \<open>src/audio-engine.js\<close>, lines 270--374. The export snapshots
  the tempo, the master settings and the tracks, builds a fresh graph in an
  \<open>OfflineAudioContext\<close> (the master chain and the reverb again, and for every
  hit a chain of its own, \<open>OfflineStep globalStep trackIndex\<close>), schedules one
  voice per hit with \<open>playAtTime\<close>, renders and hands the buffer to
  \<open>WavEncoder.downloadAudio\<close>. The engine itself is not changed. What the graph
  sounds like is the renderer's business: \<open>startRendering()\<close> is a parameter
  of the model (\<open>None\<close>: its promise rejects).
\<close>

text \<open>The parameters of a per-hit chain, lines 330--346.\<close>

record offline_chain =
  oc_gain :: real
  oc_pan :: real
  oc_eq_low :: biquad
  oc_eq_high :: biquad
  oc_reverb_send :: real

definition offline_track_chain :: "track \<Rightarrow> offline_chain" where
  "offline_track_chain t =
     \<lparr>oc_gain = volume t, oc_pan = pan t,
      oc_eq_low = eq_low_shelf\<lparr>bq_gain := eq_low t\<rparr>, oc_eq_high = eq_high_shelf\<lparr>bq_gain := eq_high t\<rparr>,
      oc_reverb_send = reverb_amount t\<rparr>"

text \<open>
  Lines 349--354: the track chain, its output to the master input, and the
  gain node into the reverb send, which feeds the convolver.
\<close>

definition offline_step_edges :: "chain \<Rightarrow> edge list" where
  "offline_step_edges c =
     track_chain_edges c @
     [(TrackGain c, MasterInput OfflineCtx), (TrackGain c, TrackReverbSend c),
      (TrackReverbSend c, ReverbConvolver OfflineCtx)]"

text \<open>The offline graph as the export has built it so far.\<close>

record offline_render =
  off_context :: audio_ctx
  off_length :: nat
  off_master :: master_chain
  off_chains :: "(chain \<times> offline_chain) list"
  off_edges :: "edge list"
  off_voices :: "voice list"
  off_warnings :: "string list"

text \<open>
  \<open>stepDurationSec = (60 / this.bpm) / 4\<close>, line 273, for a non-zero tempo
  (\<open>60 / 0\<close> is \<open>Infinity\<close> in JavaScript; see \<open>offline_length\<close>).
\<close>

definition step_duration_sec :: "int \<Rightarrow> real" where
  "step_duration_sec b = (60 / real_of_int b) / 4"

text \<open>
  The length argument of \<open>new OfflineAudioContext(2, sampleRate * totalDurationSec,
  sampleRate)\<close>, lines 274--279, with \<open>loops = 1\<close>: an \<open>unsigned long\<close>, so
  truncated modulo \<open>2^32\<close>; \<open>Infinity\<close> (tempo 0) converts to 0.
\<close>

definition offline_length :: "nat \<Rightarrow> int \<Rightarrow> nat \<Rightarrow> nat" where
  "offline_length sr b steps_n =
     (if b = 0 then 0
      else nat (js_trunc (real sr * (real steps_n * step_duration_sec b)) mod 2 ^ 32))"

text \<open>
  The master chain of the export, lines 282--310: the live master gain, the
  gains of the two master shelves and the reverb return level are copied; the
  convolver gets the impulse response if it was loaded.
\<close>

definition offline_master :: "master_chain \<Rightarrow> impulse_response option \<Rightarrow> master_chain" where
  "offline_master m ir =
     init_master_chain\<lparr>master_eq_low := eq_low_shelf\<lparr>bq_gain := bq_gain (master_eq_low m)\<rparr>,
                       master_eq_high := eq_high_shelf\<lparr>bq_gain := bq_gain (master_eq_high m)\<rparr>,
                       master_gain := master_gain m, reverb_gain := reverb_gain m,
                       convolver_buffer := ir\<rparr>"

text \<open>
  The \<open>forEach\<close> over the tracks at one global step \<open>g\<close>, lines 319--364, from
  track \<open>i\<close> on, at \<open>stepTime = time\<close>. A track whose sound is unknown is
  skipped with a warning; a hit builds its chain and schedules its voice into
  the chain's EQ input and reverb send; an exception of \<open>playAtTime\<close> aborts
  the export.
\<close>

fun export_tracks ::
  "audio_ctx \<Rightarrow> catalog \<Rightarrow> nat \<Rightarrow> real \<Rightarrow> nat \<Rightarrow> track list \<Rightarrow> offline_render
     \<Rightarrow> js_error + offline_render" where
  "export_tracks oc smp g time i [] r = Inr r"
| "export_tracks oc smp g time i (t # ts) r =
     (if track_step_active g t then
        (case sample_lookup smp (sound t) of
           None \<Rightarrow> export_tracks oc smp g time (Suc i) ts (r\<lparr>off_warnings := off_warnings r @ [sound t]\<rparr>)
         | Some cfg \<Rightarrow>
             (let c = OfflineStep g i;
                  r1 = r\<lparr>off_chains := off_chains r @ [(c, offline_track_chain t)],
                         off_edges := off_edges r @ offline_step_edges c\<rparr>
              in case player_play_at_time oc
                        (create_synth_sample_player cfg (volume t) (Some (TrackEqLow c))
                           (Some (TrackReverbSend c)))
                        time (Some (volume t)) (Some (Some (TrackEqLow c)))
                        (Some (Some (TrackReverbSend c))) of
                   Inl err \<Rightarrow> Inl err
                 | Inr v \<Rightarrow> export_tracks oc smp g time (Suc i) ts (r1\<lparr>off_voices := off_voices r1 @ [v]\<rparr>)))
      else export_tracks oc smp g time (Suc i) ts r)"

text \<open>
  The loop over the global steps, lines 315--366, from step \<open>g\<close> with \<open>k\<close> steps
  left; with \<open>loop = 0\<close>, \<open>stepTime = globalStep * stepDurationSec\<close>.
\<close>

fun export_steps ::
  "audio_ctx \<Rightarrow> catalog \<Rightarrow> real \<Rightarrow> track list \<Rightarrow> nat \<Rightarrow> nat \<Rightarrow> offline_render
     \<Rightarrow> js_error + offline_render" where
  "export_steps oc smp dur ts g 0 r = Inr r"
| "export_steps oc smp dur ts g (Suc k) r =
     (case export_tracks oc smp g (real g * dur) 0 ts r of
        Inl err \<Rightarrow> Inl err
      | Inr r' \<Rightarrow> export_steps oc smp dur ts (Suc g) k r')"

text \<open>
  Lines 271--366: everything before the rendering. \<open>this.audioContext\<close> or
  \<open>this.masterGain\<close> being \<open>null\<close> throws \<open>TypeError\<close>; a zero length throws
  \<open>NotSupportedError\<close> from the constructor. The offline context reports its
  own sample rate; its clock stands at 0.
\<close>

definition export_render :: "engine \<Rightarrow> js_error + offline_render" where
  "export_render e =
     (case audio_context e of
        None \<Rightarrow> Inl TypeError
      | Some ac \<Rightarrow>
          (let total_steps = global_step_count e;
               len = offline_length (sample_rate ac) (bpm e) total_steps
           in if len = 0 then Inl NotSupportedError
              else
                (case master e of
                   None \<Rightarrow> Inl TypeError
                 | Some m \<Rightarrow>
                     (let oc = \<lparr>sample_rate = sample_rate ac, current_time = 0\<rparr>
                      in export_steps oc (samples e) (step_duration_sec (bpm e)) (tracks e) 0 total_steps
                           \<lparr>off_context = oc, off_length = len,
                            off_master = offline_master m (impulse_response_buffer e),
                            off_chains = [],
                            off_edges = master_chain_edges OfflineCtx @ reverb_return_edges OfflineCtx,
                            off_voices = [], off_warnings = []\<rparr>))))"

text \<open>
  \<open>exportBeat()\<close> as a whole: an exception before the rendering rejects the
  returned promise (\<open>Inl\<close>); otherwise the promise resolves, with the
  downloaded file, or with nothing when the rendering failed or the encoder
  threw (the \<open>catch\<close> of lines 368--373 only logs).
\<close>

definition export_beat ::
  "(offline_render \<Rightarrow> audio_buffer option) \<Rightarrow> engine \<Rightarrow> js_error + (string \<times> byte list) option" where
  "export_beat render e =
     (case export_render e of
        Inl err \<Rightarrow> Inl err
      | Inr r \<Rightarrow> Inr (case render r of None \<Rightarrow> None | Some b \<Rightarrow> download_audio b None))"

text \<open>
  The hits of the steps \<open>gs\<close> in the order the export visits them: step, then
  the trigger decision of \<open>playStep\<close> at that step (\<open>active_hits\<close>).
\<close>

definition schedule :: "catalog \<Rightarrow> track list \<Rightarrow> nat list \<Rightarrow> (nat \<times> nat \<times> sound_def \<times> track) list" where
  "schedule smp ts gs = concat (map (\<lambda>g. map (Pair g) (active_hits smp g 0 ts)) gs)"

text \<open>What a hit adds to the offline graph: its chain, its edges and its voice.\<close>

fun hit_chain :: "nat \<times> nat \<times> sound_def \<times> track \<Rightarrow> chain \<times> offline_chain" where
  "hit_chain (g, i, cfg, t) = (OfflineStep g i, offline_track_chain t)"

fun hit_edges :: "nat \<times> nat \<times> sound_def \<times> track \<Rightarrow> edge list" where
  "hit_edges (g, i, cfg, t) = offline_step_edges (OfflineStep g i)"

fun hit_voice :: "audio_ctx \<Rightarrow> real \<Rightarrow> nat \<times> nat \<times> sound_def \<times> track \<Rightarrow> voice" where
  "hit_voice oc dur (g, i, cfg, t) =
     projr (synth_play_at_time oc (real g * dur) cfg (volume t)
              (Some (TrackEqLow (OfflineStep g i))) (Some (TrackReverbSend (OfflineStep g i))))"

text \<open>The sounds warned about: active tracks whose sound is not in the table.\<close>

definition export_warnings :: "catalog \<Rightarrow> track list \<Rightarrow> nat list \<Rightarrow> string list" where
  "export_warnings smp ts gs =
     concat (map (\<lambda>g. map sound (filter (\<lambda>t. track_step_active g t \<and> sample_lookup smp (sound t) = None) ts)) gs)"

text \<open>
  Four tracks of 16 steps at 120 bpm in a 44.1 kHz context; the first (\<open>kick-01\<close>)
  has hits at steps 0, 4, 8 and 12, the others are silent.
\<close>

definition scenario_engine :: engine where
  "scenario_engine = new_engine\<lparr>audio_context := Some \<lparr>sample_rate = 44100, current_time = 0\<rparr>,
     master := Some init_master_chain, samples := sample_definitions,
     tracks := example_track\<lparr>step_count := 16, steps := map (\<lambda>k. k mod 4 = 0) [0..<16]\<rparr> #
               map (\<lambda>s. example_track\<lparr>sound := s, step_count := 16, steps := replicate 16 False\<rparr>)
                 [''snare-01'', ''hihat-01'', ''bass-01'']\<rparr>"

subsection \<open>Lemmas\<close>

lemma player_play_at_time_explicit:
  "player_play_at_time ac (create_synth_sample_player cfg v d r) t (Some v) (Some d) (Some r) =
     synth_play_at_time ac t cfg v d r"
  by (simp add: player_play_at_time_def create_synth_sample_player_def js_default_def)

lemma export_tracks_catalog:
  assumes "3000 \<le> sample_rate oc" and "sample_rate oc \<le> 768000" and "0 \<le> dur"
  shows "export_tracks oc sample_definitions g (real g * dur) i ts r =
           Inr (r\<lparr>off_chains := off_chains r @ map hit_chain (map (Pair g) (active_hits sample_definitions g i ts)),
                  off_edges := off_edges r @ concat (map hit_edges (map (Pair g) (active_hits sample_definitions g i ts))),
                  off_voices := off_voices r @ map (hit_voice oc dur) (map (Pair g) (active_hits sample_definitions g i ts)),
                  off_warnings := off_warnings r @
                    map sound (filter (\<lambda>t. track_step_active g t \<and> sample_lookup sample_definitions (sound t) = None) ts)\<rparr>)"
proof (induction ts arbitrary: i r)
  case Nil
  then show ?case by simp
next
  case (Cons t ts)
  show ?case
  proof (cases "track_step_active g t")
    case act: True
    show ?thesis
    proof (cases "sample_lookup sample_definitions (sound t)")
      case None
      with act Cons.IH show ?thesis by simp
    next
      case (Some cfg)
      have "0 \<le> real g * dur" using assms(3) by simp
      then obtain v where v: "synth_play_at_time oc (real g * dur) cfg (volume t)
                          (Some (TrackEqLow (OfflineStep g i))) (Some (TrackReverbSend (OfflineStep g i))) = Inr v"
        using catalog_entry_plays [OF catalog_lookup_ok [OF Some] assms(1,2)] by blast
      with act Some Cons.IH show ?thesis
        by (simp add: player_play_at_time_explicit Let_def)
    qed
  next
    case False
    with Cons.IH show ?thesis by simp
  qed
qed

lemma export_steps_catalog:
  assumes "3000 \<le> sample_rate oc" and "sample_rate oc \<le> 768000" and "0 \<le> dur"
  shows "export_steps oc sample_definitions dur ts g k r =
           Inr (r\<lparr>off_chains := off_chains r @ map hit_chain (schedule sample_definitions ts [g..<g + k]),
                  off_edges := off_edges r @ concat (map hit_edges (schedule sample_definitions ts [g..<g + k])),
                  off_voices := off_voices r @ map (hit_voice oc dur) (schedule sample_definitions ts [g..<g + k]),
                  off_warnings := off_warnings r @ export_warnings sample_definitions ts [g..<g + k]\<rparr>)"
proof (induction k arbitrary: g r)
  case 0
  then show ?case by (simp add: schedule_def export_warnings_def)
next
  case (Suc k)
  have u: "[g..<Suc (g + k)] = g # [Suc g..<Suc (g + k)]" by (simp add: upt_conv_Cons del: upt_Suc)
  show ?case
    using Suc.IH [of "Suc g"]
    by (simp add: export_tracks_catalog [OF assms] u schedule_def export_warnings_def del: upt_Suc)
qed



lemma offline_length_valid:
  assumes "3000 \<le> sr" and "sr \<le> 768000" and "0 < b" and "b \<le> 720000"
  shows "offline_length sr b 16 = nat \<lfloor>real sr * 240 / real_of_int b\<rfloor> \<and> 0 < offline_length sr b 16"
proof -
  let ?x = "real sr * 240 / real_of_int b"
  have b: "0 < real_of_int b" "real_of_int b \<le> 720000" using assms(3,4) by simp_all
  have eq: "real sr * (16 * step_duration_sec b) = ?x" by (simp add: step_duration_sec_def)
  have "real_of_int b \<le> real sr * 240" using assms(1) b(2) by linarith
  then have lo: "1 \<le> ?x" using b(1) by (simp add: le_divide_eq)
  have "real sr * 240 \<le> 184320000" using assms(2) by simp
  moreover have "?x \<le> real sr * 240" using b(1) \<open>real_of_int b \<le> real sr * 240\<close>
    by (simp add: divide_le_eq)
  ultimately have hi: "?x < 2 ^ 32" by simp
  have f: "1 \<le> \<lfloor>?x\<rfloor>" "\<lfloor>?x\<rfloor> < 2 ^ 32"
    using lo hi by (simp_all add: floor_less_iff)
  have "js_trunc (real sr * (real 16 * step_duration_sec b)) = \<lfloor>?x\<rfloor>"
    using lo by (simp add: eq js_trunc_def)
  then show ?thesis using f assms(3) by (simp add: offline_length_def)
qed


lemma export_render_catalog:
  assumes "audio_context e = Some ac" and "master e = Some m"
      and "3000 \<le> sample_rate ac" and "sample_rate ac \<le> 768000"
      and "0 < bpm e" and "bpm e \<le> 720000"
      and "global_step_count e = 16" and "samples e = sample_definitions"
  shows "export_render e =
           Inr \<lparr>off_context = \<lparr>sample_rate = sample_rate ac, current_time = 0\<rparr>,
                off_length = nat \<lfloor>real (sample_rate ac) * 240 / real_of_int (bpm e)\<rfloor>,
                off_master = offline_master m (impulse_response_buffer e),
                off_chains = map hit_chain (schedule sample_definitions (tracks e) [0..<16]),
                off_edges = master_chain_edges OfflineCtx @ reverb_return_edges OfflineCtx @
                            concat (map hit_edges (schedule sample_definitions (tracks e) [0..<16])),
                off_voices = map (hit_voice \<lparr>sample_rate = sample_rate ac, current_time = 0\<rparr>
                                    (step_duration_sec (bpm e)))
                               (schedule sample_definitions (tracks e) [0..<16]),
                off_warnings = export_warnings sample_definitions (tracks e) [0..<16]\<rparr>"
proof -
  let ?oc = "\<lparr>sample_rate = sample_rate ac, current_time = 0\<rparr> :: audio_ctx"
  let ?dur = "step_duration_sec (bpm e)"
  have len: "offline_length (sample_rate ac) (bpm e) 16 = nat \<lfloor>real (sample_rate ac) * 240 / real_of_int (bpm e)\<rfloor>"
    using offline_length_valid [OF assms(3,4,5,6)] by (rule conjunct1)
  have pos: "0 < offline_length (sample_rate ac) (bpm e) 16"
    using offline_length_valid [OF assms(3,4,5,6)] by (rule conjunct2)
  have dur: "0 \<le> ?dur" using assms(5) by (simp add: step_duration_sec_def)
  have steps: "export_steps ?oc sample_definitions ?dur (tracks e) 0 16 r0 =
                 Inr (r0\<lparr>off_chains := off_chains r0 @ map hit_chain (schedule sample_definitions (tracks e) [0..<16]),
                        off_edges := off_edges r0 @ concat (map hit_edges (schedule sample_definitions (tracks e) [0..<16])),
                        off_voices := off_voices r0 @ map (hit_voice ?oc ?dur) (schedule sample_definitions (tracks e) [0..<16]),
                        off_warnings := off_warnings r0 @ export_warnings sample_definitions (tracks e) [0..<16]\<rparr>)"
    for r0
    using export_steps_catalog [of ?oc ?dur "tracks e" 0 16 r0] assms(3,4) dur by simp
  show ?thesis
    using assms(1,2,7,8) len pos steps by (simp add: export_render_def Let_def)
qed









text \<open>
  C22: the error paths of \<open>exportBeat\<close>: without an audio context it rejects
  with \<open>TypeError\<close>, at tempo 0 the offline context's length is 0 and it rejects
  with \<open>NotSupportedError\<close>, and once the graph is built a failing rendering
  does not reject: the promise resolves without a file.
\<close>

theorem export_error_paths:
  "export_beat render (e\<lparr>audio_context := None\<rparr>) = Inl TypeError \<and>
   export_beat render (e\<lparr>audio_context := Some ac, bpm := 0\<rparr>) = Inl NotSupportedError \<and>
   ((\<exists>r. export_render e = Inr r) \<longrightarrow> export_beat (\<lambda>_. None) e = Inr None)"
  by (auto simp add: export_beat_def export_render_def offline_length_def)

theorem export_error_paths_witness:
  "export_beat (\<lambda>_. None) (scenario_engine\<lparr>audio_context := None\<rparr>) = Inl TypeError \<and>
   export_beat (\<lambda>_. None) (scenario_engine\<lparr>audio_context := Some \<lparr>sample_rate = 44100, current_time = 0\<rparr>, bpm := 0\<rparr>) =
     Inl NotSupportedError \<and>
   export_beat (\<lambda>_. None) scenario_engine = Inr None"
proof -
  have "\<exists>r. export_render scenario_engine = Inr r"
    using export_render_catalog [of scenario_engine "\<lparr>sample_rate = 44100, current_time = 0\<rparr>" init_master_chain]
    by (simp add: scenario_engine_def new_engine_def)
  then show ?thesis
    using export_error_paths [of "\<lambda>_. None" scenario_engine "\<lparr>sample_rate = 44100, current_time = 0\<rparr>"] by simp
qed

end
