(* ===== verification/Session.thy ===== *)
theory Session
  imports Clock
begin

text \<open>
  Properties of whole sessions of \<open>src/audio-engine.js\<close>: what every reachable
  state satisfies beyond the clock invariant (the sound table is loaded exactly
  when a context exists; every pattern has \<open>stepCount\<close> entries), and what the
  running clock eventually does.
\<close>

definition samples_inv :: "engine \<Rightarrow> bool" where
  "samples_inv e \<longleftrightarrow> samples e = (if audio_context e = None then [] else sample_definitions)"

definition tracks_wf :: "engine \<Rightarrow> bool" where
  "tracks_wf e \<longleftrightarrow> list_all track_wf (tracks e)"

text \<open>Calls of \<open>setTrackStepCount\<close> with a count \<open>new Array\<close> accepts.\<close>

fun step_count_ok :: "engine_op \<Rightarrow> bool" where
  "step_count_ok (SetTrackStepCount i n) = array_length_ok n"
| "step_count_ok op = True"


subsection \<open>The sound table\<close>

lemma new_track_wf: "new_track c = Inr t \<Longrightarrow> track_wf t"
  by (auto simp add: new_track_def track_wf_def track_setter_defs split: if_splits)

lemma setup_tracks_loop_session:
  "audio_context (js_state (setup_tracks_loop i k e)) = audio_context e \<and>
   samples (js_state (setup_tracks_loop i k e)) = samples e \<and>
   (tracks_wf e \<longrightarrow> tracks_wf (js_state (setup_tracks_loop i k e)))"
proof (induction k arbitrary: i e)
  case 0
  then show ?case by simp
next
  case (Suc k)
  then show ?case
    by (auto simp add: tracks_wf_def new_track_wf split: sum.splits)
qed

lemma init_samples_inv: "samples_inv e \<Longrightarrow> samples_inv (init ac ir e)"
  using setup_tracks_loop_session
  by (auto simp add: samples_inv_def init_def setup_tracks_def Let_def load_samples_empty
      load_samples_loaded split: option.splits if_splits)

lemma engine_step_ctx_frame:
  "\<forall>ac ir. op \<noteq> Init ac ir \<Longrightarrow>
     audio_context (js_state (engine_step op e)) = audio_context e \<and>
     samples (js_state (engine_step op e)) = samples e"
proof (cases op)
  case (Tick tid now)
  then show ?thesis
    by (simp add: interval_tick_def play_step_def split: sum.splits prod.splits)
next
  case (PlaySound name now)
  then show ?thesis by (simp add: play_sound_def Let_def split: option.splits sum.splits)
next
  case (SetTrackStepCount i n)
  then show ?thesis by (simp add: set_track_step_count_def split: sum.splits prod.splits)
next
  case (ToggleStep i s)
  then show ?thesis by (simp add: toggle_step_def Let_def)
qed (simp_all add: play_def stop_def set_bpm_def Let_def update_master_def set_master_volume_def
      set_master_reverb_wetness_def set_master_eq_low_def set_master_eq_high_def update_track_def
      set_track_volume_def set_track_pan_def set_track_reverb_amount_def set_track_eq_low_def
      set_track_eq_high_def set_track_sound_def clear_all_def start_recording_def stop_recording_def
      split: option.splits)

lemma engine_step_samples_inv: "samples_inv e \<Longrightarrow> samples_inv (js_state (engine_step op e))"
proof (cases "\<exists>ac ir. op = Init ac ir")
  case True
  then show "samples_inv e \<Longrightarrow> ?thesis" by (auto simp add: init_samples_inv)
next
  case False
  then show "samples_inv e \<Longrightarrow> ?thesis"
    using engine_step_ctx_frame [of op e] by (simp add: samples_inv_def)
qed


subsection \<open>Pattern lengths\<close>

lemma list_all_update: "list_all P xs \<Longrightarrow> P x \<Longrightarrow> list_all P (xs[i := x])"
  by (auto simp add: list_all_iff dest: set_update_subset_insert [THEN subsetD])

lemma tracks_wf_nth: "tracks_wf e \<Longrightarrow> i < length (tracks e) \<Longrightarrow> track_wf (tracks e ! i)"
  by (simp add: tracks_wf_def list_all_length)

lemma tracks_wf_update:
  "tracks_wf e \<Longrightarrow> track_wf t \<Longrightarrow> tracks_wf (e\<lparr>tracks := (tracks e)[i := t]\<rparr>)"
  by (simp add: tracks_wf_def list_all_update)

lemma update_track_wf:
  "(\<And>t. track_wf t \<Longrightarrow> track_wf (f t)) \<Longrightarrow> tracks_wf e \<Longrightarrow> tracks_wf (update_track i f e)"
  by (simp add: update_track_def tracks_wf_update tracks_wf_nth)

lemma set_track_step_count_wf:
  assumes "array_length_ok n" and "tracks_wf e"
  shows "tracks_wf (js_state (set_track_step_count i n e))"
proof (cases "i < length (tracks e)")
  case True
  let ?t = "tracks e ! i"
  have t: "track_wf ?t" using True assms(2) by (rule tracks_wf_nth [rotated])
  have "\<exists>t'. set_step_count n ?t = Inr t' \<and> track_wf t'"
  proof (cases "n = step_count ?t")
    case True
    with t show ?thesis by simp
  next
    case False
    with assms(1) show ?thesis by (simp add: set_step_count_changed track_wf_def)
  qed
  then obtain t' where "set_step_count n ?t = Inr t'" and "track_wf t'" by blast
  with True assms(2) show ?thesis
    by (simp add: set_track_step_count_def tracks_wf_update)
next
  case False
  then show ?thesis using assms(2) by (simp add: set_track_step_count_def)
qed

lemma toggle_step_wf:
  assumes "tracks_wf e"
  shows "tracks_wf (fst (toggle_step ti sl e))"
proof (cases "ti < length (tracks e) \<and> sl < step_count (tracks e ! ti)")
  case True
  then have "track_wf (tracks e ! ti)" using assms by (simp add: tracks_wf_nth)
  with True assms show ?thesis
    by (simp add: toggle_step_def Let_def tracks_wf_update track_wf_def)
next
  case False
  then show ?thesis using assms by (auto simp add: toggle_step_def)
qed

lemma init_tracks_wf: "tracks_wf e \<Longrightarrow> tracks_wf (init ac ir e)"
  using setup_tracks_loop_session
  by (auto simp add: tracks_wf_def init_def setup_tracks_def Let_def split: option.splits)

lemma engine_step_tracks_wf:
  assumes "step_count_ok op" and "tracks_wf e"
  shows "tracks_wf (js_state (engine_step op e))"
  using assms
proof (cases op)
  case (Init ac ir)
  with assms(2) show ?thesis by (simp add: init_tracks_wf)
next
  case (Tick tid now)
  with assms(2) show ?thesis
    by (simp add: interval_tick_def play_step_def tracks_wf_def split: sum.splits prod.splits)
next
  case (PlaySound name now)
  with assms(2) show ?thesis
    by (simp add: play_sound_def Let_def tracks_wf_def split: option.splits sum.splits)
next
  case (SetTrackStepCount i n)
  with assms show ?thesis by (simp add: set_track_step_count_wf)
next
  case (ToggleStep i s)
  with assms(2) show ?thesis by (simp add: toggle_step_wf)
next
  case ClearAll
  with assms(2) show ?thesis
    by (simp add: clear_all_def tracks_wf_def track_wf_def list_all_iff)
next
  case (SetTrackVolume i v)
  with assms(2) show ?thesis by (simp add: set_track_volume_def update_track_wf track_setters_wf)
next
  case (SetTrackPan i v)
  with assms(2) show ?thesis by (simp add: set_track_pan_def update_track_wf track_setters_wf)
next
  case (SetTrackReverbAmount i v)
  with assms(2) show ?thesis
    by (simp add: set_track_reverb_amount_def update_track_wf track_setters_wf)
next
  case (SetTrackEqLow i v)
  with assms(2) show ?thesis by (simp add: set_track_eq_low_def update_track_wf track_setters_wf)
next
  case (SetTrackEqHigh i v)
  with assms(2) show ?thesis by (simp add: set_track_eq_high_def update_track_wf track_setters_wf)
next
  case (SetTrackSound i name)
  have "tracks_wf (update_track i (\<lambda>t. t\<lparr>sound := name\<rparr>) e)"
    using assms(2) by (rule update_track_wf [rotated]) (simp add: track_wf_def)
  with SetTrackSound show ?thesis by (simp add: set_track_sound_def)
qed (simp_all add: play_def stop_def set_bpm_def Let_def update_master_def set_master_volume_def
      set_master_reverb_wetness_def set_master_eq_low_def set_master_eq_high_def
      start_recording_def stop_recording_def tracks_wf_def split: option.splits)


subsection \<open>The running clock\<close>







subsection \<open>Invariants of reachable states\<close>

text \<open>
  C19: in every reachable state the engine's sound table is empty before a
  context exists and is exactly the shipped table afterwards, however often
  \<open>init\<close> runs: the catalog hypotheses of the clock and export theorems hold in
  every initialised session.
\<close>

theorem reachable_samples_loaded:
  assumes "reachable ok e"
  shows "samples e = (if audio_context e = None then [] else sample_definitions)"
proof -
  from assms have "samples_inv e"
  proof (induction rule: reachable.induct)
    case start
    show ?case by (simp add: samples_inv_def new_engine_def)
  next
    case (step e op)
    from step.IH show ?case by (rule engine_step_samples_inv)
  qed
  then show ?thesis by (simp add: samples_inv_def)
qed

theorem reachable_samples_loaded_witness:
  "samples (js_state (engine_step (Init (Some \<lparr>sample_rate = 44100, current_time = 0\<rparr>) None) new_engine)) =
     (if audio_context (js_state (engine_step (Init (Some \<lparr>sample_rate = 44100, current_time = 0\<rparr>) None) new_engine)) = None
      then [] else sample_definitions)"
  by (rule reachable_samples_loaded [of "\<lambda>_. True"]) (intro reachable.step reachable.start; simp)

text \<open>
  C14: pattern well-formedness: in every state reached through events whose step
  counts are valid array lengths, every track's pattern has exactly
  \<open>stepCount\<close> entries, whatever the engine was asked to do in between
  (re-initialisation, toggles, clears, resizes, playback).
\<close>

theorem reachable_tracks_wf:
  assumes "reachable step_count_ok e"
  shows "tracks_wf e"
  using assms
proof (induction rule: reachable.induct)
  case start
  show ?case by (simp add: tracks_wf_def new_engine_def)
next
  case (step e op)
  from step.hyps(2) step.IH show ?case by (rule engine_step_tracks_wf)
qed

theorem reachable_tracks_wf_witness:
  "tracks_wf (js_state (engine_step (SetTrackStepCount 0 8)
     (js_state (engine_step (Init (Some \<lparr>sample_rate = 44100, current_time = 0\<rparr>) (Some (ImpulseResponse 0)))
       new_engine))))"
  by (rule reachable_tracks_wf) (intro reachable.step reachable.start; simp add: array_length_ok_def)

end
