(* ===== verification/App.thy ===== *)
theory App
  imports Sequencer Export Session
begin

text \<open>
  The application shell \<open>BeatMaker\<close> of \<open>src/main.js\<close>: its start-up
  (\<open>init\<close>), the transport, tempo and export controls, the keyboard shortcut,
  the sound library and its drag and drop, and the mixer's range inputs. The
  state (\<open>app\<close>) is the engine, the sequencer grid, the mixer channels and the
  parts of the page the handlers write: the texts and icon classes of the play
  and export buttons, the tempo label, the pending export and the files
  downloaded. Each listener is one constructor of \<open>ui_event\<close> and one
  branch of \<open>app_step\<close>; \<open>app_reachable\<close> is the set of pages a session can
  show. The static markup (\<open>index.html\<close>) is not part of the sources: the
  initial texts and icons of its buttons are a parameter (\<open>page\<close>). Styles set
  for visual feedback (\<open>style.transform\<close>, \<open>drag-over\<close>, \<open>dragging\<close>,
  \<open>drop-success\<close>) and console output are not modelled.
\<close>

subsection \<open>The page\<close>

text \<open>\<open>classList.add\<close> and \<open>classList.remove\<close> on a class list.\<close>

definition class_add :: "string \<Rightarrow> string list \<Rightarrow> string list" where
  "class_add c cs = (if c \<in> set cs then cs else cs @ [c])"

definition class_remove :: "string \<Rightarrow> string list \<Rightarrow> string list" where
  "class_remove c cs = filter (\<lambda>x. x \<noteq> c) cs"

text \<open>What \<open>index.html\<close> shows before the script runs.\<close>

record page =
  pg_play_text :: string
  pg_play_icon :: "string list"
  pg_bpm_text :: string
  pg_export_text :: string
  pg_export_icon :: "string list"

record app =
  app_engine :: engine
  grid :: "track_row list"
  channels :: "mixer_channel list"
  channel_listeners :: nat
  master_listeners :: bool
  play_text :: string
  play_icon :: "string list"
  bpm_text :: string
  export_text :: string
  export_icon :: "string list"
  export_disabled :: bool
  export_pending :: "(js_error + (string \<times> byte list) option) option"
  export_timer :: "string option"
  downloads :: "(string \<times> byte list) list"

subsection \<open>Start-up\<close>

text \<open>
  \<open>channel.querySelector('input[data-control="ctl"]').value = x\<close>: the first
  input with that control takes the value (sanitized by the range input); no
  such input is \<open>null\<close>, and the assignment throws \<open>TypeError\<close> (\<open>None\<close>).
\<close>

fun set_control :: "string \<Rightarrow> real \<Rightarrow> range_input list \<Rightarrow> range_input list option" where
  "set_control ctl x [] = None"
| "set_control ctl x (ri # ris) =
     (if ri_control ri = ctl then Some (ri\<lparr>ri_value := range_value ri x\<rparr> # ris)
      else map_option (Cons ri) (set_control ctl x ris))"

text \<open>Lines 188--197 for one channel: the inputs show the parameters of its track.\<close>

definition init_channel :: "engine \<Rightarrow> mixer_channel \<Rightarrow> mixer_channel option" where
  "init_channel e ch =
     (case get_track_data e (parse_int (ch_track ch)) of
        None \<Rightarrow> Some ch
      | Some t \<Rightarrow>
          map_option (\<lambda>ris. ch\<lparr>ch_inputs := ris\<rparr>)
            (Option.bind (set_control ''volume'' (volume t) (ch_inputs ch)) (\<lambda>ris1.
             Option.bind (set_control ''pan'' (pan t) ris1) (\<lambda>ris2.
             Option.bind (set_control ''reverb'' (reverb_amount t) ris2) (\<lambda>ris3.
             Option.bind (set_control ''eqlow'' (eq_low t) ris3) (\<lambda>ris4.
             set_control ''eqhigh'' (eq_high t) ris4))))))"

text \<open>
  The \<open>forEach\<close> over the channels, lines 187--224, from the channel at index
  \<open>k\<close>: each channel gets its values, then its listeners. The result is the
  channels and the number of them that have listeners; \<open>False\<close> when a
  \<open>TypeError\<close> ended the loop.
\<close>

fun init_channels :: "engine \<Rightarrow> nat \<Rightarrow> mixer_channel list \<Rightarrow> mixer_channel list \<times> nat \<times> bool" where
  "init_channels e k [] = ([], k, True)"
| "init_channels e k (ch # chs) =
     (case init_channel e ch of
        None \<Rightarrow> (ch # chs, k, False)
      | Some ch' \<Rightarrow> (case init_channels e (Suc k) chs of (chs', n, ok) \<Rightarrow> (ch' # chs', n, ok)))"

text \<open>
  \<open>initMixerControls()\<close>, lines 185--245: the channels, then the master inputs.
  Reading \<open>this.audioEngine.masterGain.gain\<close> without a master bus throws
  \<open>TypeError\<close> at line 227, before any master listener is attached.
\<close>

definition init_mixer_controls :: "engine \<Rightarrow> mixer_channel list \<Rightarrow> mixer_channel list \<times> nat \<times> bool" where
  "init_mixer_controls e chs =
     (case init_channels e 0 chs of (chs', n, ok) \<Rightarrow> (chs', n, ok \<and> master e \<noteq> None))"

text \<open>
  \<open>new BeatMaker()\<close> once \<open>await this.audioEngine.init()\<close> has settled, lines
  7--32: the two renderers, the sequencer, the listeners of
  \<open>setupEventListeners\<close> (which throws nothing) and the mixer controls.
  \<open>getSampleNames()\<close> is \<open>Object.keys(this.samples)\<close>.
\<close>

definition app_init :: "page \<Rightarrow> audio_ctx option \<Rightarrow> impulse_response option \<Rightarrow> app" where
  "app_init pg ac ir =
     (let e1 = init ac ir new_engine;
          (e2, rows) = sequencer_init e1 (sequencer_render (tracks e1) (map fst (samples e1)));
          (chs, n, master_ok) = init_mixer_controls e2 (mixer_render (length (tracks e1)))
      in \<lparr>app_engine = e2, grid = rows, channels = chs, channel_listeners = n,
          master_listeners = master_ok, play_text = pg_play_text pg, play_icon = pg_play_icon pg,
          bpm_text = pg_bpm_text pg, export_text = pg_export_text pg, export_icon = pg_export_icon pg,
          export_disabled = False, export_pending = None, export_timer = None, downloads = []\<rparr>)"

subsection \<open>Transport, tempo, export\<close>

text \<open>\<open>updatePlayButton(isPlaying)\<close>, lines 247--263.\<close>

definition update_play_button :: "bool \<Rightarrow> app \<Rightarrow> app" where
  "update_play_button playing a =
     (if playing then a\<lparr>play_icon := class_add ''fa-pause'' (class_remove ''fa-play'' (play_icon a)), play_text := ''PAUSE''\<rparr>
      else a\<lparr>play_icon := class_add ''fa-play'' (class_remove ''fa-pause'' (play_icon a)), play_text := ''PLAY''\<rparr>)"

text \<open>The play button, lines 36--44: it toggles the engine and its own face only.\<close>

definition play_click :: "app \<Rightarrow> app" where
  "play_click a =
     (if is_playing (app_engine a) then update_play_button False (a\<lparr>app_engine := stop (app_engine a)\<rparr>)
      else update_play_button True (a\<lparr>app_engine := play (app_engine a)\<rparr>))"

text \<open>The stop button, lines 46--50.\<close>

definition stop_click :: "app \<Rightarrow> app" where
  "stop_click a =
     (let a1 = update_play_button False (a\<lparr>app_engine := stop (app_engine a)\<rparr>)
      in a1\<lparr>grid := clear_step_indicators (grid a1)\<rparr>)"

text \<open>
  The \<open>keydown\<close> listener, lines 103--119: the space bar outside an input,
  select or text area toggles play and pause; pausing also clears the
  highlight.
\<close>

definition key_down :: "string \<Rightarrow> string \<Rightarrow> app \<Rightarrow> app" where
  "key_down code tag a =
     (if code = ''Space'' \<and> tag \<notin> {''INPUT'', ''SELECT'', ''TEXTAREA''} then
        (if is_playing (app_engine a) then
           (let a1 = update_play_button False (a\<lparr>app_engine := stop (app_engine a)\<rparr>)
            in a1\<lparr>grid := clear_step_indicators (grid a1)\<rparr>)
         else update_play_button True (a\<lparr>app_engine := play (app_engine a)\<rparr>))
      else a)"

text \<open>The tempo slider, lines 60--64, with the value \<open>parseInt\<close> read from it.\<close>

definition bpm_input :: "int \<Rightarrow> app \<Rightarrow> app" where
  "bpm_input b a = a\<lparr>app_engine := set_bpm b (app_engine a), bpm_text := string_of_int b\<rparr>"

text \<open>
  A click on the export button, lines 67--76: a disabled button receives no
  click. \<open>exportBeat()\<close> builds its graph synchronously and the promise it
  returns settles later (\<open>export_settled\<close>); \<open>render\<close> is the environment's
  \<open>startRendering\<close>.
\<close>

definition export_click :: "(offline_render \<Rightarrow> audio_buffer option) \<Rightarrow> app \<Rightarrow> app" where
  "export_click render a =
     (if export_disabled a then a
      else a\<lparr>export_disabled := True,
             export_icon := class_add ''fa-spin'' (class_add ''fa-spinner''
               (fold class_remove [''fa-download'', ''fa-circle-check'', ''fa-circle-xmark''] (export_icon a))),
             export_text := ''EXPORTING...'',
             export_pending := Some (export_beat render (app_engine a))\<rparr>)"

text \<open>
  The awaited \<open>exportBeat()\<close> settles, lines 77--99: a resolved promise shows
  the check mark and \<open>EXPORTED!\<close>, a rejected one the cross and \<open>FAILED\<close>;
  either way a timeout restores the button after two seconds.
\<close>

definition export_settled :: "app \<Rightarrow> app" where
  "export_settled a =
     (case export_pending a of
        None \<Rightarrow> a
      | Some (Inr file) \<Rightarrow>
          a\<lparr>export_icon := class_add ''fa-circle-check'' (fold class_remove [''fa-spinner'', ''fa-spin''] (export_icon a)),
            export_text := ''EXPORTED!'', export_pending := None, export_timer := Some ''fa-circle-check'',
            downloads := downloads a @ (case file of None \<Rightarrow> [] | Some f \<Rightarrow> [f])\<rparr>
      | Some (Inl err) \<Rightarrow>
          a\<lparr>export_icon := class_add ''fa-circle-xmark'' (fold class_remove [''fa-spinner'', ''fa-spin''] (export_icon a)),
            export_text := ''FAILED'', export_pending := None, export_timer := Some ''fa-circle-xmark''\<rparr>)"

text \<open>The two-second timeout of lines 82--87 and 93--98.\<close>

definition export_timeout :: "app \<Rightarrow> app" where
  "export_timeout a =
     (case export_timer a of
        None \<Rightarrow> a
      | Some c \<Rightarrow> a\<lparr>export_icon := class_add ''fa-download'' (class_remove c (export_icon a)),
                    export_text := ''EXPORT'', export_disabled := False, export_timer := None\<rparr>)"

subsection \<open>Sound library and mixer\<close>

text \<open>A click on a sound of the library, lines 125--134: \<open>playSound\<close> at audio time \<open>now\<close>.\<close>

definition sound_item_click :: "string \<Rightarrow> real \<Rightarrow> app \<Rightarrow> app" where
  "sound_item_click name now a = a\<lparr>app_engine := js_state (engine_step (PlaySound name now) (app_engine a))\<rparr>"

text \<open>
  A drop of the text \<open>txt\<close> on a selector of row \<open>r\<close>, lines 161--181: on the
  sound selector, \<open>selector.value = txt\<close> selects the option with that value
  (none if there is no such option) and the track gets the sound \<open>txt\<close>; a drop
  on the step-count selector changes nothing.
\<close>

definition selector_drop :: "nat \<Rightarrow> bool \<Rightarrow> string \<Rightarrow> app \<Rightarrow> app" where
  "selector_drop r is_sound txt a =
     (if is_sound \<and> r < length (grid a) then
        a\<lparr>grid := (grid a)[r := (grid a ! r)\<lparr>sound_options :=
                     map (\<lambda>opt. opt\<lparr>opt_selected := (opt_value opt = txt)\<rparr>) (sound_options (grid a ! r))\<rparr>],
          app_engine := track_call (parse_int (row_track (grid a ! r))) (\<lambda>i. set_track_sound i txt) (app_engine a)\<rparr>
      else a)"

text \<open>The \<open>switch\<close> of lines 205--221: the setter a range input's \<open>data-control\<close> selects.\<close>

definition control_setter :: "string \<Rightarrow> nat \<Rightarrow> real \<Rightarrow> engine \<Rightarrow> engine" where
  "control_setter ctl =
     (if ctl = ''volume'' then set_track_volume
      else if ctl = ''pan'' then set_track_pan
      else if ctl = ''reverb'' then set_track_reverb_amount
      else if ctl = ''eqlow'' then set_track_eq_low
      else if ctl = ''eqhigh'' then set_track_eq_high
      else (\<lambda>i v e. e))"

text \<open>
  The user moves input \<open>j\<close> of channel \<open>c\<close> to \<open>v\<close>, lines 201--222: the input
  takes the sanitized value, which \<open>parseFloat\<close> reads back, and the setter of
  its control is called with the channel's parsed \<open>data-track\<close>. Channels the
  start-up did not reach have no listener.
\<close>

definition track_control :: "nat \<Rightarrow> nat \<Rightarrow> real \<Rightarrow> app \<Rightarrow> app" where
  "track_control c j v a =
     (if c < channel_listeners a \<and> c < length (channels a) \<and> j < length (ch_inputs (channels a ! c)) then
        (let ch = channels a ! c;
             ri = ch_inputs ch ! j;
             x = range_value ri v
         in a\<lparr>channels := (channels a)[c := ch\<lparr>ch_inputs := (ch_inputs ch)[j := ri\<lparr>ri_value := x\<rparr>]\<rparr>],
              app_engine := track_call (parse_int (ch_track ch)) (\<lambda>i. control_setter (ri_control ri) i x) (app_engine a)\<rparr>)
      else a)"

text \<open>
  The master inputs, lines 233--244, in the order volume, reverb wetness, low
  and high EQ; their bounds are in the markup, so the value is any number.
\<close>

definition master_control :: "nat \<Rightarrow> real \<Rightarrow> app \<Rightarrow> app" where
  "master_control j v a =
     (if master_listeners a \<and> j < 4 then
        a\<lparr>app_engine := js_state (engine_step ([SetMasterVolume v, SetMasterReverbWetness v,
                                                 SetMasterEqLow v, SetMasterEqHigh v] ! j) (app_engine a))\<rparr>
      else a)"

subsection \<open>The clock\<close>

text \<open>
  The step numbers the engine reported through \<open>onStepPlay\<close>
  (\<open>src/audio-engine.js\<close> line 212).
\<close>

fun step_notifications :: "engine_output list \<Rightarrow> nat list" where
  "step_notifications [] = []"
| "step_notifications (StepAdvance g # os) = g # step_notifications os"
| "step_notifications (VoiceStarted v # os) = step_notifications os"

text \<open>
  One interval callback: the engine's tick, during which \<open>onStepPlay\<close> runs
  \<open>updateStepIndicators\<close> (\<open>src/sequencer.js\<close> lines 68--70). It reads only
  the patterns, which a tick does not change.
\<close>

definition timer_tick :: "nat \<Rightarrow> real \<Rightarrow> app \<Rightarrow> app" where
  "timer_tick tid now a =
     (let e' = js_state (engine_step (Tick tid now) (app_engine a));
          gs = step_notifications (drop (length (out (app_engine a))) (out e'))
      in a\<lparr>app_engine := e', grid := fold (update_step_indicators e') gs (grid a)\<rparr>)"

subsection \<open>Events\<close>

datatype ui_event =
    PlayClick | StopClick | ClearClick | BpmInput int
  | ExportClick "offline_render \<Rightarrow> audio_buffer option" | ExportSettled | ExportTimeout
  | KeyDown string string | SoundItemClick string real | SelectorDrop nat bool string
  | StepClick nat nat nat | SoundSelect nat nat | StepCountSelect nat nat
  | TrackControl nat nat real | MasterControl nat real | TimerTick nat real

fun app_step :: "ui_event \<Rightarrow> app \<Rightarrow> app" where
  "app_step PlayClick a = play_click a"
| "app_step StopClick a = stop_click a"
| "app_step ClearClick a =
     (case sequencer_clear_all (app_engine a) (grid a) of (e', rows) \<Rightarrow> a\<lparr>app_engine := e', grid := rows\<rparr>)"
| "app_step (BpmInput b) a = bpm_input b a"
| "app_step (ExportClick render) a = export_click render a"
| "app_step ExportSettled a = export_settled a"
| "app_step ExportTimeout a = export_timeout a"
| "app_step (KeyDown code tag) a = key_down code tag a"
| "app_step (SoundItemClick name now) a = sound_item_click name now a"
| "app_step (SelectorDrop r is_sound txt) a = selector_drop r is_sound txt a"
| "app_step (StepClick r gi bi) a =
     (case click_step r gi bi (app_engine a) (grid a) of (e', rows) \<Rightarrow> a\<lparr>app_engine := e', grid := rows\<rparr>)"
| "app_step (SoundSelect r k) a =
     (case select_sound r k (app_engine a) (grid a) of (e', rows) \<Rightarrow> a\<lparr>app_engine := e', grid := rows\<rparr>)"
| "app_step (StepCountSelect r k) a =
     (case select_step_count r k (app_engine a) (grid a) of (res, rows) \<Rightarrow> a\<lparr>app_engine := js_state res, grid := rows\<rparr>)"
| "app_step (TrackControl c j v) a = track_control c j v a"
| "app_step (MasterControl j v) a = master_control j v a"
| "app_step (TimerTick tid now) a = timer_tick tid now a"

text \<open>The pages a session shows, from the start-up in the environment \<open>ac\<close>, \<open>ir\<close>.\<close>

inductive app_reachable :: "page \<Rightarrow> app \<Rightarrow> bool" for pg where
  start: "app_reachable pg (app_init pg ac ir)"
| step: "app_reachable pg a \<Longrightarrow> app_reachable pg (app_step ev a)"

subsection \<open>Invariants of the page\<close>

text \<open>The mixer parameters of each track.\<close>

definition track_params :: "engine \<Rightarrow> (real \<times> real \<times> real \<times> real \<times> real) list" where
  "track_params e = map (\<lambda>t. (volume t, pan t, reverb_amount t, eq_low t, eq_high t)) (tracks e)"

text \<open>Volume, pan, reverb send, low and high EQ within the bounds of their range inputs.\<close>

definition params_in_range :: "real \<times> real \<times> real \<times> real \<times> real \<Rightarrow> bool" where
  "params_in_range p = (case p of (v, pn, r, l, h) \<Rightarrow>
     0 \<le> v \<and> v \<le> 1 \<and> -1 \<le> pn \<and> pn \<le> 1 \<and> 0 \<le> r \<and> r \<le> 1 \<and> -12 \<le> l \<and> l \<le> 12 \<and> -12 \<le> h \<and> h \<le> 12)"

definition chan_shape :: "mixer_channel \<Rightarrow> mixer_channel" where
  "chan_shape ch = ch\<lparr>ch_inputs := map (\<lambda>ri. ri\<lparr>ri_value := 0\<rparr>) (ch_inputs ch)\<rparr>"

definition mixer_inv :: "app \<Rightarrow> bool" where
  "mixer_inv a \<longleftrightarrow>
     list_all params_in_range (track_params (app_engine a)) \<and>
     map chan_shape (channels a) = map chan_shape (mixer_render (length (tracks (app_engine a))))"

definition no_highlight :: "track_row list \<Rightarrow> bool" where
  "no_highlight rows \<longleftrightarrow> list_all (\<lambda>r. list_all (list_all (\<lambda>b. \<not> sb_playing b)) (step_groups r)) rows"

text \<open>
  The export button is disabled exactly while an export is pending or its
  result is shown, and never both at once.
\<close>

definition export_inv :: "app \<Rightarrow> bool" where
  "export_inv a = ((export_disabled a = (export_pending a \<noteq> None \<or> export_timer a \<noteq> None)) \<and>
                   (export_pending a = None \<or> export_timer a = None))"

text \<open>The fields of the export button as one tuple.\<close>

definition export_state where
  "export_state a = (export_disabled a, export_pending a, export_timer a)"

text \<open>A page whose markup shows the usual initial texts, used by the examples.\<close>

definition demo_page :: page where
  "demo_page = \<lparr>pg_play_text = ''PLAY'', pg_play_icon = [''fa'', ''fa-play''], pg_bpm_text = ''120'',
                 pg_export_text = ''EXPORT'', pg_export_icon = [''fa'', ''fa-download'']\<rparr>"

subsection \<open>Frames\<close>

lemma tracks_play [simp]: "tracks (play e) = tracks e"
  by (simp add: play_def Let_def)

lemma tracks_stop [simp]: "tracks (stop e) = tracks e"
  by (simp add: stop_def Let_def)

lemma tracks_set_bpm [simp]: "tracks (set_bpm b e) = tracks e"
  by (simp add: set_bpm_def Let_def)

lemma tracks_interval_tick: "tracks (js_state (interval_tick now e)) = tracks e"
  by (simp add: interval_tick_def play_step_def split: sum.splits prod.splits)

lemma tracks_tick [simp]: "tracks (js_state (engine_step (Tick tid now) e)) = tracks e"
  by (simp add: tracks_interval_tick)

lemma tracks_play_sound [simp]: "tracks (js_state (engine_step (PlaySound name now) e)) = tracks e"
  by (simp add: play_sound_def Let_def split: option.splits sum.splits)

lemma tracks_update_master: "tracks (js_state (update_master f e)) = tracks e"
  by (simp add: update_master_def split: option.splits)

lemma tracks_master_control [simp]:
  "j < 4 \<Longrightarrow> tracks (js_state (engine_step ([SetMasterVolume v, SetMasterReverbWetness v, SetMasterEqLow v, SetMasterEqHigh v] ! j) e)) = tracks e"
  by (auto simp add: less_Suc_eq numeral_eq_Suc set_master_volume_def set_master_reverb_wetness_def
      set_master_eq_low_def set_master_eq_high_def tracks_update_master)

lemma grid_inv_tracks: "tracks e' = tracks e \<Longrightarrow> grid_inv e' rows = grid_inv e rows"
  by (rule grid_inv_patterns) (simp add: patterns_def)

lemma patterns_control_setter [simp]: "patterns (control_setter ctl i x e) = patterns e"
  by (simp add: control_setter_def set_track_volume_def set_track_pan_def set_track_reverb_amount_def
      set_track_eq_low_def set_track_eq_high_def patterns_update_track track_setter_defs)

subsection \<open>The grid follows the engine\<close>

lemma grid_inv_click_step:
  assumes "grid_inv e rows"
  shows "grid_inv (fst (click_step r gi bi e rows)) (snd (click_step r gi bi e rows))"
proof (cases "r < length rows \<and> gi < length (step_groups (rows ! r)) \<and> bi < length (step_groups (rows ! r) ! gi)")
  case True
  then show ?thesis using click_step_effect [OF assms] by blast
next
  case False
  show ?thesis unfolding click_step_def if_not_P [OF False] using assms by simp
qed

lemma grid_inv_select_step_count:
  assumes "grid_inv e rows"
  shows "grid_inv (js_state (fst (select_step_count r k e rows))) (snd (select_step_count r k e rows))"
proof (cases "r < length rows \<and> k < length (step_options (rows ! r))")
  case True
  then have "row_ok e r (rows ! r)" using assms by (simp add: grid_inv_iff)
  then have "length (step_options (rows ! r)) = 3"
    using arg_cong [of _ _ length] by (fastforce simp add: row_ok_def)
  with True have "k < 3" by simp
  with True show ?thesis using select_step_count_effect [OF assms, of r k] by simp
next
  case False
  then show ?thesis using assms by (auto simp add: select_step_count_def)
qed

lemma grid_inv_fold_indicators:
  "grid_inv e rows \<Longrightarrow> grid_inv e (fold (update_step_indicators e) gs rows)"
  by (induction gs arbitrary: rows) (simp_all add: grid_inv_update_step_indicators)

lemma grid_inv_sound_options:
  "grid_inv e rows \<Longrightarrow> grid_inv e (rows[r := (rows ! r)\<lparr>sound_options := os\<rparr>])"
  by (cases "r < length rows"; rule grid_inv_pointwise)
     (auto simp add: nth_list_update row_ok_def list_update_beyond)

lemma grid_inv_engine_frame [simp]:
  "grid_inv (play e) rows = grid_inv e rows"
  "grid_inv (stop e) rows = grid_inv e rows"
  "grid_inv (set_bpm b e) rows = grid_inv e rows"
  "grid_inv (js_state (interval_tick now e)) rows = grid_inv e rows"
  "grid_inv (js_state (play_sound name now e)) rows = grid_inv e rows"
  by (rule grid_inv_tracks; simp add: tracks_interval_tick play_sound_def Let_def split: option.splits sum.splits)+

lemma grid_inv_master_control:
  "j < 4 \<Longrightarrow> grid_inv (js_state (engine_step ([SetMasterVolume v, SetMasterReverbWetness v, SetMasterEqLow v, SetMasterEqHigh v] ! j) e)) rows = grid_inv e rows"
  by (rule grid_inv_tracks) simp

lemma grid_inv_track_call:
  "(\<And>k e. patterns (f k e) = patterns e) \<Longrightarrow> grid_inv (track_call ti f e) rows = grid_inv e rows"
  by (rule grid_inv_patterns) (rule patterns_track_call)

lemma grid_inv_selector_drop:
  assumes g: "grid_inv (app_engine a) (grid a)"
  shows "grid_inv (app_engine (selector_drop r is_sound txt a)) (grid (selector_drop r is_sound txt a))"
proof (cases "is_sound \<and> r < length (grid a)")
  case True
  let ?rows = "(grid a)[r := (grid a ! r)\<lparr>sound_options :=
                 map (\<lambda>opt. opt\<lparr>opt_selected := (opt_value opt = txt)\<rparr>) (sound_options (grid a ! r))\<rparr>]"
  let ?e = "track_call (parse_int (row_track (grid a ! r))) (\<lambda>i. set_track_sound i txt) (app_engine a)"
  have "grid_inv (app_engine a) ?rows" by (rule grid_inv_sound_options [OF g])
  moreover have "grid_inv ?e ?rows = grid_inv (app_engine a) ?rows" by (rule grid_inv_track_call) simp
  ultimately have "grid_inv ?e ?rows" by simp
  with True show ?thesis by (simp add: selector_drop_def)
next
  case False
  show ?thesis unfolding selector_drop_def if_not_P [OF False] by (rule g)
qed

lemma grid_inv_track_control:
  assumes g: "grid_inv (app_engine a) (grid a)"
  shows "grid_inv (app_engine (track_control c j v a)) (grid (track_control c j v a))"
proof -
  have "grid_inv (track_call ti (\<lambda>i. control_setter ctl i x) e) rows = grid_inv e rows" for ti ctl x e rows
    by (rule grid_inv_track_call) simp
  with g show ?thesis by (simp add: track_control_def Let_def)
qed

lemma grid_inv_timer_tick:
  assumes g: "grid_inv (app_engine a) (grid a)"
  shows "grid_inv (app_engine (timer_tick tid now a)) (grid (timer_tick tid now a))"
proof -
  let ?e' = "js_state (engine_step (Tick tid now) (app_engine a))"
  have "grid_inv ?e' (grid a)" using g by simp
  then show ?thesis by (simp add: timer_tick_def Let_def grid_inv_fold_indicators del: engine_step.simps)
qed

lemma app_step_grid_inv:
  assumes g: "grid_inv (app_engine a) (grid a)"
  shows "grid_inv (app_engine (app_step ev a)) (grid (app_step ev a))"
proof (cases ev)
  case ClearClick
  then show ?thesis using grid_inv_sequencer_clear_all [OF g]
    by (cases "sequencer_clear_all (app_engine a) (grid a)") simp
next
  case (StepClick r gi bi)
  then show ?thesis using grid_inv_click_step [OF g, of r gi bi]
    by (cases "click_step r gi bi (app_engine a) (grid a)") simp
next
  case (SoundSelect r k)
  then show ?thesis using grid_inv_select_sound [OF g, of r k]
    by (cases "select_sound r k (app_engine a) (grid a)") simp
next
  case (StepCountSelect r k)
  then show ?thesis using grid_inv_select_step_count [OF g, of r k]
    by (cases "select_step_count r k (app_engine a) (grid a)") simp
next
  case (MasterControl j v)
  then show ?thesis using g grid_inv_master_control [of j v "app_engine a" "grid a"]
    by (simp add: master_control_def)
qed (use g grid_inv_clear_step_indicators in \<open>simp_all add: play_click_def stop_click_def key_down_def
       update_play_button_def bpm_input_def export_click_def export_settled_def export_timeout_def
       sound_item_click_def Let_def grid_inv_selector_drop grid_inv_track_control grid_inv_timer_tick
       split: option.split sum.split\<close>)

subsection \<open>The play button follows the engine\<close>

lemma is_playing_engine [simp]:
  "is_playing (play e) = True"
  "is_playing (stop e) = False"
  "is_playing (set_bpm b e) = is_playing e"
  "is_playing (js_state (interval_tick now e)) = is_playing e"
  "is_playing (js_state (play_sound name now e)) = is_playing e"
  "is_playing (update_track i f e) = is_playing e"
  "is_playing (clear_all e) = is_playing e"
  "is_playing (fst (toggle_step i s e)) = is_playing e"
  "is_playing (js_state (set_track_step_count i n e)) = is_playing e"
  by (simp_all add: play_def stop_def set_bpm_def Let_def interval_tick_def play_step_def play_sound_def
      update_track_def clear_all_def toggle_step_def set_track_step_count_def
      split: sum.splits prod.splits option.splits)

lemma is_playing_track_call [simp]:
  "(\<And>k e. is_playing (f k e) = is_playing e) \<Longrightarrow> is_playing (track_call ti f e) = is_playing e"
  by (simp add: track_call_def split: option.split)

lemma click_step_engine:
  "fst (click_step r gi bi e rows) =
     (if r < length rows \<and> gi < length (step_groups (rows ! r)) \<and> bi < length (step_groups (rows ! r) ! gi) then
        (case sb_listener (step_groups (rows ! r) ! gi ! bi) of
           None \<Rightarrow> e
         | Some ti \<Rightarrow> fst (js_toggle_step ti (parse_int (sb_step (step_groups (rows ! r) ! gi ! bi))) e))
      else e)"
  by (simp add: click_step_def Let_def case_prod_unfold split: option.split)

lemma select_step_count_engine:
  "js_state (fst (select_step_count r k e rows)) =
     (if r < length rows \<and> k < length (step_options (rows ! r)) then
        js_state (js_set_track_step_count (parse_int (row_track (rows ! r))) (parse_int (opt_value (step_options (rows ! r) ! k))) e)
      else e)"
  by (simp add: select_step_count_def Let_def split: sum.split prod.split)

lemma is_playing_js_calls [simp]:
  "is_playing (fst (js_toggle_step ti s e)) = is_playing e"
  "is_playing (js_state (js_set_track_step_count tc c e)) = is_playing e"
  by (simp_all add: js_toggle_step_def js_set_track_step_count_def split: option.split)

lemma is_playing_sequencer:
  "is_playing (fst (click_step r gi bi e rows)) = is_playing e"
  "is_playing (fst (select_sound r k e rows)) = is_playing e"
  "is_playing (js_state (fst (select_step_count r k e rows))) = is_playing e"
  "is_playing (fst (sequencer_clear_all e rows)) = is_playing e"
  by (simp_all add: click_step_engine select_step_count_engine select_sound_def sequencer_clear_all_def
      set_track_sound_def Let_def split: option.split)

lemma is_playing_control_setter [simp]: "is_playing (control_setter ctl i x e) = is_playing e"
  by (simp add: control_setter_def set_track_volume_def set_track_pan_def set_track_reverb_amount_def
      set_track_eq_low_def set_track_eq_high_def)

lemma is_playing_master_control:
  "j < 4 \<Longrightarrow> is_playing (js_state (engine_step ([SetMasterVolume v, SetMasterReverbWetness v, SetMasterEqLow v, SetMasterEqHigh v] ! j) e)) = is_playing e"
  by (auto simp add: less_Suc_eq numeral_eq_Suc set_master_volume_def set_master_reverb_wetness_def
      set_master_eq_low_def set_master_eq_high_def update_master_def split: option.splits)

lemma app_step_play_text:
  assumes "play_text a = (if is_playing (app_engine a) then ''PAUSE'' else ''PLAY'')"
  shows "play_text (app_step ev a) = (if is_playing (app_engine (app_step ev a)) then ''PAUSE'' else ''PLAY'')"
proof (cases ev)
  case ClearClick
  then show ?thesis using assms is_playing_sequencer(4) [of "app_engine a" "grid a"]
    by (cases "sequencer_clear_all (app_engine a) (grid a)") simp
next
  case (StepClick r gi bi)
  then show ?thesis using assms is_playing_sequencer(1) [of r gi bi "app_engine a" "grid a"]
    by (cases "click_step r gi bi (app_engine a) (grid a)") simp
next
  case (SoundSelect r k)
  then show ?thesis using assms is_playing_sequencer(2) [of r k "app_engine a" "grid a"]
    by (cases "select_sound r k (app_engine a) (grid a)") simp
next
  case (StepCountSelect r k)
  then show ?thesis using assms is_playing_sequencer(3) [of r k "app_engine a" "grid a"]
    by (cases "select_step_count r k (app_engine a) (grid a)") simp
next
  case (MasterControl j v)
  then show ?thesis using assms is_playing_master_control [of j v "app_engine a"]
    by (simp add: master_control_def)
qed (use assms in \<open>simp_all add: play_click_def stop_click_def key_down_def update_play_button_def
       bpm_input_def export_click_def export_settled_def export_timeout_def sound_item_click_def
       selector_drop_def track_control_def timer_tick_def set_track_sound_def Let_def
       split: option.split sum.split\<close>)

lemma is_playing_init [simp]: "is_playing (init ac ir e) = is_playing e"
  using init_clock_fields [of ac ir e] by (simp add: clock_fields_def)

lemma app_init_engine: "app_engine (app_init pg ac ir) =
  fst (sequencer_init (init ac ir new_engine) (sequencer_render (tracks (init ac ir new_engine)) (map fst (samples (init ac ir new_engine)))))"
  by (simp add: app_init_def Let_def split: prod.split)

lemma app_init_grid: "grid (app_init pg ac ir) =
  snd (sequencer_init (init ac ir new_engine) (sequencer_render (tracks (init ac ir new_engine)) (map fst (samples (init ac ir new_engine)))))"
  by (simp add: app_init_def Let_def split: prod.split)

text \<open>
  C8: in every page a session shows, row \<open>k\<close> of the sequencer grid shows
  track \<open>k\<close> of the engine: its buttons are exactly those \<open>renderTrackSteps\<close>
  builds for the track's current step count and pattern, each wired to
  \<open>toggleStep\<close> of that track.
\<close>

theorem app_grid_shows_patterns:
  assumes "app_reachable pg a"
  shows "grid_inv (app_engine a) (grid a)"
  using assms
proof (induction rule: app_reachable.induct)
  case (start ac ir)
  then show ?case using grid_inv_sequencer_init [of "init ac ir new_engine"] by (simp add: app_init_engine app_init_grid)
next
  case (step a ev)
  from step.IH show ?case by (rule app_step_grid_inv)
qed

text \<open>
  C31: if the markup's play button reads \<open>PLAY\<close>, it reads \<open>PAUSE\<close> exactly
  while the engine is playing, whatever the user does (the button, the space
  bar, the stop button, a tempo change, the clock).
\<close>

theorem app_play_button_mirrors:
  assumes "pg_play_text pg = ''PLAY''" and "app_reachable pg a"
  shows "play_text a = (if is_playing (app_engine a) then ''PAUSE'' else ''PLAY'')"
  using assms(2)
proof (induction rule: app_reachable.induct)
  case (start ac ir)
  have "play_text (app_init pg ac ir) = pg_play_text pg" by (simp add: app_init_def Let_def split: prod.split)
  moreover have "\<not> is_playing (app_engine (app_init pg ac ir))"
    by (simp add: app_init_engine sequencer_init_def new_engine_def)
  ultimately show ?case using assms(1) by simp
next
  case (step a ev)
  from step.IH show ?case by (rule app_step_play_text)
qed

subsection \<open>Track parameters stay within the ranges of the mixer\<close>

lemma map_update_same: "(i < length xs \<Longrightarrow> g x = g (xs ! i)) \<Longrightarrow> map g (xs[i := x]) = map g xs"
  by (cases "i < length xs") (auto intro!: nth_equalityI simp add: nth_list_update)

lemma track_params_update_track:
  "track_params (update_track i f e) =
     (if i < length (tracks e) then (track_params e)[i := (\<lambda>t. (volume t, pan t, reverb_amount t, eq_low t, eq_high t)) (f (tracks e ! i))]
      else track_params e)"
  by (simp add: track_params_def update_track_def map_update)

lemma track_params_keep:
  assumes "\<And>t. (volume (f t), pan (f t), reverb_amount (f t), eq_low (f t), eq_high (f t)) = (volume t, pan t, reverb_amount t, eq_low t, eq_high t)"
  shows "track_params (update_track i f e) = track_params e"
  using assms by (simp add: track_params_def update_track_def map_update_same)

lemma track_params_engine [simp]:
  "track_params (play e) = track_params e"
  "track_params (stop e) = track_params e"
  "track_params (set_bpm b e) = track_params e"
  "track_params (js_state (interval_tick now e)) = track_params e"
  "track_params (js_state (play_sound name now e)) = track_params e"
  "track_params (clear_all e) = track_params e"
  "track_params (set_track_sound i name e) = track_params e"
  "track_params (fst (toggle_step i k e)) = track_params e"
  "track_params (js_state (set_track_step_count i n e)) = track_params e"
  by (simp_all add: track_params_def tracks_interval_tick play_sound_def Let_def clear_all_def comp_def
      set_track_sound_def update_track_def toggle_step_def set_track_step_count_def set_step_count_def
      map_update_same split: option.splits sum.splits prod.splits)

lemma track_params_sequencer:
  "track_params (fst (click_step r gi bi e rows)) = track_params e"
  "track_params (fst (select_sound r k e rows)) = track_params e"
  "track_params (js_state (fst (select_step_count r k e rows))) = track_params e"
  "track_params (fst (sequencer_clear_all e rows)) = track_params e"
  by (simp_all add: click_step_engine select_step_count_engine select_sound_def sequencer_clear_all_def
      js_toggle_step_def js_set_track_step_count_def track_call_def Let_def split: option.split)

lemma channel_inputs_ranges:
  "j < 5 \<Longrightarrow> ri_min (channel_inputs c ! j) \<le> ri_max (channel_inputs c ! j) \<and> 0 < ri_step (channel_inputs c ! j)"
  by (auto simp add: channel_inputs_def Let_def less_Suc_eq numeral_eq_Suc)

lemma length_channel_inputs [simp]: "length (channel_inputs c) = 5"
  by (simp add: channel_inputs_def Let_def)

lemma control_setter_in_range:
  assumes j: "j < 5" and lo: "ri_min (channel_inputs c ! j) \<le> x" and hi: "x \<le> ri_max (channel_inputs c ! j)"
    and inv: "list_all params_in_range (track_params e)"
  shows "list_all params_in_range (track_params (control_setter (ri_control (channel_inputs c ! j)) i x e))"
proof (cases "i < length (tracks e)")
  case True
  then have old: "params_in_range (volume (tracks e ! i), pan (tracks e ! i), reverb_amount (tracks e ! i),
                                   eq_low (tracks e ! i), eq_high (tracks e ! i))"
    using inv by (simp add: list_all_length track_params_def)
  from j have "j = 0 \<or> j = 1 \<or> j = 2 \<or> j = 3 \<or> j = 4" by auto
  then show ?thesis using True old lo hi inv
    by (auto simp add: control_setter_def channel_inputs_def Let_def set_track_volume_def set_track_pan_def
        set_track_reverb_amount_def set_track_eq_low_def set_track_eq_high_def track_params_update_track
        track_setter_defs params_in_range_def intro!: list_all_update)
next
  case False
  then show ?thesis using inv
    by (simp add: control_setter_def set_track_volume_def set_track_pan_def set_track_reverb_amount_def
        set_track_eq_low_def set_track_eq_high_def update_track_def)
qed

lemma chan_shape_set_value:
  "chan_shape (ch\<lparr>ch_inputs := (ch_inputs ch)[j := (ch_inputs ch ! j)\<lparr>ri_value := x\<rparr>]\<rparr>) = chan_shape ch"
  by (simp add: chan_shape_def map_update_same)

lemma set_control_shape:
  "set_control ctl x ris = Some ris' \<Longrightarrow> map (\<lambda>ri. ri\<lparr>ri_value := 0\<rparr>) ris' = map (\<lambda>ri. ri\<lparr>ri_value := 0\<rparr>) ris"
  by (induction ris arbitrary: ris') (auto split: if_splits)

lemma init_channel_shape: "init_channel e ch = Some ch' \<Longrightarrow> chan_shape ch' = chan_shape ch"
  by (auto simp add: init_channel_def chan_shape_def bind_eq_Some_conv dest!: set_control_shape split: option.splits)

lemma init_channels_shape:
  "init_channels e k chs = (chs', n, ok) \<Longrightarrow> map chan_shape chs' = map chan_shape chs"
  by (induction chs arbitrary: k chs' n ok) (auto dest: init_channel_shape split: option.splits prod.splits)

lemma new_track_in_range:
  "new_track (default_track_config n i) = Inr t \<Longrightarrow> params_in_range (volume t, pan t, reverb_amount t, eq_low t, eq_high t)"
  by (auto simp add: new_track_def default_track_config_def track_setter_defs params_in_range_def split: if_splits)

lemma setup_tracks_loop_in_range:
  "list_all params_in_range (track_params e) \<Longrightarrow> list_all params_in_range (track_params (js_state (setup_tracks_loop i k e)))"
proof (induction k arbitrary: i e)
  case (Suc k)
  then show ?case by (auto simp add: track_params_def new_track_in_range split: sum.split)
qed simp

lemma init_in_range: "list_all params_in_range (track_params (init ac ir new_engine))"
  using setup_tracks_loop_in_range [of _ 0 4]
  by (simp add: init_def setup_tracks_def Let_def track_params_def new_engine_def split: option.split)

lemma mixer_inv_frame:
  "channels a' = channels a \<Longrightarrow> track_params (app_engine a') = track_params (app_engine a) \<Longrightarrow> mixer_inv a' = mixer_inv a"
proof -
  assume c: "channels a' = channels a" and p: "track_params (app_engine a') = track_params (app_engine a)"
  have "length (track_params (app_engine a')) = length (track_params (app_engine a))" by (simp only: p)
  then have "length (tracks (app_engine a')) = length (tracks (app_engine a))" by (simp add: track_params_def)
  with c p show ?thesis by (simp add: mixer_inv_def)
qed

lemma track_params_track_call:
  "(\<And>k e. track_params (f k e) = track_params e) \<Longrightarrow> track_params (track_call ti f e) = track_params e"
  by (simp add: track_call_def split: option.split)

lemma track_params_master_control:
  "j < 4 \<Longrightarrow> track_params (js_state (engine_step ([SetMasterVolume v, SetMasterReverbWetness v, SetMasterEqLow v, SetMasterEqHigh v] ! j) e)) = track_params e"
  by (simp add: track_params_def)

lemma mixer_inv_track_control:
  assumes inv: "mixer_inv a"
  shows "mixer_inv (track_control c j v a)"
proof (cases "c < channel_listeners a \<and> c < length (channels a) \<and> j < length (ch_inputs (channels a ! c))")
  case True
  let ?n = "length (tracks (app_engine a))"
  let ?ch = "channels a ! c"
  let ?ri = "ch_inputs ?ch ! j"
  let ?x = "range_value ?ri v"
  have shape: "map chan_shape (channels a) = map chan_shape (mixer_render ?n)" and
    pr: "list_all params_in_range (track_params (app_engine a))" using inv by (simp_all add: mixer_inv_def)
  have cn: "c < ?n" using arg_cong [OF shape, of length] True by (simp add: mixer_render_def)
  have sh: "chan_shape ?ch = chan_shape (mixer_render ?n ! c)"
    using arg_cong [OF shape, of "\<lambda>xs. xs ! c"] True cn by (simp add: mixer_render_def)
  have tr: "ch_track ?ch = string_of_nat c"
    using arg_cong [OF sh, of ch_track] cn by (simp add: chan_shape_def mixer_render_def)
  have ins: "map (\<lambda>ri. ri\<lparr>ri_value := 0\<rparr>) (ch_inputs ?ch) = map (\<lambda>ri. ri\<lparr>ri_value := 0\<rparr>) (channel_inputs c)"
    using arg_cong [OF sh, of ch_inputs] cn by (simp add: chan_shape_def mixer_render_def)
  have j5: "j < 5" using arg_cong [OF ins, of length] True by simp
  have eqj: "?ri\<lparr>ri_value := 0\<rparr> = (channel_inputs c ! j)\<lparr>ri_value := 0\<rparr>"
    using arg_cong [OF ins, of "\<lambda>xs. xs ! j"] True j5 by simp
  have same: "ri_control ?ri = ri_control (channel_inputs c ! j) \<and> ri_min ?ri = ri_min (channel_inputs c ! j) \<and>
              ri_max ?ri = ri_max (channel_inputs c ! j) \<and> ri_step ?ri = ri_step (channel_inputs c ! j)"
    using arg_cong [OF eqj, of ri_control] arg_cong [OF eqj, of ri_min] arg_cong [OF eqj, of ri_max]
      arg_cong [OF eqj, of ri_step] by simp
  have b: "ri_min (channel_inputs c ! j) \<le> ?x \<and> ?x \<le> ri_max (channel_inputs c ! j)"
    using range_value_bounds [of ?ri v] channel_inputs_ranges [OF j5, of c] same by simp
  have e': "app_engine (track_control c j v a) = control_setter (ri_control (channel_inputs c ! j)) c ?x (app_engine a)"
    using True cn same by (simp add: track_control_def Let_def tr parse_int_string_of_nat track_call_def)
  have "list_all params_in_range (track_params (app_engine (track_control c j v a)))"
    unfolding e' using control_setter_in_range [OF j5 _ _ pr] b by blast
  moreover have "length (tracks (app_engine (track_control c j v a))) = ?n"
    unfolding e' by (simp add: control_setter_def set_track_volume_def set_track_pan_def
        set_track_reverb_amount_def set_track_eq_low_def set_track_eq_high_def update_track_def)
  moreover have "map chan_shape (channels (track_control c j v a)) = map chan_shape (channels a)"
    using True by (simp add: track_control_def Let_def map_update_same chan_shape_set_value)
  ultimately show ?thesis using shape by (simp add: mixer_inv_def)
next
  case False
  show ?thesis unfolding track_control_def if_not_P [OF False] by (rule inv)
qed

lemma app_step_mixer_inv:
  assumes inv: "mixer_inv a"
  shows "mixer_inv (app_step ev a)"
proof (cases ev)
  case ClearClick
  then show ?thesis using inv mixer_inv_frame [of "app_step ev a" a] track_params_sequencer(4) [of "app_engine a" "grid a"]
    by (cases "sequencer_clear_all (app_engine a) (grid a)") simp
next
  case (StepClick r gi bi)
  then show ?thesis using inv mixer_inv_frame [of "app_step ev a" a] track_params_sequencer(1) [of r gi bi "app_engine a" "grid a"]
    by (cases "click_step r gi bi (app_engine a) (grid a)") simp
next
  case (SoundSelect r k)
  then show ?thesis using inv mixer_inv_frame [of "app_step ev a" a] track_params_sequencer(2) [of r k "app_engine a" "grid a"]
    by (cases "select_sound r k (app_engine a) (grid a)") simp
next
  case (StepCountSelect r k)
  then show ?thesis using inv mixer_inv_frame [of "app_step ev a" a] track_params_sequencer(3) [of r k "app_engine a" "grid a"]
    by (cases "select_step_count r k (app_engine a) (grid a)") simp
next
  case (TrackControl c j v)
  then show ?thesis using mixer_inv_track_control [OF inv] by simp
next
  case (MasterControl j v)
  then show ?thesis using inv mixer_inv_frame [of "app_step ev a" a] track_params_master_control [of j v "app_engine a"]
    by (simp add: master_control_def)
next
  case (SelectorDrop r is_sound name)
  have "track_params (track_call ti (\<lambda>i. set_track_sound i name) e) = track_params e" for ti e
    by (rule track_params_track_call) simp
  then show ?thesis using inv mixer_inv_frame [of "app_step ev a" a] SelectorDrop by (simp add: selector_drop_def)
qed (use inv mixer_inv_frame [of "app_step ev a" a] in \<open>simp_all add: play_click_def stop_click_def key_down_def
       update_play_button_def bpm_input_def export_click_def export_settled_def export_timeout_def
       sound_item_click_def timer_tick_def Let_def split: option.split sum.split\<close>)

lemma mixer_inv_init: "mixer_inv (app_init pg ac ir)"
proof -
  let ?e1 = "init ac ir new_engine"
  obtain chs n ok where m: "init_mixer_controls (fst (sequencer_init ?e1 (sequencer_render (tracks ?e1) (map fst (samples ?e1)))))
                            (mixer_render (length (tracks ?e1))) = (chs, n, ok)" by (metis prod_cases3)
  then have "map chan_shape chs = map chan_shape (mixer_render (length (tracks ?e1)))"
    by (auto simp add: init_mixer_controls_def dest: init_channels_shape split: prod.splits)
  moreover have "channels (app_init pg ac ir) = chs" using m by (simp add: app_init_def Let_def case_prod_unfold)
  ultimately show ?thesis using init_in_range [of ac ir]
    by (simp add: mixer_inv_def app_init_engine sequencer_init_def track_params_def)
qed

text \<open>
  C10: every track's volume, pan, reverb send and EQ gains stay within the
  bounds of the range inputs the mixer renders (\<open>[0, 1]\<close>, \<open>[-1, 1]\<close>,
  \<open>[0, 1]\<close>, \<open>[-12, 12]\<close> dB): the engine's setters do not clamp, but the
  only values the page passes them are sanitized input values.
\<close>

theorem app_track_params_in_range:
  assumes "app_reachable pg a"
  shows "list_all params_in_range (track_params (app_engine a))"
proof -
  from assms have "mixer_inv a"
  proof (induction rule: app_reachable.induct)
    case (start ac ir)
    show ?case by (rule mixer_inv_init)
  next
    case (step a ev)
    from step.IH show ?case by (rule app_step_mixer_inv)
  qed
  then show ?thesis by (simp add: mixer_inv_def)
qed

text \<open>
  C34: the export button reports the outcome of the promise, not of the
  rendering. When the graph is built but \<open>startRendering\<close> fails, the button
  shows \<open>EXPORTED!\<close> and no file is downloaded; only an exception before the
  rendering, such as a missing audio context, shows \<open>FAILED\<close>.
\<close>

theorem export_failure_reported_as_success:
  assumes "\<not> export_disabled a" and "\<exists>r. export_render (app_engine a) = Inr r"
  shows "export_text (export_settled (export_click (\<lambda>_. None) a)) = ''EXPORTED!'' \<and>
         downloads (export_settled (export_click (\<lambda>_. None) a)) = downloads a \<and>
         export_text (export_settled (export_click render (a\<lparr>app_engine := (app_engine a)\<lparr>audio_context := None\<rparr>\<rparr>))) = ''FAILED''"
  using assms by (auto simp add: export_click_def export_settled_def export_beat_def export_render_def)

text \<open>
  C36: without an audio context the start-up throws at line 227: the page has
  no track rows and no mixer channels, and the master inputs get no listener.
  With a context but no impulse response \<open>setupTracks\<close> is skipped, so the
  page has a working master section and no tracks at all.
\<close>

theorem app_init_degraded:
  "\<not> master_listeners (app_init pg None ir) \<and> grid (app_init pg None ir) = [] \<and> channels (app_init pg None ir) = [] \<and>
   master_listeners (app_init pg (Some ac) None) \<and> grid (app_init pg (Some ac) None) = [] \<and>
   channels (app_init pg (Some ac) None) = []"
  by (simp add: app_init_def Let_def init_def new_engine_def sequencer_init_def sequencer_render_def
      create_all_track_step_buttons_def mixer_render_def init_mixer_controls_def)

text \<open>
  C35: pausing with the play button stops the engine but leaves the grid as it
  is, highlighted step included, while the stop button and the space bar clear
  every highlight.
\<close>

theorem pause_button_keeps_highlight:
  assumes "is_playing (app_engine a)"
  shows "grid (app_step PlayClick a) = grid a \<and> \<not> is_playing (app_engine (app_step PlayClick a)) \<and>
         no_highlight (grid (app_step StopClick a)) \<and> no_highlight (grid (app_step (KeyDown ''Space'' ''BODY'') a))"
  using assms no_playing_clear_step_indicators
  by (simp add: play_click_def stop_click_def key_down_def update_play_button_def no_highlight_def Let_def)

subsection \<open>The export button comes back\<close>

lemma export_inv_state: "export_state b = export_state a \<Longrightarrow> export_inv b = export_inv a"
  by (simp add: export_state_def export_inv_def)

lemma export_state_other:
  assumes "\<forall>render. ev \<noteq> ExportClick render" and "ev \<noteq> ExportSettled" and "ev \<noteq> ExportTimeout"
  shows "export_state (app_step ev a) = export_state a"
proof (cases ev)
  case ClearClick
  then show ?thesis by (cases "sequencer_clear_all (app_engine a) (grid a)") (simp add: export_state_def)
next
  case (StepClick r gi bi)
  then show ?thesis by (cases "click_step r gi bi (app_engine a) (grid a)") (simp add: export_state_def)
next
  case (SoundSelect r k)
  then show ?thesis by (cases "select_sound r k (app_engine a) (grid a)") (simp add: export_state_def)
next
  case (StepCountSelect r k)
  then show ?thesis by (cases "select_step_count r k (app_engine a) (grid a)") (simp add: export_state_def)
qed (use assms in \<open>simp_all add: export_state_def update_play_button_def play_click_def stop_click_def key_down_def Let_def bpm_input_def
       sound_item_click_def selector_drop_def track_control_def master_control_def timer_tick_def\<close>)

lemma export_inv_step:
  assumes inv: "export_inv a"
  shows "export_inv (app_step ev a)"
proof -
  consider (click) render where "ev = ExportClick render" | (settled) "ev = ExportSettled" | (timeout) "ev = ExportTimeout"
    | (other) "\<forall>render. ev \<noteq> ExportClick render" "ev \<noteq> ExportSettled" "ev \<noteq> ExportTimeout"
    by blast
  then show ?thesis
  proof cases
    case click
    then show ?thesis using inv by (simp add: export_inv_def export_click_def)
  next
    case settled
    then show ?thesis using inv by (auto simp add: export_inv_def export_settled_def split: option.split sum.split)
  next
    case timeout
    then show ?thesis using inv by (auto simp add: export_inv_def export_timeout_def split: option.split)
  next
    case other
    then show ?thesis using inv export_inv_state [OF export_state_other [OF other]] by simp
  qed
qed

lemma export_inv_init: "export_inv (app_init pg ac ir)"
  by (simp add: export_inv_def app_init_def Let_def case_prod_unfold)

lemma export_inv_reachable: "app_reachable pg a \<Longrightarrow> export_inv a"
  by (induction rule: app_reachable.induct) (simp_all add: export_inv_init export_inv_step)

text \<open>
  C33: in every page a session shows, the export button is disabled exactly
  while an export is pending or its outcome is shown, and once the pending
  export settles and its two-second timeout fires, the button is enabled again
  with nothing pending.
\<close>

theorem export_button_recovers:
  assumes "app_reachable pg a"
  shows "(export_disabled a \<longleftrightarrow> export_pending a \<noteq> None \<or> export_timer a \<noteq> None) \<and>
         \<not> export_disabled (app_step ExportTimeout (app_step ExportSettled a)) \<and>
         export_pending (app_step ExportTimeout (app_step ExportSettled a)) = None"
  using export_inv_reachable [OF assms]
  by (auto simp add: export_inv_def export_settled_def export_timeout_def split: option.split sum.split)

subsection \<open>Examples\<close>

theorem app_grid_shows_patterns_witness:
  "app_reachable demo_page (app_step PlayClick (app_init demo_page None None)) \<and>
   grid_inv (app_engine (app_step PlayClick (app_init demo_page None None))) (grid (app_step PlayClick (app_init demo_page None None)))"
proof -
  have r: "app_reachable demo_page (app_step PlayClick (app_init demo_page None None))"
    by (rule app_reachable.step, rule app_reachable.start)
  show ?thesis using app_grid_shows_patterns [OF r] r by blast
qed

theorem app_play_button_mirrors_witness:
  "pg_play_text demo_page = ''PLAY'' \<and> app_reachable demo_page (app_step PlayClick (app_init demo_page None None)) \<and>
   play_text (app_step PlayClick (app_init demo_page None None)) =
     (if is_playing (app_engine (app_step PlayClick (app_init demo_page None None))) then ''PAUSE'' else ''PLAY'')"
proof -
  have p: "pg_play_text demo_page = ''PLAY''" by (simp add: demo_page_def)
  have r: "app_reachable demo_page (app_step PlayClick (app_init demo_page None None))"
    by (rule app_reachable.step, rule app_reachable.start)
  show ?thesis using app_play_button_mirrors [OF p r] p r by blast
qed

theorem app_track_params_in_range_witness:
  "app_reachable demo_page (app_step (TrackControl 0 0 (5 / 2)) (app_init demo_page None None)) \<and>
   list_all params_in_range (track_params (app_engine (app_step (TrackControl 0 0 (5 / 2)) (app_init demo_page None None))))"
proof -
  have r: "app_reachable demo_page (app_step (TrackControl 0 0 (5 / 2)) (app_init demo_page None None))"
    by (rule app_reachable.step, rule app_reachable.start)
  show ?thesis using app_track_params_in_range [OF r] r by blast
qed

theorem export_failure_reported_as_success_witness:
  "\<not> export_disabled ((app_init demo_page None None)\<lparr>app_engine := scenario_engine\<rparr>) \<and>
   (\<exists>r. export_render (app_engine ((app_init demo_page None None)\<lparr>app_engine := scenario_engine\<rparr>)) = Inr r) \<and>
   export_text (export_settled (export_click (\<lambda>_. None) ((app_init demo_page None None)\<lparr>app_engine := scenario_engine\<rparr>))) = ''EXPORTED!''"
proof -
  let ?a = "(app_init demo_page None None)\<lparr>app_engine := scenario_engine\<rparr>"
  have d: "\<not> export_disabled ?a"
    by (simp add: app_init_def Let_def case_prod_unfold)
  have e: "\<exists>r. export_render (app_engine ?a) = Inr r"
    using export_render_catalog [of scenario_engine "\<lparr>sample_rate = 44100, current_time = 0\<rparr>" init_master_chain]
    by (simp add: scenario_engine_def new_engine_def)
  from export_failure_reported_as_success [OF d e] d e show ?thesis by blast
qed

theorem pause_button_keeps_highlight_witness:
  "is_playing (app_engine ((app_init demo_page None None)\<lparr>app_engine := demo_engine\<rparr>)) \<and>
   \<not> is_playing (app_engine (app_step PlayClick ((app_init demo_page None None)\<lparr>app_engine := demo_engine\<rparr>))) \<and>
   no_highlight (grid (app_step StopClick ((app_init demo_page None None)\<lparr>app_engine := demo_engine\<rparr>)))"
proof -
  have p: "is_playing (app_engine ((app_init demo_page None None)\<lparr>app_engine := demo_engine\<rparr>))"
    by (simp add: demo_engine_def)
  show ?thesis using pause_button_keeps_highlight [OF p] p by blast
qed

theorem export_button_recovers_witness:
  "app_reachable demo_page (app_step (ExportClick (\<lambda>_. None)) (app_init demo_page None None)) \<and>
   \<not> export_disabled (app_step ExportTimeout (app_step ExportSettled (app_step (ExportClick (\<lambda>_. None)) (app_init demo_page None None)))) \<and>
   export_pending (app_step ExportTimeout (app_step ExportSettled (app_step (ExportClick (\<lambda>_. None)) (app_init demo_page None None)))) = None"
proof -
  have r: "app_reachable demo_page (app_step (ExportClick (\<lambda>_. None)) (app_init demo_page None None))"
    by (rule app_reachable.step, rule app_reachable.start)
  from export_button_recovers [OF r] r show ?thesis by blast
qed

end
