(* ===== verification/Routing.thy ===== *)
theory Routing
  imports Clock
begin

text \<open>
  Signal flow in the live graph of \<open>src/audio-engine.js\<close> and
  \<open>src/src/audio/Track.js\<close>. A track's reverb-send node is connected to the
  convolver (\<open>setupTracks\<close>, line 105), but nothing is ever connected into it:
  \<open>getReverbSendInputNode()\<close> returns the track's gain node, so the voices of
  \<open>playStep\<close> feed the gain node directly. The lemmas show that the nodes which
  feed the live convolver are closed under predecessors in every reachable
  graph and that no live voice outputs to one of them.
\<close>

text \<open>The nodes from which the live convolver can be fed, given the edges the sources make.\<close>

fun feeds_reverb :: "node \<Rightarrow> bool" where
  "feeds_reverb (ReverbConvolver LiveCtx) = True"
| "feeds_reverb (TrackReverbSend (LiveTrack i)) = True"
| "feeds_reverb n = False"

definition reverb_closed :: "edge list \<Rightarrow> bool" where
  "reverb_closed g \<longleftrightarrow> (\<forall>(a, b) \<in> set g. feeds_reverb b \<longrightarrow> feeds_reverb a)"

fun output_ok :: "engine_output \<Rightarrow> bool" where
  "output_ok (VoiceStarted v) = list_all (\<lambda>n. \<not> feeds_reverb n) (outputs v)"
| "output_ok (StepAdvance g) = True"

definition live_graph_inv :: "engine \<Rightarrow> bool" where
  "live_graph_inv e \<longleftrightarrow> reverb_closed (live_edges e) \<and> list_all output_ok (out e)"

text \<open>The events that connect nodes or start voices.\<close>

fun graph_op :: "engine_op \<Rightarrow> bool" where
  "graph_op (Init ac ir) = True"
| "graph_op (Tick tid now) = True"
| "graph_op (PlaySound name now) = True"
| "graph_op op = False"

definition graph_fields :: "engine \<Rightarrow> edge list \<times> engine_output list" where
  "graph_fields e = (live_edges e, out e)"

lemma reverb_closed_append [simp]: "reverb_closed (g @ h) \<longleftrightarrow> reverb_closed g \<and> reverb_closed h"
  by (auto simp add: reverb_closed_def)

lemma reverb_closed_reaches:
  assumes "reaches g a b" and "reverb_closed g" and "feeds_reverb b"
  shows "feeds_reverb a"
  using assms(1,3) unfolding reaches_def
proof (induction rule: converse_rtrancl_induct)
  case base
  then show ?case .
next
  case (step y z)
  with assms(2) show ?case by (auto simp add: reverb_closed_def)
qed

lemma synth_play_outputs:
  "synth_play ac c v d r = Inr x \<Longrightarrow> set (outputs x) \<subseteq> set_option d \<union> set_option r"
  by (auto simp add: synth_play_eq_at_time built_voice_def elim!: synth_play_at_time_InrE
      split: option.splits)

lemma setup_tracks_loop_graph:
  "reverb_closed (live_edges e) \<Longrightarrow>
     reverb_closed (live_edges (js_state (setup_tracks_loop i k e))) \<and>
     out (js_state (setup_tracks_loop i k e)) = out e"
proof (induction k arbitrary: i e)
  case 0
  then show ?case by simp
next
  case (Suc k)
  have "reverb_closed (track_chain_edges (LiveTrack n) @ live_track_bus_edges n)" for n
    by (simp add: reverb_closed_def track_chain_edges_def live_track_bus_edges_def)
  with Suc show ?case by (auto split: sum.splits)
qed

lemma init_graph_inv: "live_graph_inv e \<Longrightarrow> live_graph_inv (init ac ir e)"
proof -
  assume inv: "live_graph_inv e"
  have m: "reverb_closed (master_chain_edges LiveCtx @ reverb_return_edges LiveCtx)"
    by (simp add: reverb_closed_def master_chain_edges_def reverb_return_edges_def)
  show ?thesis
    using inv m setup_tracks_loop_graph
    by (auto simp add: init_def setup_tracks_def Let_def live_graph_inv_def split: option.splits)
qed


lemma player_play_outputs:
  "player_play ac p v d r = Inr x \<Longrightarrow>
     set (outputs x) \<subseteq> set_option (js_default d (destination_node p)) \<union> set_option (js_default r (reverb_send_node p))"
  unfolding player_play_def by (rule synth_play_outputs)

lemma play_step_tracks_outputs:
  "list_all output_ok acc \<Longrightarrow> list_all output_ok (js_state (play_step_tracks ac smp g i ts acc))"
proof (induction ts arbitrary: i acc)
  case Nil
  then show ?case by simp
next
  case (Cons t ts)
  have v: "list_all output_ok [VoiceStarted x]"
    if "player_play c (create_synth_sample_player cfg (volume t) (Some (TrackEqLow (LiveTrack i)))
            (Some (TrackGain (LiveTrack i)))) (Some (volume t)) (Some (Some (TrackEqLow (LiveTrack i))))
            (Some (Some (TrackGain (LiveTrack i)))) = Inr x" for c cfg x
    using player_play_outputs [OF that] by (auto simp add: js_default_def list_all_iff)
  show ?case
    using Cons v by (auto split: option.splits sum.splits)
qed

lemma interval_tick_graph_inv: "live_graph_inv e \<Longrightarrow> live_graph_inv (js_state (interval_tick now e))"
proof -
  assume inv: "live_graph_inv e"
  let ?r = "play_step_tracks (map_option (\<lambda>ac. ac\<lparr>current_time := now\<rparr>) (audio_context e))
              (samples e) (current_step e) 0 (tracks e) []"
  have "list_all output_ok (js_state ?r)" by (rule play_step_tracks_outputs) simp
  with inv show ?thesis
    by (auto simp add: interval_tick_def play_step_def live_graph_inv_def split: sum.splits prod.splits)
qed

lemma play_sound_graph_inv: "live_graph_inv e \<Longrightarrow> live_graph_inv (js_state (play_sound name now e))"
proof -
  assume inv: "live_graph_inv e"
  have "list_all output_ok [VoiceStarted x]"
    if "player_play c (create_synth_sample_player cfg 1 d None) (Some 1) (Some d) None = Inr x"
      and "d = None \<or> d = Some (MasterInput LiveCtx)" for c cfg x d
    using player_play_outputs [OF that(1)] that(2)
    by (auto simp add: js_default_def list_all_iff create_synth_sample_player_def)
  with inv show ?thesis
    by (auto simp add: play_sound_def Let_def live_graph_inv_def split: option.splits sum.splits)
qed


lemma graph_inv_fields: "graph_fields e = graph_fields e' \<Longrightarrow> live_graph_inv e = live_graph_inv e'"
  by (simp add: graph_fields_def live_graph_inv_def)

lemma clock_graph_fields:
  "live_edges (play e) = live_edges e" "out (play e) = out e"
  "live_edges (stop e) = live_edges e" "out (stop e) = out e"
  "live_edges (set_bpm b e) = live_edges e" "out (set_bpm b e) = out e"
  by (simp_all add: play_def stop_def set_bpm_def Let_def)

lemma engine_step_graph_frame:
  "\<not> graph_op op \<Longrightarrow> graph_fields (js_state (engine_step op e)) = graph_fields e"
proof (cases op)
  case (SetTrackStepCount i n)
  then show ?thesis
    by (simp add: graph_fields_def set_track_step_count_def split: sum.splits prod.splits)
next
  case (ToggleStep i s)
  then show ?thesis by (simp add: toggle_step_def Let_def graph_fields_def)
qed (simp_all add: clock_graph_fields graph_fields_def update_master_def set_master_volume_def
      set_master_reverb_wetness_def set_master_eq_low_def set_master_eq_high_def update_track_def
      set_track_volume_def set_track_pan_def set_track_reverb_amount_def set_track_eq_low_def
      set_track_eq_high_def set_track_sound_def clear_all_def start_recording_def stop_recording_def
      split: option.splits)

lemma engine_step_graph_inv: "live_graph_inv e \<Longrightarrow> live_graph_inv (js_state (engine_step op e))"
proof -
  assume inv: "live_graph_inv e"
  show ?thesis
  proof (cases "graph_op op")
    case True
    then consider ac ir where "op = Init ac ir" | tid now where "op = Tick tid now"
      | name now where "op = PlaySound name now"
      by (cases op) simp_all
    then show ?thesis
      using inv by cases (simp_all add: init_graph_inv interval_tick_graph_inv play_sound_graph_inv)
  next
    case False
    then have "graph_fields (js_state (engine_step op e)) = graph_fields e"
      by (rule engine_step_graph_frame)
    then have "live_graph_inv (js_state (engine_step op e)) = live_graph_inv e" by (rule graph_inv_fields)
    with inv show ?thesis by simp
  qed
qed

lemma reachable_graph_inv: "reachable ok e \<Longrightarrow> live_graph_inv e"
proof (induction rule: reachable.induct)
  case start
  show ?case by (simp add: live_graph_inv_def new_engine_def reverb_closed_def)
next
  case (step e op)
  from step.IH show ?case by (rule engine_step_graph_inv)
qed

text \<open>
  C5: the live reverb is never fed: in every state a session reaches, no output
  of a voice the engine started (by the clock or by \<open>playSound\<close>) reaches the
  live convolver, because nothing is ever connected into a track's reverb-send
  node. A track's reverb amount therefore has no audible effect during playback.
\<close>

theorem live_reverb_unreachable:
  assumes "reachable ok e" and "VoiceStarted v \<in> set (out e)" and "n \<in> set (outputs v)"
  shows "\<not> reaches (live_edges e) n (ReverbConvolver LiveCtx)"
proof
  assume r: "reaches (live_edges e) n (ReverbConvolver LiveCtx)"
  have inv: "live_graph_inv e" using assms(1) by (rule reachable_graph_inv)
  then have "reverb_closed (live_edges e)" by (simp add: live_graph_inv_def)
  then have "feeds_reverb n" using r by (intro reverb_closed_reaches [OF r]) simp_all
  moreover have "\<not> feeds_reverb n"
    using inv assms(2,3) by (fastforce simp add: live_graph_inv_def list_all_iff)
  ultimately show False by simp
qed


lemma play_sound_catalog:
  assumes "audio_context e = Some ac" and "3000 \<le> sample_rate ac" and "sample_rate ac \<le> 768000"
      and "0 \<le> now" and "master e \<noteq> None"
      and "sample_lookup (samples e) name = Some cfg" and "catalog_entry_ok cfg"
  shows "\<exists>v. play_sound name now e = Inr (e\<lparr>out := out e @ [VoiceStarted v]\<rparr>) \<and>
             outputs v = [MasterInput LiveCtx]"
proof -
  let ?ac = "ac\<lparr>current_time := now\<rparr>"
  obtain v where v: "synth_play_at_time ?ac now cfg 1 (Some (MasterInput LiveCtx)) None = Inr v"
    using catalog_entry_plays [OF assms(7), of ?ac now 1 "Some (MasterInput LiveCtx)" None] assms(2-4)
    by auto
  then obtain nb where "v = built_voice cfg 1 now (Some (MasterInput LiveCtx)) None nb"
    by (rule synth_play_at_time_InrE)
  then have "outputs v = [MasterInput LiveCtx]" by (simp add: built_voice_def)
  moreover have "play_sound name now e = Inr (e\<lparr>out := out e @ [VoiceStarted v]\<rparr>)"
    using assms(1,5,6) v
    by (auto simp add: play_sound_def player_play_def create_synth_sample_player_def
        js_default_def synth_play_eq_at_time)
  ultimately show ?thesis by blast
qed

theorem live_reverb_unreachable_witness:
  "\<exists>v. VoiceStarted v \<in> set (out (js_state (engine_step (PlaySound ''kick-01'' 0)
          (js_state (engine_step (Init (Some \<lparr>sample_rate = 44100, current_time = 0\<rparr>) None) new_engine))))) \<and>
       MasterInput LiveCtx \<in> set (outputs v) \<and>
       \<not> reaches (live_edges (js_state (engine_step (PlaySound ''kick-01'' 0)
          (js_state (engine_step (Init (Some \<lparr>sample_rate = 44100, current_time = 0\<rparr>) None) new_engine)))))
          (MasterInput LiveCtx) (ReverbConvolver LiveCtx)"
proof -
  let ?ac = "\<lparr>sample_rate = 44100, current_time = 0\<rparr> :: audio_ctx"
  let ?ini = "js_state (engine_step (Init (Some ?ac) None) new_engine)"
  let ?e = "js_state (engine_step (PlaySound ''kick-01'' 0) ?ini)"
  have r: "reachable (\<lambda>_. True) ?e" by (intro reachable.step reachable.start) simp_all
  have c: "sample_lookup sample_definitions ''kick-01'' = Some cfg \<Longrightarrow> catalog_entry_ok cfg" for cfg
    by (rule catalog_lookup_ok)
  obtain cfg where cfg: "sample_lookup sample_definitions ''kick-01'' = Some cfg"
    by (simp add: sample_lookup_def sample_definitions_def sound_entry_def)
  have a: "audio_context ?ini = Some ?ac" "master ?ini \<noteq> None" "samples ?ini = sample_definitions"
    by (simp_all add: init_def new_engine_def load_samples_empty)
  have "\<exists>v. play_sound ''kick-01'' 0 ?ini = Inr (?ini\<lparr>out := out ?ini @ [VoiceStarted v]\<rparr>) \<and>
            outputs v = [MasterInput LiveCtx]"
    by (rule play_sound_catalog [of _ ?ac _ _ cfg]) (simp_all only: a cfg c [OF cfg], simp_all)
  then obtain v where v: "play_sound ''kick-01'' 0 ?ini = Inr (?ini\<lparr>out := out ?ini @ [VoiceStarted v]\<rparr>)"
      and o: "outputs v = [MasterInput LiveCtx]"
    by blast
  have "VoiceStarted v \<in> set (out ?e)" using v by simp
  moreover have "MasterInput LiveCtx \<in> set (outputs v)" using o by simp
  ultimately show ?thesis
    using live_reverb_unreachable [OF r] by blast
qed

end
